(* ===== verification/Prelude.thy ===== *)
theory Prelude
  imports Main "HOL-Library.Word" "HOL-Library.Code_Target_Nat"
begin

text \<open>
  Shared vocabulary of the development: Go byte slices and strings, error values, the result
  type of a Go call that returns \<open>(value, err)\<close>, and the string routines of the
  standard library that the program calls (\<open>strings.HasPrefix\<close>,
  \<open>strings.TrimPrefix\<close>, \<open>strings.Split\<close>, \<open>strings.TrimSpace\<close>, the verb
  \<open>%d\<close> of \<open>fmt\<close>).  A Go string is an Isabelle \<open>string\<close> with one character per
  byte; a \<open>[]byte\<close> is a list of 8-bit words.
\<close>

unbundle bit_operations_syntax

named_theorems go_string \<open>rewriting of the Go string routines\<close>
named_theorems go_bytes \<open>conversions between strings and byte slices\<close>

section \<open>Bytes and strings\<close>

type_synonym byte = "8 word"
type_synonym bytes = "8 word list"

text \<open>The conversions \<open>[]byte(s)\<close> and \<open>string(b)\<close>: no copy is observable.\<close>

definition byte_of_char :: "char \<Rightarrow> byte" where
  "byte_of_char c = of_char c"

definition char_of_byte :: "byte \<Rightarrow> char" where
  "char_of_byte b = char_of (unat b)"

definition bytes_of :: "string \<Rightarrow> bytes" where
  "bytes_of s = map byte_of_char s"

definition string_of :: "bytes \<Rightarrow> string" where
  "string_of b = map char_of_byte b"

lemma of_char_nat_less: "(of_char c :: nat) < 256"
  by (metis mod_less_divisor of_char_mod_256 zero_less_numeral)

lemma unat_byte_of_char: "unat (byte_of_char c) = of_char c"
proof -
  have "(of_char c :: byte) = of_nat (of_char c)"
    by (simp add: of_nat_of_char)
  then show ?thesis
    using of_char_nat_less [of c] by (simp add: byte_of_char_def unat_of_nat)
qed

lemma char_of_byte_of_char [simp, go_bytes]: "char_of_byte (byte_of_char c) = c"
  by (simp add: char_of_byte_def unat_byte_of_char)

lemma byte_of_char_of_byte [simp, go_bytes]: "byte_of_char (char_of_byte b) = b"
proof -
  have "unat b < 2 ^ LENGTH(8)"
    by (rule unsigned_less)
  then have "unat (byte_of_char (char_of_byte b)) = unat b"
    by (simp add: unat_byte_of_char char_of_byte_def)
  then show ?thesis by (rule word_unat_eq_iff [THEN iffD2])
qed

lemma string_of_bytes_of [simp, go_bytes]: "string_of (bytes_of s) = s"
  by (simp add: string_of_def bytes_of_def map_idI)

lemma bytes_of_string_of [simp, go_bytes]: "bytes_of (string_of b) = b"
  by (simp add: string_of_def bytes_of_def map_idI)

lemma bytes_of_simps [simp, go_bytes]:
  "bytes_of [] = []"
  "bytes_of (c # s) = byte_of_char c # bytes_of s"
  "bytes_of (s @ t) = bytes_of s @ bytes_of t"
  by (simp_all add: bytes_of_def)

lemma string_of_simps [simp, go_bytes]:
  "string_of [] = []"
  "string_of (b # bs) = char_of_byte b # string_of bs"
  "string_of (bs @ cs) = string_of bs @ string_of cs"
  by (simp_all add: string_of_def)

lemma length_bytes_of [simp, go_bytes]: "length (bytes_of s) = length s"
  by (simp add: bytes_of_def)

lemma length_string_of [simp, go_bytes]: "length (string_of b) = length b"
  by (simp add: string_of_def)

lemma bytes_of_inject [simp]: "bytes_of s = bytes_of t \<longleftrightarrow> s = t"
  by (metis string_of_bytes_of)

lemma string_of_inject [simp]: "string_of a = string_of b \<longleftrightarrow> a = b"
  by (metis bytes_of_string_of)

section \<open>Errors and results\<close>

text \<open>
  The errors that the standard library hands to the program.  Their wording is the library's
  own: a definition that shows \<open>err.Error()\<close> takes the wording as an argument.
  \<open>LibError\<close> stands for an error of a component outside this repository (the TLS stack,
  the cryptographic primitives, a network peer).
\<close>

datatype lib_error =
    EOF
  | UnexpectedEOF
  | CorruptInput nat
  | JsonSyntax
  | JsonType
  | LibError string

text \<open>\<open>fmt.Errorf(msg)\<close> and \<open>fmt.Errorf("msg: %w", err)\<close>.\<close>

datatype go_error =
    Errorf string
  | Wrapf string go_error
  | Lib lib_error

fun err_text :: "(lib_error \<Rightarrow> string) \<Rightarrow> go_error \<Rightarrow> string" where
  "err_text lt (Errorf s) = s"
| "err_text lt (Wrapf s e) = s @ '': '' @ err_text lt e"
| "err_text lt (Lib e) = lt e"

text \<open>A Go call that returns \<open>(value, err)\<close>: \<open>Inl\<close> when \<open>err != nil\<close>.\<close>

type_synonym 'a result = "go_error + 'a"

text \<open>\<open>if err != nil { return fmt.Errorf("msg: %w", err) }\<close>\<close>

definition wrap_err :: "string \<Rightarrow> 'a result \<Rightarrow> 'a result" where
  "wrap_err msg r = (case r of Inl e \<Rightarrow> Inl (Wrapf msg e) | Inr x \<Rightarrow> Inr x)"

lemma wrap_err_Inr [simp]: "wrap_err m r = Inr x \<longleftrightarrow> r = Inr x"
  by (simp add: wrap_err_def split: sum.splits)

definition result_ok :: "'a result \<Rightarrow> bool" where
  "result_ok r = (case r of Inl _ \<Rightarrow> False | Inr _ \<Rightarrow> True)"

lemma result_ok_simps [simp]:
  "result_ok (Inl e) = False"
  "result_ok (Inr x) = True"
  by (simp_all add: result_ok_def)

lemma result_ok_iff: "result_ok r \<longleftrightarrow> (\<exists>x. r = Inr x)"
  by (cases r) auto


section \<open>String routines of the standard library\<close>

text \<open>\<open>strings.HasPrefix\<close> and \<open>strings.TrimPrefix\<close>.\<close>

definition has_prefix :: "'a list \<Rightarrow> 'a list \<Rightarrow> bool" where
  "has_prefix s p = (take (length p) s = p)"

definition trim_prefix :: "'a list \<Rightarrow> 'a list \<Rightarrow> 'a list" where
  "trim_prefix s p = (if has_prefix s p then drop (length p) s else s)"

lemma has_prefix_append [simp, go_string]: "has_prefix (p @ s) p"
  by (simp add: has_prefix_def)

lemma has_prefix_iff: "has_prefix s p \<longleftrightarrow> (\<exists>t. s = p @ t)"
  by (metis append_take_drop_id has_prefix_append has_prefix_def)

lemma trim_prefix_append [simp, go_string]: "trim_prefix (p @ s) p = s"
  by (simp add: trim_prefix_def)

text \<open>\<open>strings.Split\<close> with a separator of one byte: always at least one part.\<close>

fun split_on :: "char \<Rightarrow> string \<Rightarrow> string list" where
  "split_on c [] = [[]]"
| "split_on c (x # xs) =
     (if x = c then [] # split_on c xs
      else (case split_on c xs of [] \<Rightarrow> [[x]] | p # ps \<Rightarrow> (x # p) # ps))"

fun join_on :: "char \<Rightarrow> string list \<Rightarrow> string" where
  "join_on c [] = []"
| "join_on c [p] = p"
| "join_on c (p # q # ps) = p @ c # join_on c (q # ps)"

lemma split_on_nonempty [simp]: "split_on c s \<noteq> []"
  by (induction s) (auto split: list.splits)

lemma join_split_on [go_string]: "join_on c (split_on c s) = s"
proof (induction s)
  case Nil
  show ?case by simp
next
  case (Cons x xs)
  then obtain p ps where ps: "split_on c xs = p # ps"
    by (cases "split_on c xs") auto
  with Cons show ?case by (cases ps) auto
qed

lemma split_on_parts: "p \<in> set (split_on c s) \<Longrightarrow> c \<notin> set p"
  by (induction s arbitrary: p) (auto split: list.splits if_splits)

lemma split_on_none: "c \<notin> set s \<Longrightarrow> split_on c s = [s]"
  by (induction s) auto

lemma split_on_append: "c \<notin> set p \<Longrightarrow> split_on c (p @ c # s) = p # split_on c s"
  by (induction p) auto

lemma split_on_three:
  assumes "split_on c s = [p, q, r]"
  shows "s = p @ c # q @ c # r"
  using join_split_on [of c s] assms by simp

text \<open>
  \<open>strings.TrimSpace\<close>: the white space of \<open>unicode.IsSpace\<close>, each rune as its UTF-8
  bytes.  UTF-8 is self-synchronising, so a suffix that spells one of these runes is the last
  rune of the string.
\<close>

definition unicode_spaces :: "string list" where
  "unicode_spaces =
     [[CHR 0x09], [CHR 0x0A], [CHR 0x0B], [CHR 0x0C], [CHR 0x0D], [CHR 0x20],
      [CHR 0xC2, CHR 0x85], [CHR 0xC2, CHR 0xA0], [CHR 0xE1, CHR 0x9A, CHR 0x80],
      [CHR 0xE2, CHR 0x80, CHR 0x80], [CHR 0xE2, CHR 0x80, CHR 0x81],
      [CHR 0xE2, CHR 0x80, CHR 0x82], [CHR 0xE2, CHR 0x80, CHR 0x83],
      [CHR 0xE2, CHR 0x80, CHR 0x84], [CHR 0xE2, CHR 0x80, CHR 0x85],
      [CHR 0xE2, CHR 0x80, CHR 0x86], [CHR 0xE2, CHR 0x80, CHR 0x87],
      [CHR 0xE2, CHR 0x80, CHR 0x88], [CHR 0xE2, CHR 0x80, CHR 0x89],
      [CHR 0xE2, CHR 0x80, CHR 0x8A], [CHR 0xE2, CHR 0x80, CHR 0xA8],
      [CHR 0xE2, CHR 0x80, CHR 0xA9], [CHR 0xE2, CHR 0x80, CHR 0xAF],
      [CHR 0xE2, CHR 0x81, CHR 0x9F], [CHR 0xE3, CHR 0x80, CHR 0x80]]"

function strip_any :: "string list \<Rightarrow> string \<Rightarrow> string" where
  "strip_any ws s =
     (case find (\<lambda>w. w \<noteq> [] \<and> has_prefix s w) ws of
        None \<Rightarrow> s
      | Some w \<Rightarrow> strip_any ws (drop (length w) s))"
  by pat_completeness auto
termination
proof (relation "measure (\<lambda>(ws, s). length s)")
  fix ws s w
  assume "find (\<lambda>w. w \<noteq> [] \<and> has_prefix s w) ws = Some w"
  then have "w \<noteq> []" and "has_prefix s w"
    by (auto simp: find_Some_iff)
  then show "((ws, drop (length w) s), ws, s) \<in> measure (\<lambda>(ws, s). length s)"
    by (auto simp: has_prefix_iff)
qed simp

declare strip_any.simps [simp del]

definition trim_left :: "string \<Rightarrow> string" where
  "trim_left s = strip_any unicode_spaces s"

definition trim_right :: "string \<Rightarrow> string" where
  "trim_right s = rev (strip_any (map rev unicode_spaces) (rev s))"

definition trim_space :: "string \<Rightarrow> string" where
  "trim_space s = trim_right (trim_left s)"

text \<open>A string that neither starts nor ends with a printable non-space byte is unchanged.\<close>

lemma strip_any_unchanged:
  assumes "\<And>w. w \<in> set ws \<Longrightarrow> w = [] \<or> hd w \<noteq> x"
  shows "strip_any ws (x # s) = x # s"
proof -
  have "\<not> (w \<noteq> [] \<and> has_prefix (x # s) w)" if "w \<in> set ws" for w
    using assms [OF that] by (cases w) (auto simp: has_prefix_iff)
  then have "find (\<lambda>w. w \<noteq> [] \<and> has_prefix (x # s) w) ws = None"
    by (simp add: find_None_iff)
  then show ?thesis by (simp add: strip_any.simps)
qed

section \<open>Decimal numbers: the verb \<open>%d\<close>\<close>

definition digit_char :: "nat \<Rightarrow> char" where
  "digit_char d = char_of (48 + d)"

fun show_nat :: "nat \<Rightarrow> string" where
  "show_nat n = (if n < 10 then [digit_char n] else show_nat (n div 10) @ [digit_char (n mod 10)])"

declare show_nat.simps [simp del]

definition show_int :: "int \<Rightarrow> string" where
  "show_int i = (if i < 0 then CHR ''-'' # show_nat (nat (- i)) else show_nat (nat i))"

definition is_digit :: "char \<Rightarrow> bool" where
  "is_digit c = (48 \<le> (of_char c :: nat) \<and> (of_char c :: nat) \<le> 57)"

definition digit_val :: "char \<Rightarrow> nat" where
  "digit_val c = of_char c - 48"

definition read_nat :: "string \<Rightarrow> nat" where
  "read_nat s = foldl (\<lambda>n c. 10 * n + digit_val c) 0 s"

lemma digit_char_props:
  assumes "d < 10"
  shows "is_digit (digit_char d)" and "digit_val (digit_char d) = d"
  using assms by (simp_all add: digit_char_def is_digit_def digit_val_def)

lemma show_nat_digits: "c \<in> set (show_nat n) \<Longrightarrow> is_digit c"
proof (induction n arbitrary: c rule: show_nat.induct)
  case (1 n)
  then show ?case
    by (cases "n < 10") (auto simp: show_nat.simps [of n] digit_char_props)
qed

lemma show_nat_nonempty [simp]: "show_nat n \<noteq> []"
  by (subst show_nat.simps) simp

lemma read_show_nat [simp]: "read_nat (show_nat n) = n"
proof (induction n rule: show_nat.induct)
  case (1 n)
  then show ?case
    by (cases "n < 10") (auto simp: show_nat.simps [of n] read_nat_def digit_char_props)
qed

lemma show_nat_inject [simp]: "show_nat m = show_nat n \<longleftrightarrow> m = n"
  by (metis read_show_nat)

lemma not_digit_show_nat: "\<not> is_digit c \<Longrightarrow> c \<notin> set (show_nat n)"
  using show_nat_digits by blast

section \<open>Big-endian numbers\<close>

text \<open>The value of a byte string read as a big-endian number (\<open>big.Int.SetBytes\<close>).\<close>

definition be_value :: "bytes \<Rightarrow> nat" where
  "be_value bs = foldl (\<lambda>n b. 256 * n + unat b) 0 bs"

lemma be_value_Nil [simp]: "be_value [] = 0"
  by (simp add: be_value_def)

lemma be_value_snoc [simp]: "be_value (bs @ [b]) = 256 * be_value bs + unat b"
  by (simp add: be_value_def)

lemma byte_less [simp]: "unat (b :: byte) < 256"
proof -
  have "unat b < 2 ^ LENGTH(8)"
    by (rule unsigned_less)
  then show ?thesis by simp
qed

lemma be_value_less: "be_value bs < 256 ^ length bs"
proof (induction bs rule: rev_induct)
  case Nil
  show ?case by simp
next
  case (snoc b bs)
  then have "256 * be_value bs + unat b < 256 * be_value bs + 256"
    by simp
  also have "\<dots> = 256 * Suc (be_value bs)"
    by simp
  also have "\<dots> \<le> 256 * 256 ^ length bs"
    using snoc by (intro mult_le_mono2) simp
  finally show ?case by simp
qed

lemma be_value_inject:
  "length bs = length cs \<Longrightarrow> be_value bs = be_value cs \<Longrightarrow> bs = cs"
proof (induction bs arbitrary: cs rule: rev_induct)
  case Nil
  then show ?case by simp
next
  case (snoc b bs)
  then obtain cs' c where cs: "cs = cs' @ [c]"
    by (cases cs rule: rev_cases) auto
  with snoc.prems have eq: "256 * be_value bs + unat b = 256 * be_value cs' + unat c"
    by simp
  then have "(256 * be_value bs + unat b) mod 256 = (256 * be_value cs' + unat c) mod 256"
    by (rule arg_cong)
  then have "unat b = unat c"
    by simp
  with eq snoc cs show ?case
    by (simp add: word_unat_eq_iff)
qed

text \<open>
  \<open>binary.BigEndian\<close> on \<open>uint32\<close>: four bytes, most significant first.
\<close>

definition put_u32 :: "32 word \<Rightarrow> bytes" where
  "put_u32 w = map (\<lambda>k. of_nat (unat w div 256 ^ k)) [3, 2, 1, 0]"

definition get_u32 :: "bytes \<Rightarrow> 32 word" where
  "get_u32 bs = of_nat (be_value bs)"

lemma length_put_u32 [simp]: "length (put_u32 w) = 4"
  by (simp add: put_u32_def)

lemma unat_of_nat_byte: "unat (of_nat n :: byte) = n mod 256"
  by (simp add: unat_of_nat)

lemma be_value_put_u32: "be_value (put_u32 w) = unat w"
proof -
  define n where "n = unat w"
  have "unat w < 2 ^ LENGTH(32)"
    by (rule unsigned_less)
  then have n: "n < 4294967296"
    by (simp add: n_def)
  have d1: "n div 65536 = n div 256 div 256"
    using div_mult2_eq [of n 256 256] by simp
  have d2: "n div 16777216 = n div 256 div 256 div 256"
    using div_mult2_eq [of n 65536 256] by (simp add: d1)
  have "n div 256 div 256 div 256 < 256"
    using n by (simp add: less_mult_imp_div_less flip: d2)
  then have "be_value (put_u32 w) = 256 * (256 * (256 * (n div 256 div 256 div 256)
      + n div 256 div 256 mod 256) + n div 256 mod 256) + n mod 256"
    by (simp add: put_u32_def be_value_def unat_of_nat_byte d1 d2 flip: n_def)
  also have "\<dots> = n"
    by (simp only: mult_div_mod_eq)
  finally show ?thesis by (simp add: n_def)
qed

lemma get_put_u32 [simp]: "get_u32 (put_u32 w) = w"
  by (simp add: get_u32_def be_value_put_u32)

end
