(* ===== verification/Codec.thy ===== *)
theory Codec
  imports Prelude
begin

text \<open>
  The text encodings of the program: \<open>base64.StdEncoding\<close> (padded, used in JSON bodies),
  \<open>base64.RawURLEncoding\<close> (unpadded, used in headers, JWT parts and \<open>eat_nonce\<close>) and
  \<open>hex.EncodeToString\<close>.  The decoder is Go's: it skips carriage returns and line feeds,
  ignores non-zero trailing bits, and reports the input offset of the first bad byte.

  The locale \<open>codec\<close> is the contract that the rest of the development uses: what was
  encoded decodes to itself.  It is interpreted here on both base64 encodings.
\<close>

section \<open>The contract of an encoding\<close>

locale codec =
  fixes enc :: "'a \<Rightarrow> string"
    and dec :: "string \<Rightarrow> 'a result"
  assumes dec_enc: "dec (enc x) = Inr x"
begin

lemma enc_inject: "enc x = enc y \<longleftrightarrow> x = y"
  by (metis dec_enc sum.inject(2))

lemma dec_inverts: "dec (enc x) = Inr y \<longleftrightarrow> y = x"
  by (auto simp: dec_enc)

lemma enc_total: "\<exists>s. dec s = Inr x"
  using dec_enc by blast

end

section \<open>Base64\<close>

record b64_encoding =
  b64_url :: bool
  b64_padded :: bool

definition StdEncoding :: b64_encoding where
  "StdEncoding = \<lparr>b64_url = False, b64_padded = True\<rparr>"

definition RawURLEncoding :: b64_encoding where
  "RawURLEncoding = \<lparr>b64_url = True, b64_padded = False\<rparr>"

definition enc_char :: "bool \<Rightarrow> nat \<Rightarrow> char" where
  "enc_char u v =
     (if v < 26 then char_of (65 + v)
      else if v < 52 then char_of (71 + v)
      else if v < 62 then char_of (v - 4)
      else if v = 62 then (if u then CHR ''-'' else CHR ''+'')
      else (if u then CHR ''_'' else CHR ''/''))"

definition dec_char :: "bool \<Rightarrow> char \<Rightarrow> nat option" where
  "dec_char u c =
     (let n = of_char c :: nat in
      if 65 \<le> n \<and> n \<le> 90 then Some (n - 65)
      else if 97 \<le> n \<and> n \<le> 122 then Some (n - 71)
      else if 48 \<le> n \<and> n \<le> 57 then Some (n + 4)
      else if c = (if u then CHR ''-'' else CHR ''+'') then Some 62
      else if c = (if u then CHR ''_'' else CHR ''/'') then Some 63
      else None)"

text \<open>Three bytes as a 24-bit group, read six bits at a time.\<close>

definition sextet :: "nat \<Rightarrow> nat \<Rightarrow> nat" where
  "sextet k v = v div 64 ^ (3 - k) mod 64"

definition group_value :: "bytes \<Rightarrow> nat" where
  "group_value bs = be_value (take 3 (bs @ [0, 0]))"

fun b64_encode :: "b64_encoding \<Rightarrow> bytes \<Rightarrow> string" where
  "b64_encode e [] = []"
| "b64_encode e [a] =
     (let v = group_value [a]; ch = (\<lambda>k. enc_char (b64_url e) (sextet k v))
      in [ch 0, ch 1] @ (if b64_padded e then ''=='' else []))"
| "b64_encode e [a, b] =
     (let v = group_value [a, b]; ch = (\<lambda>k. enc_char (b64_url e) (sextet k v))
      in [ch 0, ch 1, ch 2] @ (if b64_padded e then ''='' else []))"
| "b64_encode e (a # b # c # bs) =
     (let v = group_value [a, b, c]; ch = (\<lambda>k. enc_char (b64_url e) (sextet k v))
      in [ch 0, ch 1, ch 2, ch 3] @ b64_encode e bs)"

text \<open>The bytes of a group of two, three or four decoded characters.\<close>

definition group_bytes :: "nat list \<Rightarrow> bytes" where
  "group_bytes buf =
     (let v = foldl (\<lambda>n d. 64 * n + d) 0 (take 4 (buf @ [0, 0]))
      in take (length buf - 1) [of_nat (v div 65536), of_nat (v div 256), of_nat v])"

fun b64_quanta ::
  "b64_encoding \<Rightarrow> nat \<Rightarrow> nat list \<Rightarrow> (nat \<times> char) list \<Rightarrow> bytes result" where
  "b64_quanta e n buf [] =
     (if buf = [] then Inr []
      else if length buf = 1 \<or> b64_padded e then Inl (Lib (CorruptInput (n - length buf)))
      else Inr (group_bytes buf))"
| "b64_quanta e n buf ((i, c) # cs) =
     (case dec_char (b64_url e) c of
        Some v \<Rightarrow>
          (if length buf = 3
           then (case b64_quanta e n [] cs of
                   Inl err \<Rightarrow> Inl err
                 | Inr bs \<Rightarrow> Inr (group_bytes (buf @ [v]) @ bs))
           else b64_quanta e n (buf @ [v]) cs)
      | None \<Rightarrow>
          (if \<not> (b64_padded e \<and> c = CHR ''='') then Inl (Lib (CorruptInput i))
           else if length buf < 2 then Inl (Lib (CorruptInput i))
           else if length buf = 2
           then (case cs of
                   [] \<Rightarrow> Inl (Lib (CorruptInput n))
                 | (k, d) # cs' \<Rightarrow>
                     (if d \<noteq> CHR ''='' then Inl (Lib (CorruptInput (k - 1)))
                      else (case cs' of
                              [] \<Rightarrow> Inr (group_bytes buf)
                            | (l, _) # _ \<Rightarrow> Inl (Lib (CorruptInput l)))))
           else (case cs of
                   [] \<Rightarrow> Inr (group_bytes buf)
                 | (k, _) # _ \<Rightarrow> Inl (Lib (CorruptInput k)))))"

definition is_newline :: "char \<Rightarrow> bool" where
  "is_newline c = (c = CHR 0x0A \<or> c = CHR 0x0D)"

definition b64_decode :: "b64_encoding \<Rightarrow> string \<Rightarrow> bytes result" where
  "b64_decode e s =
     b64_quanta e (length s) []
       (filter (\<lambda>(i, c). \<not> is_newline c) (zip [0..<length s] s))"

subsection \<open>Round trip\<close>

lemma dec_enc_char [simp]: "v < 64 \<Longrightarrow> dec_char u (enc_char u v) = Some v"
  by (auto simp: dec_char_def enc_char_def Let_def)

lemma enc_char_not_newline [simp]: "v < 64 \<Longrightarrow> \<not> is_newline (enc_char u v)"
proof -
  assume "v < 64"
  then have "dec_char u (enc_char u v) = Some v" by simp
  moreover have "dec_char u (CHR 0x0A) = None" and "dec_char u (CHR 0x0D) = None"
    by (simp_all add: dec_char_def Let_def)
  ultimately show ?thesis by (auto simp: is_newline_def)
qed

lemma sextet_less [simp]: "sextet k v < 64"
  by (simp add: sextet_def)

lemma dec_char_pad [simp]: "dec_char u (CHR ''='') = None"
  by (simp add: dec_char_def Let_def)

lemma sextets_value:
  assumes "v < 16777216"
  shows "64 * (64 * (64 * sextet 0 v + sextet 1 v) + sextet 2 v) + sextet 3 v = v"
proof -
  define p where "p = v div 64"
  define q where "q = p div 64"
  have d2: "v div 4096 = q"
    using div_mult2_eq [of v 64 64] by (simp add: p_def q_def)
  have d3: "v div 262144 = q div 64"
    using div_mult2_eq [of v 4096 64] by (simp add: d2)
  have "q div 64 < 64"
    using assms by (simp add: less_mult_imp_div_less flip: d3)
  then have s: "sextet 0 v = q div 64" "sextet 1 v = q mod 64" "sextet 2 v = p mod 64"
    "sextet 3 v = v mod 64"
    by (simp_all add: sextet_def d2 d3 p_def)
  have "64 * (q div 64) + q mod 64 = q" "64 * q + p mod 64 = p" "64 * p + v mod 64 = v"
    by (simp_all add: p_def q_def)
  then show ?thesis by (simp only: s)
qed

lemma group_value_less:
  assumes "bs \<noteq> []"
  shows "group_value bs < 16777216"
proof -
  define t where "t = take 3 (bs @ [0, 0])"
  have "length t = 3"
    using assms by (cases bs) (auto simp: t_def)
  then show ?thesis
    using be_value_less [of t] by (simp only: group_value_def t_def [symmetric]) simp
qed

lemma group_value_simps:
  "group_value [a, b, c] = 65536 * unat a + 256 * unat b + unat c"
  "group_value [a, b] = 65536 * unat a + 256 * unat b"
  "group_value [a] = 65536 * unat a"
  by (simp_all add: group_value_def be_value_def)

lemma of_nat_byte_group:
  "(of_nat (256 * n + unat b) :: byte) = b"
proof -
  have "(of_nat (256 * n + unat b) :: byte) = 256 * of_nat n + of_nat (unat b)"
    by simp
  also have "(256 :: byte) = 0"
    by simp
  finally show ?thesis by simp
qed

lemma group_bytes_value:
  assumes "v = 65536 * unat a + 256 * unat b + unat c"
  shows "(of_nat (v div 65536) :: byte) = a" and "(of_nat (v div 256) :: byte) = b"
    and "(of_nat v :: byte) = c"
proof -
  have v: "v = 256 * (256 * unat a + unat b) + unat c"
    using assms by simp
  have "(256 * n + unat c) div 256 = n" for n
    by simp
  then have "v div 256 = 256 * unat a + unat b"
    by (simp only: v)
  moreover have "v div 65536 = v div 256 div 256"
    using div_mult2_eq [of v 256 256] by simp
  ultimately have "v div 65536 = unat a" and "v div 256 = 256 * unat a + unat b"
    by simp_all
  then show "(of_nat (v div 65536) :: byte) = a" and "(of_nat (v div 256) :: byte) = b"
    and "(of_nat v :: byte) = c"
    using of_nat_byte_group [of 0 a] of_nat_byte_group [of "unat a" b]
      of_nat_byte_group [of "256 * unat a + unat b" c] by (simp_all only: v) simp_all
qed

text \<open>The groups of a full, a two-byte and a one-byte tail decode to the bytes encoded.\<close>

lemma group_bytes_full:
  "group_bytes [sextet 0 (group_value [a, b, c]), sextet 1 (group_value [a, b, c]),
                sextet 2 (group_value [a, b, c]), sextet 3 (group_value [a, b, c])] = [a, b, c]"
  using group_bytes_value [OF group_value_simps(1) [of a b c]]
    sextets_value [OF group_value_less, of "[a, b, c]"]
  by (simp add: group_bytes_def Let_def)

lemma group_bytes_two:
  "group_bytes [sextet 0 (group_value [a, b]), sextet 1 (group_value [a, b]),
                sextet 2 (group_value [a, b])] = [a, b]"
proof -
  have v: "group_value [a, b] = 65536 * unat a + 256 * unat b + unat (0 :: byte)"
    by (simp add: group_value_simps)
  have "group_value [a, b] mod 64 = 0"
  proof -
    have "group_value [a, b] = 64 * (1024 * unat a + 4 * unat b)"
      by (simp add: group_value_simps)
    then show ?thesis by simp
  qed
  then have "sextet 3 (group_value [a, b]) = 0"
    by (simp add: sextet_def)
  then show ?thesis
    using group_bytes_value [OF v] sextets_value [OF group_value_less, of "[a, b]"]
    by (simp add: group_bytes_def Let_def)
qed

lemma group_bytes_one:
  "group_bytes [sextet 0 (group_value [a]), sextet 1 (group_value [a])] = [a]"
proof -
  have v: "group_value [a] = 65536 * unat a + 256 * unat (0 :: byte) + unat (0 :: byte)"
    by (simp add: group_value_simps)
  have g: "group_value [a] = 4096 * (16 * unat a)"
    by (simp add: group_value_simps)
  have "sextet 3 (group_value [a]) = 0" "sextet 2 (group_value [a]) = 0"
    by (simp_all add: sextet_def g)
  then show ?thesis
    using group_bytes_value [OF v] sextets_value [OF group_value_less, of "[a]"]
    by (simp add: group_bytes_def Let_def)
qed

lemma b64_quanta_encode:
  "map snd ics = b64_encode e bs \<Longrightarrow> b64_quanta e n [] ics = Inr bs"
proof (induction e bs arbitrary: ics rule: b64_encode.induct)
  case (1 e)
  then show ?case by simp
next
  case (2 e a)
  then show ?case
    using group_bytes_one [of a]
    by (auto simp: Let_def map_eq_Cons_conv map_eq_append_conv split: if_splits)
next
  case (3 e a b)
  then show ?case
    using group_bytes_two [of a b]
    by (auto simp: Let_def map_eq_Cons_conv map_eq_append_conv split: if_splits)
next
  case (4 e a b c bs)
  then obtain i0 i1 i2 i3 ics' where
    ics: "map snd ics' = b64_encode e bs"
    "ics = [(i0, enc_char (b64_url e) (sextet 0 (group_value [a, b, c]))),
            (i1, enc_char (b64_url e) (sextet 1 (group_value [a, b, c]))),
            (i2, enc_char (b64_url e) (sextet 2 (group_value [a, b, c]))),
            (i3, enc_char (b64_url e) (sextet 3 (group_value [a, b, c])))] @ ics'"
    by (auto simp: Let_def map_eq_Cons_conv)
  from "4.IH" [OF refl refl ics(1)] have "b64_quanta e n [] ics' = Inr bs" .
  then show ?case
    using group_bytes_full [of a b c] by (simp add: ics(2))
qed

lemma b64_encode_no_newline: "c \<in> set (b64_encode e bs) \<Longrightarrow> \<not> is_newline c"
  by (induction e bs rule: b64_encode.induct)
    (auto simp: Let_def is_newline_def [of "CHR ''=''"] split: if_splits)

lemma b64_decode_encode: "b64_decode e (b64_encode e bs) = Inr bs"
proof -
  let ?s = "b64_encode e bs"
  let ?z = "zip [0..<length ?s] ?s"
  have "filter (\<lambda>(i, c). \<not> is_newline c) ?z = ?z"
    by (rule filter_True) (auto dest!: set_zip_rightD dest: b64_encode_no_newline)
  then show ?thesis
    by (simp add: b64_decode_def b64_quanta_encode)
qed

interpretation std: codec "b64_encode StdEncoding" "b64_decode StdEncoding"
  by unfold_locales (rule b64_decode_encode)

interpretation rawurl: codec "b64_encode RawURLEncoding" "b64_decode RawURLEncoding"
  by unfold_locales (rule b64_decode_encode)

subsection \<open>The alphabet of the unpadded URL encoding\<close>

text \<open>
  Header values and JWT parts never contain a dot, so \<open>strings.Split(token, ".")\<close> finds the
  three parts of an encoded token.
\<close>

lemma enc_char_not_dot: "v < 64 \<Longrightarrow> enc_char u v \<noteq> CHR ''.''"
proof -
  assume "v < 64"
  then have "dec_char u (enc_char u v) = Some v" by simp
  moreover have "dec_char u (CHR ''.'') = None"
    by (simp add: dec_char_def Let_def)
  ultimately show ?thesis by auto
qed

lemma b64_encode_no_dot: "CHR ''.'' \<notin> set (b64_encode e bs)"
  by (induction e bs rule: b64_encode.induct) (auto simp: Let_def enc_char_not_dot [symmetric])

lemma rawurl_length:
  "length (b64_encode RawURLEncoding bs) = (4 * length bs + 2) div 3"
proof -
  have "e = RawURLEncoding \<Longrightarrow> length (b64_encode e bs) = (4 * length bs + 2) div 3" for e
    by (induction e bs rule: b64_encode.induct) (auto simp: Let_def RawURLEncoding_def)
  then show ?thesis by simp
qed

section \<open>Hexadecimal\<close>

text \<open>\<open>hex.EncodeToString\<close>: two lower-case digits per byte.\<close>

definition hex_digit :: "nat \<Rightarrow> char" where
  "hex_digit d = (if d < 10 then char_of (48 + d) else char_of (87 + d))"

definition hex_byte :: "byte \<Rightarrow> string" where
  "hex_byte b = [hex_digit (unat b div 16), hex_digit (unat b mod 16)]"

definition hex_encode :: "bytes \<Rightarrow> string" where
  "hex_encode bs = concat (map hex_byte bs)"

definition hex_val :: "char \<Rightarrow> nat" where
  "hex_val c = (let n = of_char c in if n < 58 then n - 48 else n - 87)"

lemma hex_val_digit: "d < 16 \<Longrightarrow> hex_val (hex_digit d) = d"
  by (simp add: hex_val_def hex_digit_def Let_def)

lemma hex_byte_inject: "hex_byte a = hex_byte b \<longleftrightarrow> a = b"
proof
  have v: "unat x = 16 * hex_val (hex_byte x ! 0) + hex_val (hex_byte x ! 1)" for x
  proof -
    have "unat x < 16 * 16"
      by simp
    then have "unat x div 16 < 16"
      by (rule less_mult_imp_div_less)
    then show ?thesis
      by (simp add: hex_byte_def hex_val_digit)
  qed
  assume "hex_byte a = hex_byte b"
  then have "unat a = unat b"
    by (simp only: v [of a] v [of b])
  then show "a = b"
    by (simp add: word_unat_eq_iff)
qed simp

lemma hex_encode_inject: "hex_encode as = hex_encode bs \<longleftrightarrow> as = bs"
proof
  assume "hex_encode as = hex_encode bs"
  then show "as = bs"
  proof (induction as arbitrary: bs)
    case Nil
    then show ?case by (cases bs) (auto simp: hex_encode_def hex_byte_def)
  next
    case (Cons a as)
    then obtain b cs where bs: "bs = b # cs"
      by (cases bs) (auto simp: hex_encode_def hex_byte_def)
    with Cons.prems have "hex_byte a = hex_byte b" and "hex_encode as = hex_encode cs"
      by (auto simp: hex_encode_def hex_byte_def)
    then show ?case
      using Cons.IH bs by (simp add: hex_byte_inject)
  qed
qed simp

lemma length_hex_encode: "length (hex_encode bs) = 2 * length bs"
  by (induction bs) (simp_all add: hex_encode_def hex_byte_def)

end
