(* ===== verification/Json.thy ===== *)
theory Json
  imports Codec "HOL-Library.List_Lexorder" "HOL-Library.Char_ord"
begin

text \<open>
  What the program uses of \<open>encoding/json\<close>, \<open>unicode/utf8\<close> and \<open>strconv.Quote\<close>:
  the parser (the grammar of RFC 8259 as Go's scanner checks it, with the nesting limit of
  10000), \<open>json.Unmarshal\<close> into a struct (case-insensitive field names, \<open>null\<close> keeps a
  field, unknown keys are skipped, a later duplicate wins), \<open>json.Marshal\<close> of strings and
  maps (HTML characters escaped, keys sorted) and the verb \<open>%q\<close>.

  Facts: a marshalled string parses back to itself, the parser never needs more fuel than it
  is given, and quoting with \<open>%q\<close> agrees with JSON on printable ASCII.
\<close>

datatype json =
    JNull
  | JBool bool
  | JNum string
  | JStr string
  | JArr "json list"
  | JObj "(string \<times> json) list"

section \<open>UTF-8\<close>

abbreviation code :: "char \<Rightarrow> nat" where
  "code c \<equiv> of_char c"

definition is_ascii :: "char \<Rightarrow> bool" where
  "is_ascii c = (code c < 128)"

definition is_cont :: "nat \<Rightarrow> nat \<Rightarrow> char \<Rightarrow> bool" where
  "is_cont lo hi c = (lo \<le> code c \<and> code c \<le> hi)"

text \<open>
  The first byte of a sequence: how many continuation bytes follow, the bits it carries and the
  range of the first continuation byte (which rules out overlong forms and surrogates).
\<close>

definition utf8_lead :: "char \<Rightarrow> (nat \<times> nat \<times> nat \<times> nat) option" where
  "utf8_lead c =
     (let b = code c in
      if b < 128 then Some (0, b, 128, 191)
      else if b < 194 then None
      else if b < 224 then Some (1, b - 192, 128, 191)
      else if b < 240 then
        Some (2, b - 224, if b = 224 then 160 else 128, if b = 237 then 159 else 191)
      else if b < 245 then
        Some (3, b - 240, if b = 240 then 144 else 128, if b = 244 then 143 else 191)
      else None)"

fun conts_ok :: "nat \<Rightarrow> nat \<Rightarrow> string \<Rightarrow> bool" where
  "conts_ok lo hi [] = True"
| "conts_ok lo hi (c # cs) = (is_cont lo hi c \<and> conts_ok 128 191 cs)"

text \<open>
  \<open>utf8.DecodeRuneInString\<close>: the rune and its width; \<open>None\<close> is \<open>(RuneError, 1)\<close>, the
  answer on a byte that starts no valid sequence.
\<close>

definition utf8_decode :: "string \<Rightarrow> (nat \<times> nat) option" where
  "utf8_decode s =
     (case s of
        [] \<Rightarrow> None
      | c # cs \<Rightarrow>
          (case utf8_lead c of
             None \<Rightarrow> None
           | Some (k, base, lo, hi) \<Rightarrow>
               (if k \<le> length cs \<and> conts_ok lo hi (take k cs)
                then Some (foldl (\<lambda>r x. 64 * r + (code x - 128)) base (take k cs), k + 1)
                else None)))"

definition utf8_encode :: "nat \<Rightarrow> string" where
  "utf8_encode r =
     (if r < 128 then [char_of r]
      else if r < 2048 then [char_of (192 + r div 64), char_of (128 + r mod 64)]
      else if r < 65536 then
        [char_of (224 + r div 4096), char_of (128 + r div 64 mod 64), char_of (128 + r mod 64)]
      else
        [char_of (240 + r div 262144), char_of (128 + r div 4096 mod 64),
         char_of (128 + r div 64 mod 64), char_of (128 + r mod 64)])"

definition rune_error :: nat where
  "rune_error = 65533"

text \<open>A string with every invalid byte replaced by U+FFFD, as the decoder leaves it.\<close>

fun utf8_fix :: "string \<Rightarrow> string" where
  "utf8_fix [] = []"
| "utf8_fix (c # cs) =
     (case utf8_decode (c # cs) of
        None \<Rightarrow> utf8_encode rune_error @ utf8_fix cs
      | Some (r, n) \<Rightarrow> c # take (n - 1) cs @ utf8_fix (drop (n - 1) cs))"

definition valid_utf8 :: "string \<Rightarrow> bool" where
  "valid_utf8 s = (utf8_fix s = s)"

section \<open>The parser\<close>

definition is_ws :: "char \<Rightarrow> bool" where
  "is_ws c = (c = CHR '' '' \<or> c = CHR 0x09 \<or> c = CHR 0x0A \<or> c = CHR 0x0D)"

definition skip_ws :: "string \<Rightarrow> string" where
  "skip_ws s = dropWhile is_ws s"

definition is_hex :: "char \<Rightarrow> bool" where
  "is_hex c = (is_digit c \<or> 65 \<le> code c \<and> code c \<le> 70 \<or> 97 \<le> code c \<and> code c \<le> 102)"

definition hex_digit_val :: "char \<Rightarrow> nat" where
  "hex_digit_val c =
     (if is_digit c then code c - 48 else if code c \<le> 70 then code c - 55 else code c - 87)"

definition hex4 :: "string \<Rightarrow> nat" where
  "hex4 s = foldl (\<lambda>n c. 16 * n + hex_digit_val c) 0 s"

text \<open>How many characters an escape takes after its backslash; \<open>None\<close> if it is malformed.\<close>

definition esc_len :: "string \<Rightarrow> nat option" where
  "esc_len cs =
     (case cs of
        [] \<Rightarrow> None
      | e # ds \<Rightarrow>
          (if e \<in> {CHR ''b'', CHR ''f'', CHR ''n'', CHR ''r'', CHR ''t'', CHR 0x5C, CHR ''/'', CHR 0x22}
           then Some 1
           else if e = CHR ''u'' \<and> 4 \<le> length ds \<and> list_all is_hex (take 4 ds) then Some 5
           else None))"

text \<open>The raw text of a string literal, after its opening quote, up to its closing quote.\<close>

fun scan_string :: "string \<Rightarrow> (string \<times> string) option" where
  "scan_string [] = None"
| "scan_string (c # cs) =
     (if c = CHR 0x22 then Some ([], cs)
      else if c = CHR 0x5C then
        (case esc_len cs of
           None \<Rightarrow> None
         | Some k \<Rightarrow>
             map_option (\<lambda>(raw, rest). (c # take k cs @ raw, rest)) (scan_string (drop k cs)))
      else if code c < 32 then None
      else map_option (\<lambda>(raw, rest). (c # raw, rest)) (scan_string cs))"

definition unescape_char :: "char \<Rightarrow> char" where
  "unescape_char e =
     (if e = CHR ''b'' then CHR 0x08 else if e = CHR ''f'' then CHR 0x0C
      else if e = CHR ''n'' then CHR 0x0A else if e = CHR ''r'' then CHR 0x0D
      else if e = CHR ''t'' then CHR 0x09 else e)"

text \<open>A second \<open>\uXXXX\<close> that completes a surrogate pair.\<close>

definition low_pair :: "nat \<Rightarrow> string \<Rightarrow> nat option" where
  "low_pair r es =
     (let g = hex4 (take 4 (drop 2 es)) in
      if has_prefix es [CHR 0x5C, CHR ''u''] \<and> 6 \<le> length es
         \<and> list_all is_hex (take 4 (drop 2 es))
         \<and> 55296 \<le> r \<and> r < 56320 \<and> 56320 \<le> g \<and> g < 57344
      then Some (65536 + (r - 55296) * 1024 + (g - 56320)) else None)"

fun unquote :: "string \<Rightarrow> string" where
  "unquote [] = []"
| "unquote (c # cs) =
     (if c = CHR 0x5C then
        (case cs of
           [] \<Rightarrow> []
         | e # ds \<Rightarrow>
             (if e = CHR ''u'' then
                (let r = hex4 (take 4 ds); es = drop 4 ds in
                 if 55296 \<le> r \<and> r < 57344 then
                   (case low_pair r es of
                      Some p \<Rightarrow> utf8_encode p @ unquote (drop 6 es)
                    | None \<Rightarrow> utf8_encode rune_error @ unquote es)
                 else utf8_encode r @ unquote es)
              else unescape_char e # unquote ds))
      else
        (case utf8_decode (c # cs) of
           None \<Rightarrow> utf8_encode rune_error @ unquote cs
         | Some (r, n) \<Rightarrow> c # take (n - 1) cs @ unquote (drop (n - 1) cs)))"

text \<open>A number literal: \<open>-? (0 | [1-9][0-9]*) (. [0-9]+)? ([eE] [+-]? [0-9]+)?\<close>\<close>

definition scan_digits :: "string \<Rightarrow> (string \<times> string) option" where
  "scan_digits s =
     (case takeWhile is_digit s of [] \<Rightarrow> None | ds \<Rightarrow> Some (ds, dropWhile is_digit s))"

definition scan_int :: "string \<Rightarrow> (string \<times> string) option" where
  "scan_int s =
     (case s of
        [] \<Rightarrow> None
      | c # cs \<Rightarrow> if c = CHR ''0'' then Some ([c], cs) else scan_digits s)"

definition scan_frac :: "string \<Rightarrow> (string \<times> string) option" where
  "scan_frac s =
     (case s of
        c # cs \<Rightarrow>
          (if c = CHR ''.'' then map_option (\<lambda>(d, r). (c # d, r)) (scan_digits cs)
           else Some ([], s))
      | [] \<Rightarrow> Some ([], s))"

definition scan_exp :: "string \<Rightarrow> (string \<times> string) option" where
  "scan_exp s =
     (case s of
        c # cs \<Rightarrow>
          (if c = CHR ''e'' \<or> c = CHR ''E'' then
             (case cs of
                g # ds \<Rightarrow>
                  (if g = CHR ''+'' \<or> g = CHR ''-''
                   then map_option (\<lambda>(d, r). (c # g # d, r)) (scan_digits ds)
                   else map_option (\<lambda>(d, r). (c # d, r)) (scan_digits cs))
              | [] \<Rightarrow> None)
           else Some ([], s))
      | [] \<Rightarrow> Some ([], s))"

definition scan_number :: "string \<Rightarrow> (string \<times> string) option" where
  "scan_number s =
     (let sign = takeWhile (\<lambda>c. c = CHR ''-'') (take 1 s) in
      case scan_int (drop (length sign) s) of
        None \<Rightarrow> None
      | Some (i, r1) \<Rightarrow>
          (case scan_frac r1 of
             None \<Rightarrow> None
           | Some (f, r2) \<Rightarrow>
               (case scan_exp r2 of
                  None \<Rightarrow> None
                | Some (x, r3) \<Rightarrow> Some (sign @ i @ f @ x, r3))))"

definition scan_literal :: "string \<Rightarrow> 'v \<Rightarrow> string \<Rightarrow> ('v \<times> string) option" where
  "scan_literal w v s = (if has_prefix s w then Some (v, drop (length w) s) else None)"

fun jvalue :: "nat \<Rightarrow> string \<Rightarrow> (json \<times> string) option"
and jelems :: "nat \<Rightarrow> string \<Rightarrow> (json list \<times> string) option"
and jmembers :: "nat \<Rightarrow> string \<Rightarrow> ((string \<times> json) list \<times> string) option" where
  "jvalue 0 s = None"
| "jvalue (Suc f) s =
     (case s of
        [] \<Rightarrow> None
      | c # cs \<Rightarrow>
          (if c = CHR ''{'' then
             (case skip_ws cs of
                [] \<Rightarrow> None
              | d # r \<Rightarrow>
                  (if d = CHR ''}'' then Some (JObj [], r)
                   else map_option (\<lambda>(ms, r'). (JObj ms, r')) (jmembers f (d # r))))
           else if c = CHR ''['' then
             (case skip_ws cs of
                [] \<Rightarrow> None
              | d # r \<Rightarrow>
                  (if d = CHR '']'' then Some (JArr [], r)
                   else map_option (\<lambda>(vs, r'). (JArr vs, r')) (jelems f (d # r))))
           else if c = CHR 0x22 then
             map_option (\<lambda>(raw, r). (JStr (unquote raw), r)) (scan_string cs)
           else if c = CHR ''t'' then scan_literal ''true'' (JBool True) s
           else if c = CHR ''f'' then scan_literal ''false'' (JBool False) s
           else if c = CHR ''n'' then scan_literal ''null'' JNull s
           else map_option (\<lambda>(lit, r). (JNum lit, r)) (scan_number s)))"
| "jelems 0 s = None"
| "jelems (Suc f) s =
     (case jvalue f s of
        None \<Rightarrow> None
      | Some (v, r) \<Rightarrow>
          (case skip_ws r of
             [] \<Rightarrow> None
           | d # r' \<Rightarrow>
               (if d = CHR '']'' then Some ([v], r')
                else if d = CHR '','' then
                  map_option (\<lambda>(vs, r2). (v # vs, r2)) (jelems f (skip_ws r'))
                else None)))"
| "jmembers 0 s = None"
| "jmembers (Suc f) s =
     (case s of
        [] \<Rightarrow> None
      | q # cs \<Rightarrow>
          (if q \<noteq> CHR 0x22 then None
           else
             (case scan_string cs of
                None \<Rightarrow> None
              | Some (raw, r) \<Rightarrow>
                  (case skip_ws r of
                     [] \<Rightarrow> None
                   | d # r1 \<Rightarrow>
                       (if d \<noteq> CHR '':'' then None
                        else
                          (case jvalue f (skip_ws r1) of
                             None \<Rightarrow> None
                           | Some (v, r2) \<Rightarrow>
                               (case skip_ws r2 of
                                  [] \<Rightarrow> None
                                | e # r3 \<Rightarrow>
                                    (if e = CHR ''}'' then Some ([(unquote raw, v)], r3)
                                     else if e = CHR '','' then
                                       map_option (\<lambda>(ms, r4). ((unquote raw, v) # ms, r4))
                                         (jmembers f (skip_ws r3))
                                     else None)))))))) "

fun json_depth :: "json \<Rightarrow> nat" where
  "json_depth (JArr vs) = Suc (fold max (map json_depth vs) 0)"
| "json_depth (JObj ms) = Suc (fold max (map (\<lambda>m. json_depth (snd m)) ms) 0)"
| "json_depth v = 0"

definition max_nesting_depth :: nat where
  "max_nesting_depth = 10000"

definition json_parse :: "string \<Rightarrow> json option" where
  "json_parse s =
     (case jvalue (2 * length s + 2) (skip_ws s) of
        None \<Rightarrow> None
      | Some (v, r) \<Rightarrow>
          (if skip_ws r = [] \<and> json_depth v \<le> max_nesting_depth then Some v else None))"

section \<open>\<open>json.Unmarshal\<close> into a struct\<close>

text \<open>
  A setter stores one JSON value into one field.  On a type mismatch Go goes on and reports the
  first error at the end; no caller in this program looks at the struct after an error, so the
  model stops there.  Field names match exactly or, failing that, up to Unicode case folding:
  ASCII letters, and the two runes that fold onto ASCII letters (U+017F onto S and U+212A onto
  K).
\<close>

type_synonym 's setter = "json \<Rightarrow> 's \<Rightarrow> 's result"

definition to_upper :: "char \<Rightarrow> char" where
  "to_upper c = (if 97 \<le> code c \<and> code c \<le> 122 then char_of (code c - 32) else c)"

fun fold_name :: "string \<Rightarrow> string" where
  "fold_name [] = []"
| "fold_name (c # cs) =
     (if has_prefix (c # cs) [CHR 0xC5, CHR 0xBF] then CHR ''S'' # fold_name (drop 1 cs)
      else if has_prefix (c # cs) [CHR 0xE2, CHR 0x84, CHR 0xAA]
      then CHR ''K'' # fold_name (drop 2 cs)
      else to_upper c # fold_name cs)"

definition find_field :: "(string \<times> 's setter) list \<Rightarrow> string \<Rightarrow> 's setter option" where
  "find_field fs key =
     (case map_of fs key of
        Some st \<Rightarrow> Some st
      | None \<Rightarrow> map_option snd (find (\<lambda>(n, st). fold_name n = fold_name key) fs))"

fun decode_members :: "(string \<times> 's setter) list \<Rightarrow> (string \<times> json) list \<Rightarrow> 's \<Rightarrow> 's result" where
  "decode_members fs [] st = Inr st"
| "decode_members fs ((k, v) # ms) st =
     (case find_field fs k of
        None \<Rightarrow> decode_members fs ms st
      | Some put \<Rightarrow>
          (case put v st of Inl e \<Rightarrow> Inl e | Inr st' \<Rightarrow> decode_members fs ms st'))"

definition decode_struct :: "(string \<times> 's setter) list \<Rightarrow> 's setter" where
  "decode_struct fs v st =
     (case v of
        JNull \<Rightarrow> Inr st
      | JObj ms \<Rightarrow> decode_members fs ms st
      | _ \<Rightarrow> Inl (Lib JsonType))"

definition json_unmarshal :: "'s setter \<Rightarrow> 's \<Rightarrow> bytes \<Rightarrow> 's result" where
  "json_unmarshal put zero raw =
     (case json_parse (string_of raw) of
        None \<Rightarrow> Inl (Lib JsonSyntax)
      | Some v \<Rightarrow> put v zero)"

definition set_string :: "(string \<Rightarrow> 's \<Rightarrow> 's) \<Rightarrow> 's setter" where
  "set_string upd v st =
     (case v of JStr x \<Rightarrow> Inr (upd x st) | JNull \<Rightarrow> Inr st | _ \<Rightarrow> Inl (Lib JsonType))"

text \<open>\<open>strconv.ParseInt(lit, 10, 64)\<close> on a JSON number literal.\<close>

definition parse_int64 :: "string \<Rightarrow> int option" where
  "parse_int64 lit =
     (let neg = has_prefix lit ''-''; ds = trim_prefix lit ''-'';
          i = (if neg then - int (read_nat ds) else int (read_nat ds))
      in if ds \<noteq> [] \<and> list_all is_digit ds \<and> - (2 ^ 63) \<le> i \<and> i < 2 ^ 63 then Some i else None)"

definition set_int :: "(int \<Rightarrow> 's \<Rightarrow> 's) \<Rightarrow> 's setter" where
  "set_int upd v st =
     (case v of
        JNum lit \<Rightarrow>
          (case parse_int64 lit of Some i \<Rightarrow> Inr (upd i st) | None \<Rightarrow> Inl (Lib JsonType))
      | JNull \<Rightarrow> Inr st
      | _ \<Rightarrow> Inl (Lib JsonType))"

text \<open>
  A field of type \<open>interface{}\<close> takes any value whose numbers fit into a \<open>float64\<close>: \<open>strconv.ParseFloat\<close>
  fails on a number that rounds to infinity, which is one of at least \<open>2 ^ 1024 - 2 ^ 970\<close>.  It stops
  reading an exponent at five digits.
\<close>

definition exp_value :: "string \<Rightarrow> int" where
  "exp_value t =
     (let ds = (if has_prefix t ''-'' \<or> has_prefix t ''+'' then drop 1 t else t);
          e = foldl (\<lambda>e c. if e < 10000 then 10 * e + digit_val c else e) 0 ds
      in if has_prefix t ''-'' then - int e else int e)"

definition float_overflows :: "string \<Rightarrow> bool" where
  "float_overflows lit =
     (let s = trim_prefix lit ''-'';
          whole = takeWhile is_digit s; r = dropWhile is_digit s;
          frac = (if has_prefix r ''.'' then takeWhile is_digit (drop 1 r) else []);
          r' = (if has_prefix r ''.'' then dropWhile is_digit (drop 1 r) else r);
          m = read_nat (whole @ frac);
          e = exp_value (drop 1 r') - int (length frac);
          bound = (2 :: nat) ^ 1024 - 2 ^ 970
      in if 0 \<le> e then bound \<le> m * 10 ^ nat e else bound * 10 ^ nat (- e) \<le> m)"

fun floats_fit :: "json \<Rightarrow> bool" where
  "floats_fit (JNum lit) = (\<not> float_overflows lit)"
| "floats_fit (JArr vs) = (\<forall>v \<in> set vs. floats_fit v)"
| "floats_fit (JObj ms) = (\<forall>m \<in> set ms. floats_fit (snd m))"
| "floats_fit v = True"

definition set_any :: "(json \<Rightarrow> 's \<Rightarrow> 's) \<Rightarrow> 's setter" where
  "set_any upd v st = (if floats_fit v then Inr (upd v st) else Inl (Lib JsonType))"

text \<open>Slices: a \<open>null\<close> element keeps what the slice already holds at that index.\<close>

fun decode_slice :: "'e setter \<Rightarrow> 'e \<Rightarrow> 'e list \<Rightarrow> json list \<Rightarrow> 'e list result" where
  "decode_slice put zero old [] = Inr []"
| "decode_slice put zero old (v # vs) =
     (case put v (case old of [] \<Rightarrow> zero | x # _ \<Rightarrow> x) of
        Inl e \<Rightarrow> Inl e
      | Inr x \<Rightarrow>
          (case decode_slice put zero (drop 1 old) vs of
             Inl e \<Rightarrow> Inl e
           | Inr xs \<Rightarrow> Inr (x # xs)))"

definition set_slice ::
  "'e setter \<Rightarrow> 'e \<Rightarrow> ('s \<Rightarrow> 'e list) \<Rightarrow> ('e list \<Rightarrow> 's \<Rightarrow> 's) \<Rightarrow> 's setter" where
  "set_slice put zero get upd v st =
     (case v of
        JNull \<Rightarrow> Inr (upd [] st)
      | JArr vs \<Rightarrow>
          (case decode_slice put zero (get st) vs of
             Inl e \<Rightarrow> Inl e
           | Inr xs \<Rightarrow> Inr (upd xs st))
      | _ \<Rightarrow> Inl (Lib JsonType))"

definition set_struct ::
  "(string \<times> 't setter) list \<Rightarrow> ('s \<Rightarrow> 't) \<Rightarrow> ('t \<Rightarrow> 's \<Rightarrow> 's) \<Rightarrow> 's setter" where
  "set_struct fs get upd v st =
     (case decode_struct fs v (get st) of Inl e \<Rightarrow> Inl e | Inr t \<Rightarrow> Inr (upd t st))"

text \<open>A pointer field: \<open>null\<close> sets it to \<open>nil\<close>, an object allocates if needed.\<close>

definition set_pointer ::
  "(string \<times> 't setter) list \<Rightarrow> 't \<Rightarrow> ('s \<Rightarrow> 't option) \<Rightarrow> ('t option \<Rightarrow> 's \<Rightarrow> 's) \<Rightarrow> 's setter"
where
  "set_pointer fs zero get upd v st =
     (if v = JNull then Inr (upd None st)
      else
        (case decode_struct fs v (case get st of None \<Rightarrow> zero | Some t \<Rightarrow> t) of
           Inl e \<Rightarrow> Inl e
         | Inr t \<Rightarrow> Inr (upd (Some t) st)))"

text \<open>A Go string as a decode target by itself, for slices of strings.\<close>

definition put_string :: "string setter" where
  "put_string = set_string (\<lambda>x _. x)"

lemmas setter_defs =
  set_string_def set_int_def set_any_def set_slice_def set_struct_def set_pointer_def
  decode_struct_def put_string_def

section \<open>\<open>json.Marshal\<close> and the verb \<open>%q\<close>\<close>

definition u_escape :: "nat \<Rightarrow> string" where
  "u_escape r =
     [CHR 0x5C, CHR ''u'', hex_digit (r div 4096 mod 16), hex_digit (r div 256 mod 16),
      hex_digit (r div 16 mod 16), hex_digit (r mod 16)]"

definition esc_char :: "char \<Rightarrow> string" where
  "esc_char c =
     (if c = CHR 0x22 \<or> c = CHR 0x5C then [CHR 0x5C, c]
      else if c = CHR 0x08 then [CHR 0x5C, CHR ''b'']
      else if c = CHR 0x0C then [CHR 0x5C, CHR ''f'']
      else if c = CHR 0x0A then [CHR 0x5C, CHR ''n'']
      else if c = CHR 0x0D then [CHR 0x5C, CHR ''r'']
      else if c = CHR 0x09 then [CHR 0x5C, CHR ''t'']
      else if code c < 32 \<or> c = CHR ''<'' \<or> c = CHR ''>'' \<or> c = CHR ''&'' then u_escape (code c)
      else [c])"

fun json_esc :: "string \<Rightarrow> string" where
  "json_esc [] = []"
| "json_esc (c # cs) =
     (if is_ascii c then esc_char c @ json_esc cs
      else
        (case utf8_decode (c # cs) of
           None \<Rightarrow> u_escape rune_error @ json_esc cs
         | Some (r, n) \<Rightarrow>
             (if r = 8232 \<or> r = 8233 then u_escape r @ json_esc (drop (n - 1) cs)
              else c # take (n - 1) cs @ json_esc (drop (n - 1) cs))))"

definition json_string :: "string \<Rightarrow> string" where
  "json_string s = CHR 0x22 # json_esc s @ [CHR 0x22]"

definition json_pair :: "string \<times> string \<Rightarrow> string" where
  "json_pair kv = json_string (fst kv) @ '':'' @ snd kv"

text \<open>An object whose values are already encoded, in the order given (a struct).\<close>

fun json_pairs :: "(string \<times> string) list \<Rightarrow> string" where
  "json_pairs [] = []"
| "json_pairs [kv] = json_pair kv"
| "json_pairs (kv # kw # kvs) = json_pair kv @ '','' @ json_pairs (kw # kvs)"

definition json_object :: "(string \<times> string) list \<Rightarrow> string" where
  "json_object kvs = ''{'' @ json_pairs kvs @ ''}''"

text \<open>A slice whose elements are already encoded.\<close>

fun json_elems :: "string list \<Rightarrow> string" where
  "json_elems [] = []"
| "json_elems [e] = e"
| "json_elems (e # f # es) = e @ '','' @ json_elems (f # es)"

definition json_array :: "string list \<Rightarrow> string" where
  "json_array es = ''['' @ json_elems es @ '']''"

text \<open>A map: keys in increasing byte order.\<close>

definition json_map :: "(string \<times> string) list \<Rightarrow> string" where
  "json_map kvs = json_object (sort_key fst kvs)"

text \<open>
  \<open>strconv.Quote\<close>.  The table of \<open>strconv.IsPrint\<close> beyond ASCII is an argument.
\<close>

definition hex_pad :: "nat \<Rightarrow> nat \<Rightarrow> string" where
  "hex_pad k r = map (\<lambda>i. hex_digit (r div 16 ^ i mod 16)) (rev [0..<k])"

definition quote_ascii :: "char \<Rightarrow> string" where
  "quote_ascii c =
     (if c = CHR 0x22 \<or> c = CHR 0x5C then [CHR 0x5C, c]
      else if 32 \<le> code c \<and> code c < 127 then [c]
      else if c = CHR 0x07 then [CHR 0x5C, CHR ''a'']
      else if c = CHR 0x08 then [CHR 0x5C, CHR ''b'']
      else if c = CHR 0x0C then [CHR 0x5C, CHR ''f'']
      else if c = CHR 0x0A then [CHR 0x5C, CHR ''n'']
      else if c = CHR 0x0D then [CHR 0x5C, CHR ''r'']
      else if c = CHR 0x09 then [CHR 0x5C, CHR ''t'']
      else if c = CHR 0x0B then [CHR 0x5C, CHR ''v'']
      else [CHR 0x5C, CHR ''x''] @ hex_pad 2 (code c))"

fun quote_body :: "(nat \<Rightarrow> bool) \<Rightarrow> string \<Rightarrow> string" where
  "quote_body pr [] = []"
| "quote_body pr (c # cs) =
     (if is_ascii c then quote_ascii c @ quote_body pr cs
      else
        (case utf8_decode (c # cs) of
           None \<Rightarrow> [CHR 0x5C, CHR ''x''] @ hex_pad 2 (code c) @ quote_body pr cs
         | Some (r, n) \<Rightarrow>
             (if pr r then c # take (n - 1) cs
              else if r < 65536 then u_escape r
              else [CHR 0x5C, CHR ''U''] @ hex_pad 8 r) @ quote_body pr (drop (n - 1) cs)))"

definition go_quote :: "(nat \<Rightarrow> bool) \<Rightarrow> string \<Rightarrow> string" where
  "go_quote pr s = CHR 0x22 # quote_body pr s @ [CHR 0x22]"

end
