(* ===== verification/Json_Facts.thy ===== *)
theory Json_Facts
  imports Json
begin

text \<open>
  Facts about the JSON model: a marshalled string reads back as itself (with invalid UTF-8
  replaced), an encoded object of strings parses to the pairs it was made of, and the fuel of
  the parser never runs out.
\<close>

section \<open>Characters\<close>

lemma code_less: "code c < 256"
  by (rule of_char_nat_less)

lemma char_eq_code: "c = d \<longleftrightarrow> code c = code d"
  by simp

lemma hex_digit_props:
  assumes "d < 16"
  shows "is_hex (hex_digit d)" and "hex_digit_val (hex_digit d) = d"
    and "hex_digit d \<noteq> CHR 0x22" and "hex_digit d \<noteq> CHR 0x5C"
    and "is_ascii (hex_digit d)"
  using assms
  by (auto simp: is_hex_def is_digit_def hex_digit_def hex_digit_val_def is_ascii_def char_eq_code)

lemma hex_digits_value:
  fixes r :: nat
  assumes "r < 65536"
  shows "16 * (16 * (16 * (r div 4096 mod 16) + r div 256 mod 16) + r div 16 mod 16) + r mod 16 = r"
proof -
  have d1: "r div 256 = r div 16 div 16"
    using div_mult2_eq [of r 16 16] by simp
  have d2: "r div 4096 = r div 16 div 16 div 16"
    using div_mult2_eq [of r 256 16] by (simp add: d1)
  have "r div 16 div 16 div 16 < 16"
    using assms by (simp add: less_mult_imp_div_less flip: d2)
  then show ?thesis
    by (simp only: d1 d2 mod_less mult_div_mod_eq)
qed

lemma hex4_digits:
  assumes "a < 16" and "b < 16" and "c < 16" and "d < 16"
  shows "hex4 [hex_digit a, hex_digit b, hex_digit c, hex_digit d] = 16 * (16 * (16 * a + b) + c) + d"
  using assms by (simp add: hex4_def hex_digit_props)

lemma hex4_u_escape:
  assumes "r < 65536"
  shows "hex4 [hex_digit (r div 4096 mod 16), hex_digit (r div 256 mod 16),
               hex_digit (r div 16 mod 16), hex_digit (r mod 16)] = r"
  by (subst hex4_digits) (simp_all only: hex_digits_value [OF assms] mod_less_divisor zero_less_numeral)

section \<open>Strings\<close>

lemma scan_u_escape:
  "scan_string (u_escape r @ t) = map_option (\<lambda>(raw, rest). (u_escape r @ raw, rest)) (scan_string t)"
  by (simp add: u_escape_def esc_len_def hex_digit_props)

lemma unquote_u_escape:
  assumes "r < 65536" and "\<not> (55296 \<le> r \<and> r < 57344)"
  shows "unquote (u_escape r @ t) = utf8_encode r @ unquote t"
  using assms(2) by (auto simp: u_escape_def hex4_u_escape [OF assms(1)] Let_def)

lemma scan_esc_char:
  "scan_string (esc_char c @ t) = map_option (\<lambda>(raw, rest). (esc_char c @ raw, rest)) (scan_string t)"
  by (simp add: esc_char_def scan_u_escape esc_len_def)

lemma utf8_decode_ascii: "is_ascii c \<Longrightarrow> utf8_decode (c # cs) = Some (code c, 1)"
  by (simp add: utf8_decode_def utf8_lead_def is_ascii_def Let_def)

lemma unquote_esc_char:
  assumes "is_ascii c"
  shows "unquote (esc_char c @ t) = c # unquote t"
proof -
  have "code c < 128"
    using assms by (simp add: is_ascii_def)
  moreover from this have "utf8_encode (code c) = [c]"
    by (simp add: utf8_encode_def)
  ultimately show ?thesis
    using utf8_decode_ascii [OF assms]
    by (auto simp: esc_char_def unquote_u_escape unescape_char_def)
qed

text \<open>A multi-byte rune: every byte of it is outside ASCII, and the width bounds hold.\<close>

lemma utf8_decode_cons:
  "utf8_decode (c # cs) = Some (r, n) \<longleftrightarrow>
     (\<exists>k base lo hi. utf8_lead c = Some (k, base, lo, hi) \<and> n = k + 1 \<and> k \<le> length cs \<and>
        conts_ok lo hi (take k cs) \<and>
        r = foldl (\<lambda>r x. 64 * r + (code x - 128)) base (take k cs))"
  by (auto simp: utf8_decode_def split: option.splits if_splits)

lemma utf8_decode_width:
  "utf8_decode (c # cs) = Some (r, n) \<Longrightarrow> 1 \<le> n \<and> n - 1 \<le> length cs"
  by (auto simp: utf8_decode_cons)

lemma utf8_decode_take:
  "utf8_decode (c # cs) = Some (r, n) \<Longrightarrow> utf8_decode (c # take (n - 1) cs @ t) = Some (r, n)"
  by (auto simp: utf8_decode_cons)

lemma utf8_lead_range:
  "utf8_lead c = Some (k, base, lo, hi) \<Longrightarrow> 128 \<le> lo"
  by (auto simp: utf8_lead_def Let_def split: if_splits)

lemma conts_high: "conts_ok lo hi cs \<Longrightarrow> 128 \<le> lo \<Longrightarrow> x \<in> set cs \<Longrightarrow> \<not> is_ascii x"
  by (induction lo hi cs rule: conts_ok.induct) (auto simp: is_cont_def is_ascii_def)

lemma utf8_decode_bytes:
  assumes "utf8_decode (c # cs) = Some (r, n)" and "x \<in> set (take (n - 1) cs)"
  shows "\<not> is_ascii x"
  using assms by (auto simp: utf8_decode_cons dest: utf8_lead_range conts_high)

lemma scan_string_high:
  "(\<And>x. x \<in> set p \<Longrightarrow> \<not> is_ascii x) \<Longrightarrow>
   scan_string (p @ t) = map_option (\<lambda>(raw, rest). (p @ raw, rest)) (scan_string t)"
proof (induction p)
  case Nil
  show ?case by (cases "scan_string t") auto
next
  case (Cons x p)
  then have x: "128 \<le> code x"
    by (simp add: is_ascii_def not_less)
  then have "x \<noteq> CHR 0x22" and "x \<noteq> CHR 0x5C"
    by auto
  with Cons x show ?case
    by (cases "scan_string t") (auto simp: option.map_comp)
qed

lemma unquote_rune:
  assumes "utf8_decode (c # cs) = Some (r, n)" and "\<not> is_ascii c"
  shows "unquote (c # take (n - 1) cs @ t) = c # take (n - 1) cs @ unquote t"
proof -
  have n: "n - 1 \<le> length cs"
    using utf8_decode_width [OF assms(1)] by simp
  have "c \<noteq> CHR 0x5C"
    using assms(2) by (auto simp: is_ascii_def)
  then show ?thesis
    using n utf8_decode_take [OF assms(1), of t] by simp
qed

lemma separator_digits:
  fixes m x y r :: nat
  assumes "r = 64 * (64 * m + x) + y" and "x < 64" and "y < 64" and "8232 \<le> r" and "r \<le> 8233"
  shows "m = 2 \<and> x = 0 \<and> y = r - 8192"
proof -
  have r: "r = 4096 * m + 64 * x + y"
    using assms(1) by simp
  have "m < 3"
  proof (rule ccontr)
    assume "\<not> m < 3"
    then have "4096 * 3 \<le> 4096 * m" by (intro mult_le_mono2) simp
    with r assms(5) show False by simp
  qed
  moreover have "1 < m"
  proof (rule ccontr)
    assume "\<not> 1 < m"
    then have "4096 * m \<le> 4096 * 1" by (intro mult_le_mono2) simp
    with r assms(2-4) show False by simp
  qed
  ultimately have m: "m = 2"
    by simp
  have "x < 1"
  proof (rule ccontr)
    assume "\<not> x < 1"
    then have "64 * 1 \<le> 64 * x" by (intro mult_le_mono2) simp
    with r m assms(5) show False by simp
  qed
  with r m show ?thesis
    by simp
qed

text \<open>The two separators that \<open>json.Marshal\<close> escapes read back as their own bytes.\<close>

lemma utf8_separator_lead:
  assumes "utf8_decode (c # cs) = Some (r, n)" and "r = 8232 \<or> r = 8233"
  shows "n = 3 \<and> (\<exists>c1 c2. take 2 cs = [c1, c2] \<and> code c = 226 \<and> code c1 = 128 \<and> code c2 = r - 8064)"
proof -
  obtain k base lo hi where k: "utf8_lead c = Some (k, base, lo, hi)" "n = k + 1"
    "k \<le> length cs" "conts_ok lo hi (take k cs)"
    "r = foldl (\<lambda>r x. 64 * r + (code x - 128)) base (take k cs)"
    using assms(1) by (auto simp: utf8_decode_cons)
  have "k = 0 \<or> k = 1 \<or> k = 2 \<or> k = 3"
    using k(1) by (auto simp: utf8_lead_def Let_def split: if_splits)
  then consider "k = 0" | c1 cs' where "k = 1" "cs = c1 # cs'"
    | c1 c2 cs' where "k = 2" "cs = c1 # c2 # cs'"
    | c1 c2 c3 cs' where "k = 3" "cs = c1 # c2 # c3 # cs'"
    using k(3) by (auto simp: numeral_eq_Suc Suc_le_length_iff)
  then show ?thesis
  proof cases
    case 1
    with k assms(2) show ?thesis
      by (auto simp: utf8_lead_def Let_def split: if_splits)
  next
    case 2
    with k have "base \<le> 31" "code c1 \<le> 191"
      by (auto simp: utf8_lead_def Let_def is_cont_def split: if_splits)
    with 2 k(5) assms(2) show ?thesis by auto
  next
    case 3
    with k have b: "base = code c - 224" "224 \<le> code c" "128 \<le> code c1" "code c1 \<le> 191"
      "128 \<le> code c2" "code c2 \<le> 191"
      by (auto simp: utf8_lead_def Let_def is_cont_def split: if_splits)
    have "r = 64 * (64 * base + (code c1 - 128)) + (code c2 - 128)"
      using 3 k(5) by simp
    moreover have "code c1 - 128 < 64" "code c2 - 128 < 64"
      using b by linarith+
    moreover have "8232 \<le> r" and "r \<le> 8233"
      using assms(2) by auto
    ultimately have "base = 2 \<and> code c1 - 128 = 0 \<and> code c2 - 128 = r - 8192"
      by (rule separator_digits)
    with b assms(2) have "base = 2" "code c1 = 128" "code c2 = r - 8064"
      by auto
    with 3 k(2) b show ?thesis by simp
  next
    case 4
    with k have "base = 0 \<longrightarrow> 144 \<le> code c1"
      by (auto simp: utf8_lead_def Let_def is_cont_def split: if_splits)
    moreover have "r = 64 * (64 * (64 * base + (code c1 - 128)) + (code c2 - 128)) + (code c3 - 128)"
      using 4 k(5) by simp
    ultimately show ?thesis using assms(2) by (cases "base = 0") auto
  qed
qed

lemma utf8_encode_separator:
  assumes "utf8_decode (c # cs) = Some (r, n)" and "r = 8232 \<or> r = 8233"
  shows "utf8_encode r = c # take (n - 1) cs"
proof -
  obtain c1 c2 where "n = 3" "take 2 cs = [c1, c2]" "code c = 226" "code c1 = 128"
    "code c2 = r - 8064"
    using utf8_separator_lead [OF assms] by blast
  moreover from this have "c = char_of (226 :: nat)" "c1 = char_of (128 :: nat)"
    "c2 = char_of (r - 8064)"
    by (metis char_of_char)+
  ultimately show ?thesis
    using assms(2) by (auto simp: utf8_encode_def)
qed

text \<open>The text of a marshalled string scans as one literal and unquotes to the string.\<close>

lemma map_option_pair_append:
  "map_option (\<lambda>(raw, rest). (p @ raw, rest))
     (map_option (\<lambda>(raw, rest). (q @ raw, rest)) x) =
   map_option (\<lambda>(raw, rest). ((p @ q) @ raw, rest)) x"
  by (cases x) auto

lemma scan_json_esc:
  "scan_string (json_esc s @ t) = map_option (\<lambda>(raw, rest). (json_esc s @ raw, rest)) (scan_string t)"
proof (induction s rule: json_esc.induct)
  case 1
  show ?case by (cases "scan_string t") auto
next
  case (2 c cs)
  show ?case
  proof (cases "is_ascii c")
    case True
    with 2 show ?thesis by (simp add: scan_esc_char map_option_pair_append)
  next
    case na: False
    show ?thesis
    proof (cases "utf8_decode (c # cs)")
      case None
      with 2 na show ?thesis by (simp add: scan_u_escape map_option_pair_append)
    next
      case (Some rn)
      obtain r n where rn: "rn = (r, n)" by (cases rn)
      have "\<not> is_ascii x" if "x \<in> set (c # take (n - 1) cs)" for x
        using that na utf8_decode_bytes [of c cs r n x] Some rn by auto
      then have "scan_string ((c # take (n - 1) cs) @ u) =
          map_option (\<lambda>(raw, rest). ((c # take (n - 1) cs) @ raw, rest)) (scan_string u)" for u
        by (rule scan_string_high)
      with 2 na Some rn show ?thesis
        using map_option_pair_append [of "c # take (n - 1) cs"]
        by (auto simp: scan_u_escape map_option_pair_append simp del: scan_string.simps One_nat_def)
    qed
  qed
qed

lemma unquote_json_esc: "unquote (json_esc s) = utf8_fix s"
proof (induction s rule: json_esc.induct)
  case 1
  show ?case by simp
next
  case (2 c cs)
  show ?case
  proof (cases "is_ascii c")
    case True
    with 2 show ?thesis by (simp add: unquote_esc_char utf8_decode_ascii)
  next
    case na: False
    show ?thesis
    proof (cases "utf8_decode (c # cs)")
      case None
      with 2 na show ?thesis
        by (simp add: unquote_u_escape rune_error_def del: unquote.simps)
    next
      case (Some rn)
      obtain r n where rn: "rn = (r, n)" by (cases rn)
      show ?thesis
      proof (cases "r = 8232 \<or> r = 8233")
        case True
        with Some rn have "utf8_encode r = c # take (n - 1) cs"
          by (intro utf8_encode_separator) auto
        with 2 na Some rn True show ?thesis
          by (auto simp: unquote_u_escape simp del: unquote.simps One_nat_def)
      next
        case False
        with 2 na Some rn show ?thesis
          by (simp add: unquote_rune del: unquote.simps One_nat_def)
      qed
    qed
  qed
qed

lemma scan_json_string:
  "scan_string (json_esc s @ CHR 0x22 # t) = Some (json_esc s, t)"
  by (simp add: scan_json_esc)

lemma utf8_fix_ascii: "list_all is_ascii s \<Longrightarrow> utf8_fix s = s"
  by (induction s) (auto simp: utf8_decode_ascii)

declare utf8_fix.simps(2) [simp del]

lemma valid_utf8_ascii: "list_all is_ascii s \<Longrightarrow> valid_utf8 s"
  by (simp add: valid_utf8_def utf8_fix_ascii)

section \<open>Values and flat objects\<close>

text \<open>
  An encoded value \<open>e\<close> of the JSON value \<open>v\<close>: with any fuel at least \<open>k\<close> the parser reads
  \<open>e\<close> and stops at a following separator or line break.
\<close>

definition is_stop :: "string \<Rightarrow> bool" where
  "is_stop t = (case t of [] \<Rightarrow> True | c # _ \<Rightarrow> c = CHR '','' \<or> c = CHR ''}'' \<or> c = CHR '']'' \<or> c = CHR 0x0A)"

definition encodes :: "nat \<Rightarrow> string \<Rightarrow> json \<Rightarrow> bool" where
  "encodes k e v =
     (skip_ws e = e \<and> e \<noteq> [] \<and> 1 \<le> k \<and>
      (\<forall>f t. k \<le> f \<longrightarrow> is_stop t \<longrightarrow> jvalue f (e @ t) = Some (v, t)))"

lemma encodes_string: "encodes 1 (json_string s) (JStr (utf8_fix s))"
proof -
  have "jvalue f (json_string s @ t) = Some (JStr (utf8_fix s), t)" if f: "1 \<le> f" for f t
  proof -
    obtain g where "f = Suc g"
      using f by (cases f) auto
    then show ?thesis
      by (simp add: json_string_def scan_json_string unquote_json_esc)
  qed
  then show ?thesis
    by (simp add: encodes_def json_string_def skip_ws_def is_ws_def)
qed

lemma hd_json_string [simp]: "hd (json_string s) = CHR 0x22"
  by (simp add: json_string_def)

lemma takeWhile_digits:
  "list_all is_digit ds \<Longrightarrow> is_stop t \<Longrightarrow> takeWhile is_digit (ds @ t) = ds \<and> dropWhile is_digit (ds @ t) = t"
  by (induction ds) (auto simp: is_stop_def is_digit_def split: list.splits)

lemma show_nat_hd: "n \<noteq> 0 \<Longrightarrow> hd (show_nat n) \<noteq> CHR ''0''"
proof (induction n rule: show_nat.induct)
  case (1 n)
  show ?case
  proof (cases "n < 10")
    case True
    with 1 show ?thesis
      by (auto simp: show_nat.simps [of n] digit_char_def char_eq_code)
  next
    case False
    then have "hd (show_nat n) = hd (show_nat (n div 10))"
      by (simp add: show_nat.simps [of n])
    moreover have "n div 10 \<noteq> 0"
      using False by (simp add: div_eq_0_iff)
    ultimately show ?thesis using 1 False by simp
  qed
qed

lemma show_nat_digits_all: "list_all is_digit (show_nat n)"
  by (simp add: list_all_iff show_nat_digits)

lemma show_nat_0 [simp]: "show_nat 0 = ''0''"
  by (simp add: show_nat.simps digit_char_def char_eq_code)

lemma stop_no_digits:
  "is_stop t \<Longrightarrow> scan_frac t = Some ([], t) \<and> scan_exp t = Some ([], t)"
  by (auto simp: is_stop_def scan_frac_def scan_exp_def split: list.splits)

lemma scan_int_show_nat:
  assumes "is_stop t"
  shows "scan_int (show_nat n @ t) = Some (show_nat n, t)"
proof (cases "n = 0")
  case True
  then show ?thesis by (simp add: scan_int_def)
next
  case False
  obtain c cs where c: "show_nat n = c # cs"
    using show_nat_nonempty [of n] by (cases "show_nat n") auto
  have "c \<noteq> CHR ''0''"
    using show_nat_hd [OF False] by (simp add: c)
  then show ?thesis
    using takeWhile_digits [OF show_nat_digits_all [of n] assms]
    by (simp add: scan_int_def scan_digits_def c)
qed

lemma show_nat_no_sign: "take 1 (show_nat n @ t) \<noteq> ''-''"
proof -
  obtain c cs where c: "show_nat n = c # cs"
    using show_nat_nonempty [of n] by (cases "show_nat n") auto
  then have "is_digit c"
    using show_nat_digits [of c n] by simp
  then show ?thesis
    by (auto simp: c is_digit_def)
qed

lemma scan_number_show_int:
  assumes "is_stop t"
  shows "scan_number (show_int i @ t) = Some (show_int i, t)"
proof -
  have "takeWhile (\<lambda>c. c = CHR ''-'') (take 1 (show_nat n @ t)) = []" for n
    using show_nat_no_sign [of n t] by (cases "show_nat n @ t") auto
  then show ?thesis
    using scan_int_show_nat [OF assms] stop_no_digits [OF assms]
    by (simp add: scan_number_def show_int_def Let_def)
qed

lemma minus_not_ws: "\<not> is_ws (CHR ''-'')"
  by (simp add: is_ws_def)

lemma digit_char_neq:
  "is_digit c \<Longrightarrow> c \<noteq> CHR ''{'' \<and> c \<noteq> CHR ''['' \<and> c \<noteq> CHR 0x22 \<and> c \<noteq> CHR ''t'' \<and>
     c \<noteq> CHR ''f'' \<and> c \<noteq> CHR ''n'' \<and> \<not> is_ws c"
  by (auto simp: is_digit_def is_ws_def)

lemma show_int_cons: "\<exists>c cs. show_int i = c # cs \<and> (c = CHR ''-'' \<or> is_digit c)"
proof (cases "i < 0")
  case True
  then show ?thesis by (simp add: show_int_def)
next
  case False
  obtain c cs where c: "show_nat (nat i) = c # cs"
    using show_nat_nonempty [of "nat i"] by (cases "show_nat (nat i)") auto
  then have "is_digit c"
    using show_nat_digits [of c "nat i"] by simp
  with c False show ?thesis by (simp add: show_int_def)
qed

lemma encodes_int: "encodes 1 (show_int i) (JNum (show_int i))"
proof -
  obtain c cs where c: "show_int i = c # cs" "c = CHR ''-'' \<or> is_digit c"
    using show_int_cons by blast
  then have n: "c \<noteq> CHR ''{'' \<and> c \<noteq> CHR ''['' \<and> c \<noteq> CHR 0x22 \<and> c \<noteq> CHR ''t'' \<and>
     c \<noteq> CHR ''f'' \<and> c \<noteq> CHR ''n'' \<and> \<not> is_ws c"
    by (elim disjE) (simp_all add: minus_not_ws digit_char_neq)
  have "jvalue f (show_int i @ t) = Some (JNum (show_int i), t)" if f: "1 \<le> f" and t: "is_stop t" for f t
  proof -
    obtain g where "f = Suc g"
      using f by (cases f) auto
    moreover have "scan_number (c # cs @ t) = Some (c # cs, t)"
      using scan_number_show_int [OF t, of i] by (simp add: c)
    ultimately show ?thesis
      using n by (simp add: c)
  qed
  then show ?thesis
    using n by (simp add: encodes_def c skip_ws_def)
qed

lemma skip_ws_append:
  assumes "skip_ws e = e" and "e \<noteq> []"
  shows "skip_ws (e @ t) = e @ t"
proof (cases e)
  case Nil
  with assms show ?thesis by simp
next
  case (Cons c cs)
  have "\<not> is_ws c"
  proof
    assume "is_ws c"
    then have "dropWhile is_ws cs = c # cs"
      using assms(1) Cons by (simp add: skip_ws_def)
    then show False
      using length_dropWhile_le [of is_ws cs] by simp
  qed
  with Cons show ?thesis by (simp add: skip_ws_def)
qed

lemma encodes_parse:
  "encodes k e v \<Longrightarrow> k \<le> f \<Longrightarrow> is_stop t \<Longrightarrow> jvalue f (e @ t) = Some (v, t)"
  by (simp add: encodes_def)

lemma encodes_skip: "encodes k e v \<Longrightarrow> skip_ws (e @ t) = e @ t"
  by (auto simp: encodes_def intro!: skip_ws_append)

text \<open>An object written member by member reads back as its members.\<close>

lemma jmembers_step:
  assumes "encodes n e v" and "n \<le> g"
  shows "jmembers (Suc g) (json_pair (k, e) @ CHR '','' # t) =
           map_option (\<lambda>(ms, r). ((utf8_fix k, v) # ms, r)) (jmembers g (skip_ws t))"
    and "jmembers (Suc g) (json_pair (k, e) @ CHR ''}'' # t) = Some ([(utf8_fix k, v)], t)"
  using encodes_parse [OF assms, of "CHR '','' # t"] encodes_parse [OF assms, of "CHR ''}'' # t"]
    encodes_skip [OF assms(1)]
  by (simp_all add: json_pair_def json_string_def scan_json_string unquote_json_esc
      skip_ws_def [of "_ # _"] is_ws_def is_stop_def)

lemma jmembers_pairs:
  assumes "\<forall>(k, e, v) \<in> set kvs. encodes n e v" and "kvs \<noteq> []" and "n + length kvs \<le> f"
  shows "jmembers f (json_pairs (map (\<lambda>(k, e, v). (k, e)) kvs) @ CHR ''}'' # t) =
           Some (map (\<lambda>(k, e, v). (utf8_fix k, v)) kvs, t)"
  using assms
proof (induction kvs arbitrary: f)
  case Nil
  then show ?case by simp
next
  case (Cons kv kvs)
  obtain k e v where kv: "kv = (k, e, v)" by (cases kv)
  obtain g where g: "f = Suc g" "n + length kvs \<le> g"
    using Cons.prems(3) by (cases f) auto
  have e: "encodes n e v" "n \<le> g"
    using Cons.prems(1) kv g by simp_all
  show ?case
  proof (cases kvs)
    case Nil
    then show ?thesis
      using jmembers_step(2) [OF e] by (simp add: kv g)
  next
    case (Cons kw kws)
    let ?rest = "json_pairs (map (\<lambda>(k, e, v). (k, e)) kvs) @ CHR ''}'' # t"
    have "skip_ws ?rest = ?rest"
      using Cons by (cases kws; cases kw)
        (simp_all add: json_pair_def json_string_def skip_ws_def is_ws_def)
    moreover have "jmembers g ?rest = Some (map (\<lambda>(k, e, v). (utf8_fix k, v)) kvs, t)"
      using Cons.IH [OF _ _ g(2)] Cons.prems(1) Cons by simp
    ultimately show ?thesis
      using jmembers_step(1) [OF e, of k ?rest] Cons by (simp add: kv g)
  qed
qed

lemma json_pairs_hd:
  "kvs \<noteq> [] \<Longrightarrow> \<exists>t. json_pairs kvs = CHR 0x22 # t"
  by (cases kvs rule: json_pairs.cases) (auto simp: json_pair_def json_string_def)

lemma length_json_pairs: "length kvs \<le> length (json_pairs kvs)"
  by (induction kvs rule: json_pairs.induct) (auto simp: json_pair_def json_string_def)

lemma fold_max_le: "(\<forall>x \<in> set xs. f x \<le> (n :: nat)) \<Longrightarrow> m \<le> n \<Longrightarrow> fold max (map f xs) m \<le> n"
  by (induction xs arbitrary: m) auto

lemma json_object_hd: "skip_ws (json_object kvs @ t) = json_object kvs @ t"
  by (simp add: json_object_def skip_ws_def is_ws_def)

lemma encodes_object:
  assumes "\<forall>(k, e, v) \<in> set kvs. encodes n e v" and "kvs \<noteq> []"
  shows "encodes (Suc (n + length kvs)) (json_object (map (\<lambda>(k, e, v). (k, e)) kvs))
           (JObj (map (\<lambda>(k, e, v). (utf8_fix k, v)) kvs))"
proof -
  let ?p = "json_pairs (map (\<lambda>(k, e, v). (k, e)) kvs)"
  let ?ms = "map (\<lambda>(k, e, v). (utf8_fix k, v)) kvs"
  obtain u where u: "?p = CHR 0x22 # u"
    using json_pairs_hd [of "map (\<lambda>(k, e, v). (k, e)) kvs"] assms(2) by auto
  have "jvalue f (json_object (map (\<lambda>(k, e, v). (k, e)) kvs) @ t) = Some (JObj ?ms, t)"
    if f: "Suc (n + length kvs) \<le> f" for f t
  proof -
    obtain g where g: "f = Suc g" "n + length kvs \<le> g"
      using f by (cases f) auto
    have "jmembers g (?p @ CHR ''}'' # t) = Some (?ms, t)"
      by (rule jmembers_pairs [OF assms g(2)])
    then show ?thesis
      by (simp add: g u json_object_def skip_ws_def is_ws_def del: jmembers.simps)
  qed
  then show ?thesis
    using json_object_hd [of _ "[]"] by (simp add: encodes_def json_object_def)
qed

lemma jelems_elems:
  assumes "\<forall>(e, v) \<in> set evs. encodes n e v" and "evs \<noteq> []" and "n + length evs \<le> f"
  shows "jelems f (json_elems (map fst evs) @ CHR '']'' # t) = Some (map snd evs, t)"
  using assms
proof (induction evs arbitrary: f)
  case Nil
  then show ?case by simp
next
  case (Cons ev evs)
  obtain e v where ev: "ev = (e, v)" by (cases ev)
  obtain g where g: "f = Suc g" "n + length evs \<le> g"
    using Cons.prems(3) by (cases f) auto
  have e: "encodes n e v" "n \<le> g"
    using Cons.prems(1) ev g by simp_all
  show ?case
  proof (cases evs)
    case Nil
    then show ?thesis
      using encodes_parse [OF e, of "CHR '']'' # t"]
      by (simp add: ev g skip_ws_def is_ws_def is_stop_def)
  next
    case (Cons ew ews)
    let ?rest = "json_elems (map fst evs) @ CHR '']'' # t"
    have "\<exists>x. ?rest = fst ew @ x"
      using Cons by (cases ews) auto
    moreover have "encodes n (fst ew) (snd ew)"
      using Cons.prems(1) Cons by (cases ew) auto
    ultimately have "skip_ws ?rest = ?rest"
      using encodes_skip by metis
    moreover have "jelems g ?rest = Some (map snd evs, t)"
      using Cons.IH [OF _ _ g(2)] Cons.prems(1) Cons by simp
    ultimately show ?thesis
      using encodes_parse [OF e, of "CHR '','' # ?rest"] Cons
      by (simp add: ev g skip_ws_def [of "CHR '','' # _"] is_ws_def is_stop_def)
  qed
qed

lemma encodes_array:
  assumes "\<forall>(e, v) \<in> set evs. encodes n e v" and "evs \<noteq> []"
    and "\<forall>(e, v) \<in> set evs. hd e \<noteq> CHR '']''"
  shows "encodes (Suc (n + length evs)) (json_array (map fst evs)) (JArr (map snd evs))"
proof -
  obtain e v es where ev: "evs = (e, v) # es"
    using assms(2) by (cases evs) auto
  have e: "encodes n e v" "hd e \<noteq> CHR '']''"
    using assms(1,3) by (auto simp: ev)
  then obtain c cs where c: "e = c # cs" "c \<noteq> CHR '']''"
    by (cases e) (auto simp: encodes_def)
  have "\<exists>x. json_elems (map fst evs) @ CHR '']'' # t = e @ x" for t
    using ev by (cases es) auto
  then have sk: "skip_ws (json_elems (map fst evs) @ CHR '']'' # t) = json_elems (map fst evs) @ CHR '']'' # t"
    and hdc: "\<exists>x. json_elems (map fst evs) @ CHR '']'' # t = c # x" for t
    using encodes_skip [OF e(1)] c by (metis, metis append_Cons)
  have "jvalue f (json_array (map fst evs) @ t) = Some (JArr (map snd evs), t)"
    if f: "Suc (n + length evs) \<le> f" for f t
  proof -
    obtain g where g: "f = Suc g" "n + length evs \<le> g"
      using f by (cases f) auto
    have j: "jelems g (json_elems (map fst evs) @ CHR '']'' # t) = Some (map snd evs, t)"
      by (rule jelems_elems [OF assms(1,2) g(2)])
    obtain x where x: "json_elems (map fst evs) @ CHR '']'' # t = c # x"
      using hdc by blast
    show ?thesis
      using j sk [of t] c(2) by (simp add: g json_array_def x del: jelems.simps)
  qed
  then show ?thesis
    by (simp add: encodes_def json_array_def skip_ws_def is_ws_def)
qed

lemma encodes_json_parse:
  assumes "encodes n e v" and "n \<le> 2 * length e + 2" and "json_depth v \<le> max_nesting_depth"
  shows "json_parse e = Some v"
  using encodes_parse [OF assms(1,2), of "[]"] encodes_skip [OF assms(1), of "[]"] assms(3)
  by (simp add: json_parse_def is_stop_def skip_ws_def [of "[]"])

lemma json_parse_object:
  assumes "\<forall>(k, e, v) \<in> set kvs. encodes 1 e v \<and> json_depth v = 0" and "kvs \<noteq> []"
  shows "json_parse (json_object (map (\<lambda>(k, e, v). (k, e)) kvs)) =
           Some (JObj (map (\<lambda>(k, e, v). (utf8_fix k, v)) kvs))"
proof (rule encodes_json_parse)
  show "encodes (Suc (1 + length kvs)) (json_object (map (\<lambda>(k, e, v). (k, e)) kvs))
          (JObj (map (\<lambda>(k, e, v). (utf8_fix k, v)) kvs))"
    using assms by (intro encodes_object) auto
  show "Suc (1 + length kvs) \<le> 2 * length (json_object (map (\<lambda>(k, e, v). (k, e)) kvs)) + 2"
    using length_json_pairs [of "map (\<lambda>(k, e, v). (k, e)) kvs"] by (simp add: json_object_def)
  have "fold max (map (\<lambda>m. json_depth (snd m)) (map (\<lambda>(k, e, v). (utf8_fix k, v)) kvs)) 0 \<le> 0"
    using assms(1) by (intro fold_max_le) auto
  then show "json_depth (JObj (map (\<lambda>(k, e, v). (utf8_fix k, v)) kvs)) \<le> max_nesting_depth"
    by (simp add: max_nesting_depth_def)
qed

section \<open>The fuel of the parser\<close>

text \<open>
  Every parser function consumes at least one character; two levels of recursion consume at
  least one more, so fuel \<open>2 * length s + 2\<close> never runs out: more fuel gives the same answer.
\<close>

lemma scan_string_shorter: "scan_string s = Some (raw, r) \<Longrightarrow> length r < length s"
proof (induction s arbitrary: raw r rule: scan_string.induct)
  case (2 c cs)
  show ?case
  proof (cases "c = CHR 0x5C")
    case True
    then obtain k raw' where k: "esc_len cs = Some k" "scan_string (drop k cs) = Some (raw', r)"
      using 2(3) by (auto split: option.splits)
    have "length r < length (drop k cs)"
      using 2(1) [OF _ True k] True by simp
    then show ?thesis by simp
  next
    case False
    with 2(2,3) show ?thesis
      by (fastforce split: if_splits)
  qed
qed simp

lemma skip_ws_length: "length (skip_ws s) \<le> length s"
  by (simp add: skip_ws_def length_dropWhile_le)

lemma skip_ws_cons: "skip_ws s = d # r \<Longrightarrow> length r < length s"
  using skip_ws_length [of s] by simp

lemma scan_digits_shorter: "scan_digits s = Some (ds, r) \<Longrightarrow> length r < length s"
proof -
  assume "scan_digits s = Some (ds, r)"
  then have "takeWhile is_digit s \<noteq> []" and r: "r = dropWhile is_digit s"
    by (auto simp: scan_digits_def split: list.splits)
  moreover have "length s = length (takeWhile is_digit s) + length (dropWhile is_digit s)"
    by (metis length_append takeWhile_dropWhile_id)
  ultimately show ?thesis by simp
qed

lemma scan_number_shorter: "scan_number s = Some (lit, r) \<Longrightarrow> length r < length s"
proof -
  have i: "length r < length s" if "scan_int s = Some (x, r)" for x r s
    using that by (auto simp: scan_int_def split: list.splits if_splits dest: scan_digits_shorter)
  have f: "length r \<le> length s" if "scan_frac s = Some (x, r)" for x r s
    using that by (auto simp: scan_frac_def split: list.splits if_splits dest!: scan_digits_shorter)
  have e: "length r \<le> length s" if "scan_exp s = Some (x, r)" for x r s
    using that by (auto simp: scan_exp_def split: list.splits if_splits dest!: scan_digits_shorter)
  assume "scan_number s = Some (lit, r)"
  then obtain x y z r1 r2 where
    "scan_int (drop (length (takeWhile (\<lambda>c. c = CHR ''-'') (take 1 s))) s) = Some (x, r1)"
    "scan_frac r1 = Some (y, r2)" "scan_exp r2 = Some (z, r)"
    by (auto simp: scan_number_def Let_def split: option.splits)
  from i [OF this(1)] f [OF this(2)] e [OF this(3)] show ?thesis
    by simp
qed

lemma scan_literal_shorter:
  "scan_literal w v s = Some (v', r) \<Longrightarrow> w \<noteq> [] \<Longrightarrow> length r < length s"
  by (auto simp: scan_literal_def has_prefix_iff split: if_splits)

lemma parser_shorter_all:
  "(\<forall>s v r. jvalue f s = Some (v, r) \<longrightarrow> length r < length s) \<and>
   (\<forall>s vs r. jelems f s = Some (vs, r) \<longrightarrow> length r < length s) \<and>
   (\<forall>s ms r. jmembers f s = Some (ms, r) \<longrightarrow> length r < length s)"
proof (induction f)
  case 0
  show ?case by simp
next
  case (Suc f)
  then have v: "jvalue f s = Some (v, r) \<Longrightarrow> length r < length s"
    and e: "jelems f s = Some (vs, r) \<Longrightarrow> length r < length s"
    and m: "jmembers f s = Some (ms, r) \<Longrightarrow> length r < length s" for s v vs ms r
    by blast+
  have "length r < length s" if p: "jvalue (Suc f) s = Some (v, r)" for s v r
  proof (cases s)
    case (Cons c cs)
    with p show ?thesis
      by (auto simp: less_Suc_eq_le split: list.splits if_splits
          dest!: skip_ws_cons scan_string_shorter e m scan_literal_shorter scan_number_shorter)
  qed (use p in simp)
  moreover have "length r < length s" if p: "jelems (Suc f) s = Some (vs, r)" for s vs r
  proof -
    obtain x y d z where x: "jvalue f s = Some (x, y)" "skip_ws y = d # z"
      using p by (auto split: option.splits list.splits)
    then have "length z < length s"
      using v skip_ws_cons by fastforce
    then show ?thesis
      using p x skip_ws_length [of z] by (auto split: if_splits dest!: e)
  qed
  moreover have "length r < length s" if p: "jmembers (Suc f) s = Some (ms, r)" for s ms r
  proof -
    obtain cs raw t d r1 x r2 e r3 where
      x: "s = CHR 0x22 # cs" "scan_string cs = Some (raw, t)" "skip_ws t = d # r1" "d = CHR '':''"
        "jvalue f (skip_ws r1) = Some (x, r2)" "skip_ws r2 = e # r3"
      using p by (auto split: option.splits list.splits if_splits)
    have "length r3 < length s"
      using x(1) scan_string_shorter [OF x(2)] skip_ws_cons [OF x(3)] v [OF x(5)]
        skip_ws_cons [OF x(6)] skip_ws_length [of r1] by simp
    then show ?thesis
      using p x skip_ws_length [of r3] by (auto split: if_splits dest!: m)
  qed
  ultimately show ?case by blast
qed

lemmas jvalue_shorter = parser_shorter_all [THEN conjunct1, rule_format]
  and jelems_shorter = parser_shorter_all [THEN conjunct2, THEN conjunct1, rule_format]
  and jmembers_shorter = parser_shorter_all [THEN conjunct2, THEN conjunct2, rule_format]

lemma parser_enough_all:
  "(\<forall>s. 2 * length s + 1 \<le> f \<longrightarrow> jvalue (Suc f) s = jvalue f s) \<and>
   (\<forall>s. 2 * length s + 2 \<le> f \<longrightarrow> jelems (Suc f) s = jelems f s) \<and>
   (\<forall>s. 2 * length s + 2 \<le> f \<longrightarrow> jmembers (Suc f) s = jmembers f s)"
proof (induction f)
  case 0
  show ?case by simp
next
  case (Suc f)
  then have v: "2 * length s + 1 \<le> f \<Longrightarrow> jvalue (Suc f) s = jvalue f s"
    and e: "2 * length s + 2 \<le> f \<Longrightarrow> jelems (Suc f) s = jelems f s"
    and m: "2 * length s + 2 \<le> f \<Longrightarrow> jmembers (Suc f) s = jmembers f s" for s
    by blast+
  have "jvalue (Suc (Suc f)) s = jvalue (Suc f) s" if len: "2 * length s + 1 \<le> Suc f" for s
  proof (cases s)
    case (Cons c cs)
    have "jelems (Suc f) (d # r) = jelems f (d # r) \<and> jmembers (Suc f) (d # r) = jmembers f (d # r)"
      if "skip_ws cs = d # r" for d r
      using skip_ws_cons [OF that] len Cons e [of "d # r"] m [of "d # r"] by simp
    then show ?thesis
      by (simp add: Cons del: jelems.simps jmembers.simps split: list.split)
  qed simp
  moreover have "jelems (Suc (Suc f)) s = jelems (Suc f) s" if len: "2 * length s + 2 \<le> Suc f" for s
  proof -
    have x: "jvalue (Suc f) s = jvalue f s"
      using len by (intro v) simp
    have "jelems (Suc f) (skip_ws r') = jelems f (skip_ws r')"
      if "jvalue f s = Some (w, r)" "skip_ws r = d # r'" for w r d r'
      using jvalue_shorter [OF that(1)] skip_ws_cons [OF that(2)] skip_ws_length [of r'] len
      by (intro e) simp
    then show ?thesis
      by (simp add: x del: jvalue.simps split: option.split list.split)
  qed
  moreover have "jmembers (Suc (Suc f)) s = jmembers (Suc f) s" if len: "2 * length s + 2 \<le> Suc f" for s
  proof (cases s)
    case (Cons q cs)
    have x: "jvalue (Suc f) (skip_ws r1) = jvalue f (skip_ws r1) \<and>
        (jvalue f (skip_ws r1) = Some (w, r2) \<longrightarrow> skip_ws r2 = e # r3 \<longrightarrow>
          jmembers (Suc f) (skip_ws r3) = jmembers f (skip_ws r3))"
      if "scan_string cs = Some (raw, r)" "skip_ws r = d # r1" for raw r d r1 w r2 e r3
    proof -
      have l: "length r1 < length cs"
        using scan_string_shorter [OF that(1)] skip_ws_cons [OF that(2)] by simp
      then have "jvalue (Suc f) (skip_ws r1) = jvalue f (skip_ws r1)"
        using skip_ws_length [of r1] len Cons by (intro v) simp
      moreover have "jmembers (Suc f) (skip_ws r3) = jmembers f (skip_ws r3)"
        if "jvalue f (skip_ws r1) = Some (w, r2)" "skip_ws r2 = e # r3"
        using jvalue_shorter [OF that(1)] skip_ws_cons [OF that(2)] skip_ws_length [of r1]
          skip_ws_length [of r3] l len Cons by (intro m) simp
      ultimately show ?thesis by blast
    qed
    show ?thesis
      by (auto simp: Cons jmembers.simps(2) [of "Suc f" "q # cs"] jmembers.simps(2) [of f "q # cs"] x
          simp del: jvalue.simps jmembers.simps split: option.split list.split)
  qed simp
  ultimately show ?case by blast
qed

text \<open>So the fuel of \<open>json_parse\<close> is enough: any larger amount gives the same result.\<close>

lemma jvalue_fuel: "2 * length s + 2 \<le> f \<Longrightarrow> jvalue f s = jvalue (2 * length s + 2) s"
proof (induction f)
  case (Suc f)
  show ?case
  proof (cases "2 * length s + 2 \<le> f")
    case True
    then have "jvalue (Suc f) s = jvalue f s"
      using parser_enough_all [of f] by simp
    with Suc.IH [OF True] show ?thesis by simp
  next
    case False
    with Suc.prems have "Suc f = 2 * length s + 2" by simp
    then show ?thesis by simp
  qed
qed simp

lemma json_parse_fuel:
  "2 * length s + 2 \<le> f \<Longrightarrow>
   json_parse s = (case jvalue f (skip_ws s) of
        None \<Rightarrow> None
      | Some (v, r) \<Rightarrow>
          (if skip_ws r = [] \<and> json_depth v \<le> max_nesting_depth then Some v else None))"
  using jvalue_fuel [of "skip_ws s" f] jvalue_fuel [of "skip_ws s" "2 * length s + 2"]
    skip_ws_length [of s]
  by (simp add: json_parse_def)

section \<open>Quoting with \<open>%q\<close>\<close>

definition printable_ascii :: "char \<Rightarrow> bool" where
  "printable_ascii c = (32 \<le> code c \<and> code c < 127)"

lemma quote_printable:
  assumes "printable_ascii c"
  shows "is_ascii c" and "quote_ascii c = (if c = CHR 0x22 \<or> c = CHR 0x5C then [CHR 0x5C, c] else [c])"
  using assms by (auto simp: printable_ascii_def is_ascii_def quote_ascii_def)

lemma scan_quote_printable:
  "list_all printable_ascii s \<Longrightarrow>
   scan_string (quote_body pr s @ CHR 0x22 # t) = Some (quote_body pr s, t)"
proof (induction s)
  case (Cons c s)
  then have "printable_ascii c" by simp
  with Cons show ?case
    using quote_printable [of c] by (auto simp: esc_len_def printable_ascii_def)
qed simp

lemma unquote_quote_printable:
  "list_all printable_ascii s \<Longrightarrow> unquote (quote_body pr s) = s"
proof (induction s)
  case (Cons c s)
  then have "printable_ascii c" by simp
  with Cons show ?case
    using quote_printable [of c] utf8_decode_ascii [of c] by (auto simp: unescape_char_def)
qed simp

lemma encodes_quote:
  assumes "list_all printable_ascii s"
  shows "encodes 1 (go_quote pr s) (JStr s)"
proof -
  have "jvalue f (go_quote pr s @ t) = Some (JStr s, t)" if f: "1 \<le> f" for f t
  proof -
    obtain g where "f = Suc g"
      using f by (cases f) auto
    then show ?thesis
      by (simp add: go_quote_def scan_quote_printable [OF assms] unquote_quote_printable [OF assms])
  qed
  then show ?thesis
    by (simp add: encodes_def go_quote_def skip_ws_def is_ws_def)
qed

text \<open>
  Which strings \<open>%q\<close> writes with escapes that JSON has: no control characters but those with a
  letter of their own in JSON, no DEL, no invalid UTF-8, no unprintable rune beyond the basic plane.
\<close>

fun json_quotable :: "(nat \<Rightarrow> bool) \<Rightarrow> string \<Rightarrow> bool" where
  "json_quotable pr [] = True"
| "json_quotable pr (c # cs) =
     (if is_ascii c
      then (32 \<le> code c \<and> code c < 127 \<or> code c \<in> {8, 9, 10, 12, 13}) \<and> json_quotable pr cs
      else
        (case utf8_decode (c # cs) of
           None \<Rightarrow> False
         | Some (r, n) \<Rightarrow> (pr r \<or> r < 65536) \<and> json_quotable pr (drop (n - 1) cs)))"

lemma scan_quote_ascii:
  assumes "is_ascii c"
  shows "scan_string (quote_ascii c @ t) =
    (if 32 \<le> code c \<and> code c < 127 \<or> code c \<in> {8, 9, 10, 12, 13}
     then map_option (\<lambda>(raw, rest). (quote_ascii c @ raw, rest)) (scan_string t) else None)"
  using assms by (auto simp: quote_ascii_def esc_len_def char_eq_code is_ascii_def)

lemma scan_quote:
  "scan_string (quote_body pr s @ t) =
     (if json_quotable pr s then map_option (\<lambda>(raw, rest). (quote_body pr s @ raw, rest)) (scan_string t)
      else None)"
proof (induction pr s rule: quote_body.induct)
  case (1 pr)
  show ?case by (cases "scan_string t") auto
next
  case (2 pr c cs)
  show ?case
  proof (cases "is_ascii c")
    case True
    with 2 show ?thesis
      by (simp add: scan_quote_ascii map_option_pair_append del: scan_string.simps)
  next
    case na: False
    show ?thesis
    proof (cases "utf8_decode (c # cs)")
      case None
      with na show ?thesis by (simp add: esc_len_def)
    next
      case (Some rn)
      obtain r n where rn: "rn = (r, n)" by (cases rn)
      have "\<not> is_ascii x" if "x \<in> set (c # take (n - 1) cs)" for x
        using that na utf8_decode_bytes [of c cs r n x] Some rn by auto
      then have high: "scan_string ((c # take (n - 1) cs) @ u) =
          map_option (\<lambda>(raw, rest). ((c # take (n - 1) cs) @ raw, rest)) (scan_string u)" for u
        by (rule scan_string_high)
      have cases: "pr r \<or> \<not> pr r \<and> r < 65536 \<or> \<not> pr r \<and> \<not> r < 65536" by blast
      note IH = 2(3) [OF na Some rn [symmetric]]
      from cases show ?thesis
      proof (elim disjE conjE)
        assume "pr r"
        then show ?thesis
          using IH na Some rn high map_option_pair_append [of "c # take (n - 1) cs"]
          by (auto simp del: scan_string.simps One_nat_def)
      next
        assume "\<not> pr r" "r < 65536"
        then show ?thesis
          using IH na Some rn
          by (simp add: scan_u_escape map_option_pair_append del: scan_string.simps One_nat_def)
      next
        assume "\<not> pr r" "\<not> r < 65536"
        then show ?thesis
          using na Some rn by (simp add: esc_len_def)
      qed
    qed
  qed
qed

section \<open>Plain strings\<close>

text \<open>Strings that the encoder copies byte for byte.\<close>

definition plain_char :: "char \<Rightarrow> bool" where
  "plain_char c \<longleftrightarrow> 32 \<le> code c \<and> code c < 127 \<and> code c \<notin> {34, 38, 60, 62, 92}"

lemma esc_char_plain: "plain_char c \<Longrightarrow> esc_char c = [c]"
  by (simp add: esc_char_def plain_char_def char_eq_code)

lemma json_string_plain: "list_all plain_char s \<Longrightarrow> json_string s = CHR 0x22 # s @ [CHR 0x22]"
proof -
  assume "list_all plain_char s"
  then have "json_esc s = s"
    by (induction s) (auto simp: esc_char_plain, auto simp: plain_char_def is_ascii_def)
  then show ?thesis by (simp add: json_string_def)
qed

lemmas encodes_simps = encodes_string [simplified] encodes_int [simplified]

lemma encodes_valid: "valid_utf8 s \<Longrightarrow> encodes (Suc 0) (json_string s) (JStr s)"
  using encodes_string [of s] by (simp add: valid_utf8_def)

lemma encodes_ascii: "list_all is_ascii s \<Longrightarrow> encodes (Suc 0) (json_string s) (JStr s)"
  by (simp add: encodes_valid valid_utf8_ascii)

end
