(* ===== verification/Http.thy ===== *)
theory Http
  imports Json_Facts
begin

text \<open>
  What the program uses of \<open>io\<close> and \<open>net/http\<close>: byte streams that end cleanly or with a read
  error, requests and their canonical headers, the response writer with its first-call-wins
  status, \<open>http.Error\<close>, outgoing requests and the answers of peers, handlers and middleware.

  The locale \<open>guard\<close> is the contract of a middleware: a request it lets through reaches the
  next handler, any other gets an answer that does not depend on that handler.  The locale
  \<open>guard_pair\<close> stacks two guards.  The interpretations are in the theories of the middlewares.
\<close>

named_theorems http_simps \<open>reading back what a response writer was given\<close>

section \<open>Streams\<close>

record stream =
  st_data :: bytes
  st_end :: lib_error

text \<open>\<open>io.ReadAll(r)\<close> and \<open>io.ReadAll(io.LimitReader(r, n))\<close>.\<close>

definition read_all :: "stream \<Rightarrow> bytes result" where
  "read_all st = (if st_end st = EOF then Inr (st_data st) else Inl (Lib (st_end st)))"

definition read_limited :: "nat \<Rightarrow> stream \<Rightarrow> bytes result" where
  "read_limited n st = (if n \<le> length (st_data st) then Inr (take n (st_data st)) else read_all st)"

text \<open>
  \<open>io.ReadFull\<close>: exactly \<open>n\<close> bytes, or \<open>io.EOF\<close> when the stream is already at its end, or
  \<open>io.ErrUnexpectedEOF\<close> when it ends inside.
\<close>

definition read_full :: "nat \<Rightarrow> stream \<Rightarrow> (bytes \<times> stream) result" where
  "read_full n st =
     (if n \<le> length (st_data st)
      then Inr (take n (st_data st), st\<lparr>st_data := drop n (st_data st)\<rparr>)
      else if st_end st = EOF \<and> st_data st \<noteq> [] then Inl (Lib UnexpectedEOF)
      else Inl (Lib (st_end st)))"

text \<open>\<open>binary.Read(r, binary.BigEndian, &x)\<close> with \<open>x\<close> of type \<open>uint32\<close>.\<close>

definition read_u32 :: "stream \<Rightarrow> (32 word \<times> stream) result" where
  "read_u32 st =
     (case read_full 4 st of
        Inl e \<Rightarrow> Inl e
      | Inr (bs, st') \<Rightarrow> Inr (get_u32 bs, st'))"

lemma read_full_append [simp]:
  "read_full (length p) \<lparr>st_data = p @ t, st_end = e\<rparr> = Inr (p, \<lparr>st_data = t, st_end = e\<rparr>)"
  by (simp add: read_full_def)

lemma read_u32_put [simp]:
  "read_u32 \<lparr>st_data = put_u32 w @ t, st_end = e\<rparr> = Inr (w, \<lparr>st_data = t, st_end = e\<rparr>)"
  using read_full_append [of "put_u32 w" t e] by (simp add: read_u32_def)

lemma read_full_Inr:
  "read_full n st = Inr (bs, st') \<longleftrightarrow>
     n \<le> length (st_data st) \<and> bs = take n (st_data st) \<and> st' = st\<lparr>st_data := drop n (st_data st)\<rparr>"
  by (auto simp: read_full_def)

lemma read_limited_length: "read_limited n st = Inr bs \<Longrightarrow> length bs \<le> n"
  by (auto simp: read_limited_def read_all_def split: if_splits)

section \<open>Headers\<close>

definition to_lower :: "char \<Rightarrow> char" where
  "to_lower c = (if 65 \<le> code c \<and> code c \<le> 90 then char_of (code c + 32) else c)"

text \<open>\<open>textproto.CanonicalMIMEHeaderKey\<close> on a valid field name.\<close>

fun canonical_from :: "bool \<Rightarrow> string \<Rightarrow> string" where
  "canonical_from up [] = []"
| "canonical_from up (c # cs) =
     (if up then to_upper c else to_lower c) # canonical_from (c = CHR ''-'') cs"

definition canonical_key :: "string \<Rightarrow> string" where
  "canonical_key k = canonical_from True k"

text \<open>The server stores each field under its canonical key; the first value is what Get returns.\<close>

type_synonym header = "(string \<times> string) list"

definition header_get :: "header \<Rightarrow> string \<Rightarrow> string" where
  "header_get h k = (case map_of h (canonical_key k) of None \<Rightarrow> [] | Some v \<Rightarrow> v)"

definition header_set :: "string \<Rightarrow> string \<Rightarrow> header \<Rightarrow> header" where
  "header_set k v h = (canonical_key k, v) # filter (\<lambda>f. fst f \<noteq> canonical_key k) h"

lemma header_get_set [http_simps]:
  "header_get (header_set k v h) k' =
     (if canonical_key k = canonical_key k' then v else header_get h k')"
proof -
  have "map_of (filter (\<lambda>f. fst f \<noteq> x) h) y = (if y = x then None else map_of h y)" for x y
    by (induction h) auto
  then show ?thesis
    by (auto simp: header_get_def header_set_def)
qed

section \<open>Requests and peers\<close>

text \<open>
  A request as the server hands it to the handlers.  \<open>rq_path\<close> is \<open>r.URL.Path\<close> (decoded) and
  \<open>rq_escaped\<close> is \<open>r.URL.EscapedPath()\<close>.
\<close>

record http_request =
  rq_method :: string
  rq_path :: string
  rq_escaped :: string
  rq_header :: header
  rq_body :: stream

definition rq_get :: "http_request \<Rightarrow> string \<Rightarrow> string" where
  "rq_get r k = header_get (rq_header r) k"

record out_request =
  or_method :: string
  or_url :: string
  or_header :: header
  or_body :: bytes

record peer_response =
  pr_status :: nat
  pr_body :: stream

text \<open>
  One call of an \<open>http.Client\<close>: it returns a response, or it fails (refused connection, bad URL, too
  many redirects).  The results of the calls are an argument of every definition that makes one.  The
  redirects a client follows within a call are the subject of theory \<open>Client\<close>.  A call that never
  returns has no result: where that matters (theories \<open>Concurrent\<close> and \<open>Lifecycle\<close>), the step that needs the
  result is one that is never taken.
\<close>

type_synonym net = "out_request \<Rightarrow> peer_response result"

section \<open>The response writer\<close>

text \<open>
  \<open>rw_aborted\<close>: the handler has panicked; \<open>net/http\<close> then closes the connection without a reply.
\<close>

record resp_writer =
  rw_header :: header
  rw_status :: "nat option"
  rw_body :: string
  rw_aborted :: bool

definition new_writer :: resp_writer where
  "new_writer = \<lparr>rw_header = [], rw_status = None, rw_body = [], rw_aborted = False\<rparr>"

definition w_set :: "string \<Rightarrow> string \<Rightarrow> resp_writer \<Rightarrow> resp_writer" where
  "w_set k v w = w\<lparr>rw_header := header_set k v (rw_header w)\<rparr>"

text \<open>Only the first \<open>WriteHeader\<close> counts; the first \<open>Write\<close> implies status 200.\<close>

definition write_header :: "nat \<Rightarrow> resp_writer \<Rightarrow> resp_writer" where
  "write_header n w = (case rw_status w of None \<Rightarrow> w\<lparr>rw_status := Some n\<rparr> | Some _ \<Rightarrow> w)"

definition w_write :: "string \<Rightarrow> resp_writer \<Rightarrow> resp_writer" where
  "w_write s w = (let w' = write_header 200 w in w'\<lparr>rw_body := rw_body w' @ s\<rparr>)"

text \<open>\<open>http.Error\<close>: it resets the content type, whatever was set before.\<close>

definition http_error :: "string \<Rightarrow> nat \<Rightarrow> resp_writer \<Rightarrow> resp_writer" where
  "http_error msg n w =
     w_write (msg @ [CHR 0x0A])
       (write_header n
         (w_set ''X-Content-Type-Options'' ''nosniff''
           (w_set ''Content-Type'' ''text/plain; charset=utf-8''
             (w\<lparr>rw_header := filter (\<lambda>f. fst f \<noteq> ''Content-Length'') (rw_header w)\<rparr>))))"

definition rw_get :: "resp_writer \<Rightarrow> string \<Rightarrow> string" where
  "rw_get w k = header_get (rw_header w) k"

lemma writer_simps [http_simps]:
  "rw_status (w_set k v w) = rw_status w"
  "rw_body (w_set k v w) = rw_body w"
  "rw_get (w_set k v w) k' = (if canonical_key k = canonical_key k' then v else rw_get w k')"
  "rw_status (write_header n w) = (case rw_status w of None \<Rightarrow> Some n | Some m \<Rightarrow> Some m)"
  "rw_body (write_header n w) = rw_body w"
  "rw_header (write_header n w) = rw_header w"
  "rw_get (write_header n w) k = rw_get w k"
  "rw_status (w_write s w) = (case rw_status w of None \<Rightarrow> Some 200 | Some m \<Rightarrow> Some m)"
  "rw_body (w_write s w) = rw_body w @ s"
  "rw_header (w_write s w) = rw_header w"
  "rw_get (w_write s w) k = rw_get w k"
  by (simp_all add: w_set_def rw_get_def header_get_set write_header_def w_write_def Let_def
      split: option.split)

lemma http_error_simps [http_simps]:
  "rw_status (http_error msg n w) = (case rw_status w of None \<Rightarrow> Some n | Some m \<Rightarrow> Some m)"
  "rw_body (http_error msg n w) = rw_body w @ msg @ [CHR 0x0A]"
  "rw_get (http_error msg n w) ''Content-Type'' = ''text/plain; charset=utf-8''"
  by (auto simp: http_error_def writer_simps canonical_key_def to_upper_def to_lower_def
      split: option.split)

section \<open>Handlers and middleware\<close>

text \<open>A handler takes the request, the writer and the server's state.\<close>

type_synonym 's handler = "http_request \<Rightarrow> resp_writer \<times> 's \<Rightarrow> resp_writer \<times> 's"

locale guard =
  fixes mw :: "'s handler \<Rightarrow> 's handler"
    and passes :: "http_request \<Rightarrow> resp_writer \<times> 's \<Rightarrow> bool"
    and enter :: "'s handler"
    and deny :: "'s handler"
  assumes pass: "passes r ws \<Longrightarrow> mw next r ws = next r (enter r ws)"
    and block: "\<not> passes r ws \<Longrightarrow> mw next r ws = deny r ws"
begin

lemma blocked_independent: "\<not> passes r ws \<Longrightarrow> mw h r ws = mw h' r ws"
  by (simp add: block)

lemma split_cases: "mw h r ws = (if passes r ws then h r (enter r ws) else deny r ws)"
  by (simp add: pass block)

lemma reached:
  assumes "mw h r ws \<noteq> deny r ws"
  shows "passes r ws"
  using assms block by blast

lemma same_on_pass: "(\<And>ws. h r ws = h' r ws) \<Longrightarrow> mw h r ws = mw h' r ws"
  by (simp add: split_cases)

end

locale guard_pair =
  outer: guard mw1 passes1 enter1 deny1 + inner: guard mw2 passes2 enter2 deny2
  for mw1 :: "'s handler \<Rightarrow> 's handler" and passes1 enter1 deny1
    and mw2 :: "'s handler \<Rightarrow> 's handler" and passes2 enter2 deny2
begin

lemma stack_pass:
  "passes1 r ws \<Longrightarrow> passes2 r (enter1 r ws) \<Longrightarrow>
   mw1 (mw2 h) r ws = h r (enter2 r (enter1 r ws))"
  by (simp add: outer.pass inner.pass)

lemma stack_deny_outer: "\<not> passes1 r ws \<Longrightarrow> mw1 (mw2 h) r ws = deny1 r ws"
  by (simp add: outer.block)

lemma stack_deny_inner:
  "passes1 r ws \<Longrightarrow> \<not> passes2 r (enter1 r ws) \<Longrightarrow> mw1 (mw2 h) r ws = deny2 r (enter1 r ws)"
  by (simp add: outer.pass inner.block)

lemma stack_blocked_independent:
  "\<not> (passes1 r ws \<and> passes2 r (enter1 r ws)) \<Longrightarrow> mw1 (mw2 h) r ws = mw1 (mw2 h') r ws"
  by (simp add: outer.split_cases inner.split_cases)

end

end
