(* ===== verification/Sha256.thy ===== *)
theory Sha256
  imports Codec
begin

text \<open>
  \<open>crypto/sha256.Sum256\<close> of the standard library, as FIPS 180-4 defines it, on 32-bit
  words.  The program uses it for key fingerprints in the HPKE info string, the commitment of
  an uploaded file, the digest a JWT signature covers and the channel-binding nonce.
\<close>

type_synonym word32 = "32 word"

definition sha_k :: "word32 list" where
  "sha_k = concat
    [[0x428a2f98, 0x71374491, 0xb5c0fbcf, 0xe9b5dba5, 0x3956c25b, 0x59f111f1, 0x923f82a4, 0xab1c5ed5],
     [0xd807aa98, 0x12835b01, 0x243185be, 0x550c7dc3, 0x72be5d74, 0x80deb1fe, 0x9bdc06a7, 0xc19bf174],
     [0xe49b69c1, 0xefbe4786, 0x0fc19dc6, 0x240ca1cc, 0x2de92c6f, 0x4a7484aa, 0x5cb0a9dc, 0x76f988da],
     [0x983e5152, 0xa831c66d, 0xb00327c8, 0xbf597fc7, 0xc6e00bf3, 0xd5a79147, 0x06ca6351, 0x14292967],
     [0x27b70a85, 0x2e1b2138, 0x4d2c6dfc, 0x53380d13, 0x650a7354, 0x766a0abb, 0x81c2c92e, 0x92722c85],
     [0xa2bfe8a1, 0xa81a664b, 0xc24b8b70, 0xc76c51a3, 0xd192e819, 0xd6990624, 0xf40e3585, 0x106aa070],
     [0x19a4c116, 0x1e376c08, 0x2748774c, 0x34b0bcb5, 0x391c0cb3, 0x4ed8aa4a, 0x5b9cca4f, 0x682e6ff3],
     [0x748f82ee, 0x78a5636f, 0x84c87814, 0x8cc70208, 0x90befffa, 0xa4506ceb, 0xbef9a3f7, 0xc67178f2]]"

record sha_state =
  sh_a :: word32
  sh_b :: word32
  sh_c :: word32
  sh_d :: word32
  sh_e :: word32
  sh_f :: word32
  sh_g :: word32
  sh_h :: word32

definition sha_init :: sha_state where
  "sha_init = \<lparr>sh_a = 0x6a09e667, sh_b = 0xbb67ae85, sh_c = 0x3c6ef372, sh_d = 0xa54ff53a,
     sh_e = 0x510e527f, sh_f = 0x9b05688c, sh_g = 0x1f83d9ab, sh_h = 0x5be0cd19\<rparr>"

definition rotr :: "nat \<Rightarrow> word32 \<Rightarrow> word32" where
  "rotr n w = drop_bit n w OR push_bit (32 - n) w"

definition small_sigma0 :: "word32 \<Rightarrow> word32" where
  "small_sigma0 w = rotr 7 w XOR rotr 18 w XOR drop_bit 3 w"

definition small_sigma1 :: "word32 \<Rightarrow> word32" where
  "small_sigma1 w = rotr 17 w XOR rotr 19 w XOR drop_bit 10 w"

text \<open>The message schedule, kept newest first: \<open>ws ! 1\<close> is \<open>W[t - 2]\<close>.\<close>

definition schedule_step :: "word32 list \<Rightarrow> word32 list" where
  "schedule_step ws =
     (small_sigma1 (ws ! 1) + ws ! 6 + small_sigma0 (ws ! 14) + ws ! 15) # ws"

fun schedule :: "nat \<Rightarrow> word32 list \<Rightarrow> word32 list" where
  "schedule 0 ws = rev ws"
| "schedule (Suc n) ws = schedule n (schedule_step ws)"

definition sha_round :: "sha_state \<Rightarrow> word32 \<times> word32 \<Rightarrow> sha_state" where
  "sha_round s kw =
     (let e = sh_e s; a = sh_a s;
          s1 = rotr 6 e XOR rotr 11 e XOR rotr 25 e;
          ch = (e AND sh_f s) XOR (NOT e AND sh_g s);
          t1 = sh_h s + s1 + ch + fst kw + snd kw;
          s0 = rotr 2 a XOR rotr 13 a XOR rotr 22 a;
          maj = (a AND sh_b s) XOR (a AND sh_c s) XOR (sh_b s AND sh_c s)
      in \<lparr>sh_a = t1 + s0 + maj, sh_b = a, sh_c = sh_b s, sh_d = sh_c s,
          sh_e = sh_d s + t1, sh_f = e, sh_g = sh_f s, sh_h = sh_g s\<rparr>)"

fun chunks :: "nat \<Rightarrow> nat \<Rightarrow> 'a list \<Rightarrow> 'a list list" where
  "chunks 0 k xs = []"
| "chunks (Suc n) k xs = take k xs # chunks n k (drop k xs)"

definition sha_block :: "sha_state \<Rightarrow> bytes \<Rightarrow> sha_state" where
  "sha_block s blk =
     (let ws = schedule 48 (rev (map get_u32 (chunks 16 4 blk)));
          t = foldl sha_round s (zip sha_k ws)
      in \<lparr>sh_a = sh_a s + sh_a t, sh_b = sh_b s + sh_b t, sh_c = sh_c s + sh_c t,
          sh_d = sh_d s + sh_d t, sh_e = sh_e s + sh_e t, sh_f = sh_f s + sh_f t,
          sh_g = sh_g s + sh_g t, sh_h = sh_h s + sh_h t\<rparr>)"

definition sha_pad :: "bytes \<Rightarrow> bytes" where
  "sha_pad m =
     (let n = length m
      in m @ [0x80] @ replicate ((119 - n mod 64) mod 64) 0
           @ map (\<lambda>k. of_nat (8 * n div 256 ^ k)) [7, 6, 5, 4, 3, 2, 1, 0])"

definition sha256 :: "bytes \<Rightarrow> bytes" where
  "sha256 m =
     (let p = sha_pad m;
          s = foldl sha_block sha_init (chunks (length p div 64) 64 p)
      in put_u32 (sh_a s) @ put_u32 (sh_b s) @ put_u32 (sh_c s) @ put_u32 (sh_d s)
         @ put_u32 (sh_e s) @ put_u32 (sh_f s) @ put_u32 (sh_g s) @ put_u32 (sh_h s))"

lemma length_sha256 [simp]: "length (sha256 m) = 32"
  by (simp add: sha256_def Let_def)

text \<open>Padding fills whole blocks, so no byte of the message is left out.\<close>

lemma pad_multiple:
  fixes n :: nat
  shows "64 dvd n + 9 + (119 - n mod 64) mod 64"
proof -
  define r where "r = n mod 64"
  have r: "r < 64" and n: "n = 64 * (n div 64) + r"
    by (simp_all add: r_def)
  have "64 dvd r + 9 + (119 - r) mod 64"
  proof (cases "r \<le> 55")
    case True
    then have "119 - r = 64 + (55 - r)"
      by linarith
    then have "(119 - r) mod 64 = (55 - r) mod 64"
      by (metis mod_add_self1)
    also have "\<dots> = 55 - r"
      by (rule mod_less) linarith
    finally have "r + 9 + (119 - r) mod 64 = 64"
      using True by linarith
    then show ?thesis by (simp only: dvd_refl)
  next
    case False
    then have "(119 - r) mod 64 = 119 - r"
      by (intro mod_less) linarith
    then have "r + 9 + (119 - r) mod 64 = 2 * 64"
      using r by linarith
    then show ?thesis by (simp only: dvd_triv_right)
  qed
  then have "64 dvd 64 * (n div 64) + (r + 9 + (119 - r) mod 64)"
    by (rule dvd_add [OF dvd_triv_left])
  moreover have "n + 9 + (119 - r) mod 64 = 64 * (n div 64) + (r + 9 + (119 - r) mod 64)"
    using n by linarith
  ultimately show ?thesis by (simp only: r_def [symmetric])
qed

lemma sha_pad_blocks: "64 dvd length (sha_pad m)"
proof -
  have "length (sha_pad m) = length m + 9 + (119 - length m mod 64) mod 64"
    by (simp add: sha_pad_def Let_def)
  then show ?thesis by (simp only: pad_multiple)
qed

end
