(* ===== verification/Hpke.thy ===== *)
theory Hpke
  imports Http Sha256
begin

text \<open>
  \<open>internal/hpke/hpke.go\<close>: the HPKE info string of both parties' keys, and opening and sealing
  with a context made afresh in every call.

  The primitives of \<open>crypto/hpke\<close> and \<open>crypto/ecdh\<close> are the fields of \<open>hpke_lib\<close>.  A recipient
  or sender context is the function its \<open>Open\<close> or \<open>Seal\<close> method computes; private and public
  keys are their bytes.  \<open>hpke_correct\<close> and \<open>hpke_binds_info\<close> state the documented behaviour of
  these primitives (RFC 9180): what a sender sealed the matching recipient opens, and a
  ciphertext opens under the info and additional data it was sealed with only.
\<close>

type_synonym hpke_context = "bytes \<Rightarrow> bytes \<Rightarrow> bytes result"

record hpke_lib =
  hl_private :: "bytes \<Rightarrow> bytes result"
  hl_recipient :: "bytes \<Rightarrow> bytes \<Rightarrow> bytes \<Rightarrow> hpke_context result"
  hl_x25519_public :: "bytes \<Rightarrow> bytes result"
  hl_public :: "bytes \<Rightarrow> bytes result"
  hl_sender :: "bytes \<Rightarrow> bytes \<Rightarrow> (bytes \<times> hpke_context) result"

section \<open>The info string\<close>

text \<open>\<open>copy(dst[off:], src)\<close>: as many bytes as fit.\<close>

definition copy_at :: "nat \<Rightarrow> bytes \<Rightarrow> bytes \<Rightarrow> bytes" where
  "copy_at off src dst =
     take off dst @ take (length dst - off) src @ drop (off + length src) dst"

definition hpke_prefix :: bytes where
  "hpke_prefix = bytes_of ''ratls-cs-v1|''"

definition ContextInfo :: "bytes \<Rightarrow> bytes \<Rightarrow> bytes" where
  "ContextInfo enclaveHPKEPub browserHPKEPub =
     (let prefix = hpke_prefix;
          eHash = sha256 enclaveHPKEPub;
          bHash = sha256 browserHPKEPub;
          info = replicate (length prefix + 32 + 32) 0;
          info = copy_at 0 prefix info;
          info = copy_at (length prefix) eHash info;
          info = copy_at (length prefix + 32) bHash info
      in info)"

lemma copy_at_exact:
  "length src = length mid \<Longrightarrow> copy_at (length pre) src (pre @ mid @ post) = pre @ src @ post"
  by (simp add: copy_at_def)

lemma ContextInfo_append:
  "ContextInfo e b = hpke_prefix @ sha256 e @ sha256 b"
proof -
  let ?p = hpke_prefix
  let ?z = "replicate 32 (0 :: byte)"
  have z: "replicate (length ?p + 32 + 32) (0 :: byte) = replicate (length ?p) 0 @ ?z @ ?z"
    by (simp only: replicate_add append_assoc)
  have "copy_at 0 ?p (replicate (length ?p) 0 @ ?z @ ?z) = ?p @ ?z @ ?z"
    using copy_at_exact [of ?p "replicate (length ?p) 0" "[]" "?z @ ?z"] by simp
  moreover have "copy_at (length ?p) (sha256 e) (?p @ ?z @ ?z) = ?p @ sha256 e @ ?z"
    by (rule copy_at_exact) simp
  moreover have "copy_at (length ?p + 32) (sha256 b) (?p @ sha256 e @ ?z) = ?p @ sha256 e @ sha256 b"
    using copy_at_exact [of "sha256 b" ?z "?p @ sha256 e" "[]"] by simp
  ultimately show ?thesis
    by (simp only: ContextInfo_def Let_def z)
qed

lemma length_ContextInfo: "length (ContextInfo e b) = 76"
  by (simp add: ContextInfo_append hpke_prefix_def)

lemma ContextInfo_inject:
  "ContextInfo e b = ContextInfo e' b' \<longleftrightarrow> sha256 e = sha256 e' \<and> sha256 b = sha256 b'"
  by (simp add: ContextInfo_append)

section \<open>Open and seal\<close>

record ResponseSeal =
  rs_Enc :: bytes
  rs_Ciphertext :: bytes

definition OpenFromBrowser ::
  "hpke_lib \<Rightarrow> bytes \<Rightarrow> bytes \<Rightarrow> bytes \<Rightarrow> bytes \<Rightarrow> bytes \<Rightarrow> bytes result" where
  "OpenFromBrowser hl enclavePriv enc info aad ct =
     (case hl_private hl enclavePriv of
        Inl err \<Rightarrow> Inl (Wrapf ''wrap enclave private key'' err)
      | Inr privKey \<Rightarrow>
          (case hl_recipient hl enc privKey info of
             Inl err \<Rightarrow> Inl (Wrapf ''hpke NewRecipient'' err)
           | Inr recipient \<Rightarrow>
               (case recipient aad ct of
                  Inl err \<Rightarrow> Inl (Wrapf ''hpke Open'' err)
                | Inr pt \<Rightarrow> Inr pt)))"

definition SealToBrowser ::
  "hpke_lib \<Rightarrow> bytes \<Rightarrow> bytes \<Rightarrow> bytes \<Rightarrow> bytes \<Rightarrow> ResponseSeal result" where
  "SealToBrowser hl browserPubBytes info aad plaintext =
     (case hl_x25519_public hl browserPubBytes of
        Inl err \<Rightarrow> Inl (Wrapf ''parse browser pub'' err)
      | Inr browserECDH \<Rightarrow>
          (case hl_public hl browserECDH of
             Inl err \<Rightarrow> Inl (Wrapf ''wrap browser public key'' err)
           | Inr browserPub \<Rightarrow>
               (case hl_sender hl browserPub info of
                  Inl err \<Rightarrow> Inl (Wrapf ''hpke NewSender'' err)
                | Inr (enc, sender) \<Rightarrow>
                    (case sender aad plaintext of
                       Inl err \<Rightarrow> Inl (Wrapf ''hpke Seal'' err)
                     | Inr ct \<Rightarrow> Inr \<lparr>rs_Enc = enc, rs_Ciphertext = ct\<rparr>))))"

text \<open>
  The public key of a private key, as bytes, is a relation between the two that the contract of
  the library mentions: \<open>priv\<close> opens what was sealed to \<open>pub\<close>.
\<close>

definition hpke_correct :: "hpke_lib \<Rightarrow> bytes \<Rightarrow> bytes \<Rightarrow> bool" where
  "hpke_correct hl priv pub \<longleftrightarrow>
     (\<forall>x pk info enc s aad pt ct.
        hl_x25519_public hl pub = Inr x \<longrightarrow> hl_public hl x = Inr pk \<longrightarrow>
        hl_sender hl pk info = Inr (enc, s) \<longrightarrow> s aad pt = Inr ct \<longrightarrow>
        (\<exists>sk r. hl_private hl priv = Inr sk \<and> hl_recipient hl enc sk info = Inr r \<and> r aad ct = Inr pt))"

definition hpke_binds_info :: "hpke_lib \<Rightarrow> bytes \<Rightarrow> bytes \<Rightarrow> bool" where
  "hpke_binds_info hl priv pub \<longleftrightarrow>
     (\<forall>x pk info enc s aad pt ct sk r info' aad' pt'.
        hl_x25519_public hl pub = Inr x \<longrightarrow> hl_public hl x = Inr pk \<longrightarrow>
        hl_sender hl pk info = Inr (enc, s) \<longrightarrow> s aad pt = Inr ct \<longrightarrow>
        hl_private hl priv = Inr sk \<longrightarrow> hl_recipient hl enc sk info' = Inr r \<longrightarrow>
        r aad' ct = Inr pt' \<longrightarrow> info' = info \<and> aad' = aad)"

lemma SealToBrowser_Inr:
  "SealToBrowser hl pub info aad pt = Inr seal \<longleftrightarrow>
     (\<exists>x pk s. hl_x25519_public hl pub = Inr x \<and> hl_public hl x = Inr pk \<and>
        hl_sender hl pk info = Inr (rs_Enc seal, s) \<and> s aad pt = Inr (rs_Ciphertext seal))"
  by (cases seal) (auto simp: SealToBrowser_def split: sum.splits)

lemma OpenFromBrowser_Inr:
  "OpenFromBrowser hl priv enc info aad ct = Inr pt \<longleftrightarrow>
     (\<exists>sk r. hl_private hl priv = Inr sk \<and> hl_recipient hl enc sk info = Inr r \<and> r aad ct = Inr pt)"
  by (auto simp: OpenFromBrowser_def split: sum.splits)

lemma open_seal:
  "hpke_correct hl priv pub \<Longrightarrow> SealToBrowser hl pub info aad pt = Inr seal \<Longrightarrow>
   OpenFromBrowser hl priv (rs_Enc seal) info aad (rs_Ciphertext seal) = Inr pt"
  unfolding hpke_correct_def SealToBrowser_Inr OpenFromBrowser_Inr by blast

lemma open_binds:
  "hpke_binds_info hl priv pub \<Longrightarrow> SealToBrowser hl pub info aad pt = Inr seal \<Longrightarrow>
   OpenFromBrowser hl priv (rs_Enc seal) info' aad' (rs_Ciphertext seal) = Inr pt' \<Longrightarrow>
   info' = info \<and> aad' = aad"
  unfolding hpke_binds_info_def SealToBrowser_Inr OpenFromBrowser_Inr by blast

section \<open>A concrete library for witnesses\<close>

text \<open>
  A toy instance of the contracts, used in witnesses only: keys are their own public halves, the
  encapsulated key is the public key, and a ciphertext carries the lengths and bytes of the info
  string and the additional data in front of the plaintext.
\<close>

definition toy_tag :: "bytes \<Rightarrow> bytes \<Rightarrow> bytes" where
  "toy_tag info aad =
     replicate (length info) 1 @ [0] @ info @ replicate (length aad) 1 @ [0] @ aad"

definition toy_hpke :: hpke_lib where
  "toy_hpke = \<lparr>
     hl_private = Inr,
     hl_recipient = (\<lambda>enc sk info. Inr (\<lambda>aad ct.
        if has_prefix ct (toy_tag info aad) then Inr (drop (length (toy_tag info aad)) ct)
        else Inl (Lib (LibError ''message authentication failed'')))),
     hl_x25519_public = (\<lambda>b. if length b = 32 then Inr b else Inl (Lib (LibError ''invalid public key''))),
     hl_public = Inr,
     hl_sender = (\<lambda>pk info. Inr (pk, \<lambda>aad pt. Inr (toy_tag info aad @ pt)))\<rparr>"

lemma ones_zero_inject:
  "replicate m (1 :: byte) @ 0 # x = replicate n 1 @ 0 # y \<longleftrightarrow> m = n \<and> x = y"
proof (induction m arbitrary: n)
  case 0
  then show ?case by (cases n) auto
next
  case (Suc m)
  then show ?case by (cases n) auto
qed

lemma toy_tag_inject: "toy_tag i a @ x = toy_tag i' a' @ y \<longleftrightarrow> i = i' \<and> a = a' \<and> x = y"
proof
  assume eq: "toy_tag i a @ x = toy_tag i' a' @ y"
  then have "replicate (length i) 1 @ 0 # (i @ replicate (length a) 1 @ 0 # a @ x) =
      replicate (length i') 1 @ 0 # (i' @ replicate (length a') 1 @ 0 # a' @ y)"
    by (simp add: toy_tag_def)
  then have "length i = length i'"
    "i @ replicate (length a) 1 @ 0 # a @ x = i' @ replicate (length a') 1 @ 0 # a' @ y"
    by (simp_all only: ones_zero_inject)
  then have "i = i'" "replicate (length a) 1 @ 0 # (a @ x) = replicate (length a') 1 @ 0 # (a' @ y)"
    by simp_all
  then show "i = i' \<and> a = a' \<and> x = y"
    by (auto simp: ones_zero_inject)
qed simp

lemma toy_hpke_correct: "hpke_correct toy_hpke k k"
  by (auto simp: hpke_correct_def toy_hpke_def)

lemma toy_hpke_binds_info: "hpke_binds_info toy_hpke priv pub"
  by (auto simp: hpke_binds_info_def toy_hpke_def has_prefix_iff toy_tag_inject split: if_splits)

end
