(* ===== verification/Attest.thy ===== *)
theory Attest
  imports Http
begin

text \<open>
  \<open>internal/attest/oidc.go\<close>: the request for an attestation token to the launcher's socket, and
  how the token is taken out of the answer.

  The package \<open>internal/keys\<close> is not part of the repository (an ignore rule keeps it out), so a
  key pair is the record of what the rest of the code reads from it: two exported fields and the
  values of its methods.
\<close>

record enclave_keys =
  ek_BindingSPKI :: bytes
  ek_HPKEPriv :: bytes
  ek_HPKEPub :: bytes
  ek_HPKEPubBytes :: bytes
  ek_BindingFingerprintB64URL :: string
  ek_HPKEPubB64URL :: string
  ek_SignNonce :: "bytes \<Rightarrow> bytes result"

definition socketPath :: string where
  "socketPath = ''/run/container_launcher/teeserver.sock''"

definition tokenEndpoint :: string where
  "tokenEndpoint = ''http://localhost/v1/token''"

text \<open>
  A dialer gives the peer that listens on a network and an address.  \<open>NewUnixClient\<close> ignores the
  address of the request's URL and dials the socket of the launcher.
\<close>

type_synonym dialer = "string \<Rightarrow> string \<Rightarrow> net"

definition NewUnixClient :: "dialer \<Rightarrow> net" where
  "NewUnixClient dial = dial ''unix'' socketPath"

definition truncate_str :: "string \<Rightarrow> nat \<Rightarrow> string" where
  "truncate_str s n = (if length s \<le> n then s else take n s @ ''...'')"

text \<open>The envelope \<open>{"oidc_token": "<jwt>"}\<close>.\<close>

definition envelope_fields :: "(string \<times> string setter) list" where
  "envelope_fields = [(''oidc_token'', set_string (\<lambda>x _. x))]"

definition extractToken :: "bytes \<Rightarrow> string" where
  "extractToken raw =
     (case json_unmarshal (decode_struct envelope_fields) [] raw of
        Inr tok \<Rightarrow> if tok \<noteq> [] then trim_space tok else trim_space (string_of raw)
      | Inl _ \<Rightarrow> trim_space (string_of raw))"

definition token_request_body :: "enclave_keys \<Rightarrow> string \<Rightarrow> string" where
  "token_request_body k audience =
     json_object
       [(''audience'', json_string audience),
        (''nonces'',
         json_array [json_string (ek_BindingFingerprintB64URL k), json_string (ek_HPKEPubB64URL k)]),
        (''token_type'', json_string ''OIDC'')]"

definition token_request :: "enclave_keys \<Rightarrow> string \<Rightarrow> out_request" where
  "token_request k audience =
     \<lparr>or_method = ''POST'', or_url = tokenEndpoint,
      or_header = header_set ''Content-Type'' ''application/json'' [],
      or_body = bytes_of (token_request_body k audience)\<rparr>"

text \<open>
  \<open>fetchOIDCWithClient\<close>.  Marshalling a struct of strings and building a request from a constant
  URL never fail, so the two branches for those errors cannot be taken.
\<close>

definition fetchOIDCWithClient ::
  "(nat \<Rightarrow> bool) \<Rightarrow> enclave_keys \<Rightarrow> string \<Rightarrow> net \<Rightarrow> string result" where
  "fetchOIDCWithClient pr k audience client =
     (case client (token_request k audience) of
        Inl err \<Rightarrow> Inl (Wrapf ''token request'' err)
      | Inr resp \<Rightarrow>
          (if pr_status resp \<noteq> 200
           then Inl (Errorf (''token endpoint returned '' @ show_nat (pr_status resp)))
           else
             (case read_limited (2 ^ 20) (pr_body resp) of
                Inl err \<Rightarrow> Inl (Wrapf ''read response'' err)
              | Inr raw \<Rightarrow>
                  (let token = extractToken raw in
                   if \<not> has_prefix token ''eyJ''
                   then Inl (Errorf (''response does not look like a JWT (got ''
                               @ go_quote pr (truncate_str token 64) @ '')''))
                   else Inr token))))"

definition FetchOIDC ::
  "(nat \<Rightarrow> bool) \<Rightarrow> enclave_keys \<Rightarrow> string \<Rightarrow> dialer \<Rightarrow> string result" where
  "FetchOIDC pr k audience tee = fetchOIDCWithClient pr k audience (NewUnixClient tee)"

section \<open>What a fetched token is\<close>

lemma FetchOIDC_Inr:
  "FetchOIDC pr k aud tee = Inr tok \<longleftrightarrow>
     (\<exists>resp raw. tee ''unix'' socketPath (token_request k aud) = Inr resp \<and> pr_status resp = 200 \<and>
        read_limited (2 ^ 20) (pr_body resp) = Inr raw \<and> tok = extractToken raw \<and>
        has_prefix tok ''eyJ'')"
  by (auto simp: FetchOIDC_def fetchOIDCWithClient_def NewUnixClient_def Let_def split: sum.splits if_splits)

lemma length_truncate_str: "length (truncate_str s n) \<le> n + 3"
  by (simp add: truncate_str_def)

text \<open>
  A base64url text starts and ends with a byte that is no white space, so trimming keeps it.
\<close>

definition is_jwt_char :: "char \<Rightarrow> bool" where
  "is_jwt_char c = (33 \<le> code c \<and> code c < 127)"

lemma unicode_spaces_first:
  "w \<in> set unicode_spaces \<Longrightarrow> w = [] \<or> \<not> is_jwt_char (hd w)"
  by (auto simp: unicode_spaces_def is_jwt_char_def)

lemma unicode_spaces_last:
  "w \<in> set (map rev unicode_spaces) \<Longrightarrow> w = [] \<or> \<not> is_jwt_char (hd w)"
  by (auto simp: unicode_spaces_def is_jwt_char_def)

lemma trim_space_jwt:
  assumes "list_all is_jwt_char s" and "s \<noteq> []"
  shows "trim_space s = s"
proof -
  obtain c cs where s: "s = c # cs"
    using assms(2) by (cases s) auto
  have "strip_any unicode_spaces (c # cs) = c # cs"
  proof (rule strip_any_unchanged)
    show "w = [] \<or> hd w \<noteq> c" if "w \<in> set unicode_spaces" for w
      using unicode_spaces_first [OF that] assms(1) s by auto
  qed
  then have l: "trim_left s = s"
    by (simp add: trim_left_def s)
  obtain d ds where r: "rev s = d # ds"
    using assms(2) by (cases "rev s") auto
  then have "is_jwt_char d"
    using assms(1) by (metis list.set_intros(1) list_all_iff set_rev)
  then have "strip_any (map rev unicode_spaces) (d # ds) = d # ds"
    using unicode_spaces_last by (intro strip_any_unchanged) auto
  then have "trim_right s = s"
    using r by (metis rev_rev_ident trim_right_def)
  with l show ?thesis by (simp add: trim_space_def)
qed

end
