(* ===== verification/Credential_Store.thy ===== *)
theory Credential_Store
  imports Prelude
begin

text \<open>
  The interface between the rotator and what it rotates: a store with two operations that may
  fail, a cheap one that keeps the identity (the keys) and an expensive one that replaces it.
  Whoever implements it promises that a good state stays good and that a failed call changes
  nothing.  The facts about any sequence of calls are proved here once; the bundle builder is
  the implementation.
\<close>

text \<open>What a run of the rotator calls, in order.\<close>

datatype ('e, 'g) rot_call = CallRefresh 'e | CallRenew 'g

fun run_calls ::
  "('e \<Rightarrow> 's \<Rightarrow> unit result \<times> 's) \<Rightarrow> ('g \<Rightarrow> 's \<Rightarrow> unit result \<times> 's) \<Rightarrow>
   ('e, 'g) rot_call list \<Rightarrow> 's \<Rightarrow> 's" where
  "run_calls refresh renew [] s = s"
| "run_calls refresh renew (CallRefresh e # cs) s =
     run_calls refresh renew cs (snd (refresh e s))"
| "run_calls refresh renew (CallRenew g # cs) s =
     run_calls refresh renew cs (snd (renew g s))"

lemma run_calls_Cons:
  "run_calls refresh renew (c # cs) s =
     run_calls refresh renew cs
       (case c of CallRefresh e \<Rightarrow> snd (refresh e s) | CallRenew g \<Rightarrow> snd (renew g s))"
  by (cases c) simp_all

locale credential_store =
  fixes refresh :: "'e \<Rightarrow> 's \<Rightarrow> unit result \<times> 's"
    and renew :: "'g \<Rightarrow> 's \<Rightarrow> unit result \<times> 's"
    and good :: "'s \<Rightarrow> bool"
    and ident :: "'s \<Rightarrow> 'k"
  assumes refresh_good: "good s \<Longrightarrow> good (snd (refresh e s))"
    and renew_good: "good s \<Longrightarrow> good (snd (renew g s))"
    and refresh_ident: "ident (snd (refresh e s)) = ident s"
    and refresh_failed: "fst (refresh e s) = Inl err \<Longrightarrow> snd (refresh e s) = s"
    and renew_failed: "fst (renew g s) = Inl err \<Longrightarrow> snd (renew g s) = s"
begin

lemma run_good: "good s \<Longrightarrow> good (run_calls refresh renew cs s)"
  by (induction cs arbitrary: s)
    (auto simp: run_calls_Cons refresh_good renew_good split: rot_call.split)

text \<open>Only a rotation can change the identity.\<close>

lemma run_ident:
  "(\<forall>g. CallRenew g \<notin> set cs) \<Longrightarrow> ident (run_calls refresh renew cs s) = ident s"
  by (induction cs arbitrary: s)
    (auto simp: run_calls_Cons refresh_ident split: rot_call.split)

text \<open>A rotation that fails does not change it either.\<close>

lemma run_renew_failed:
  assumes "\<And>g s. CallRenew g \<in> set cs \<Longrightarrow> \<exists>err. fst (renew g s) = Inl err"
  shows "ident (run_calls refresh renew cs s) = ident s"
  using assms
proof (induction cs arbitrary: s)
  case Nil
  show ?case by simp
next
  case (Cons c cs)
  show ?case
  proof (cases c)
    case (CallRefresh e)
    then show ?thesis
      using Cons refresh_ident by simp
  next
    case (CallRenew g)
    then obtain err where "fst (renew g s) = Inl err"
      using Cons.prems by auto
    then have "snd (renew g s) = s" by (rule renew_failed)
    with Cons CallRenew show ?thesis by simp
  qed
qed

text \<open>Calls that all fail leave the store as it was, so what it serves stays valid.\<close>

lemma run_all_failed:
  assumes "\<And>e s. CallRefresh e \<in> set cs \<Longrightarrow> \<exists>err. fst (refresh e s) = Inl err"
    and "\<And>g s. CallRenew g \<in> set cs \<Longrightarrow> \<exists>err. fst (renew g s) = Inl err"
  shows "run_calls refresh renew cs s = s"
  using assms
proof (induction cs arbitrary: s)
  case Nil
  show ?case by simp
next
  case (Cons c cs)
  show ?case
  proof (cases c)
    case (CallRefresh e)
    then obtain err where "fst (refresh e s) = Inl err"
      using Cons.prems(1) by auto
    then have "snd (refresh e s) = s" by (rule refresh_failed)
    with Cons CallRefresh show ?thesis by simp
  next
    case (CallRenew g)
    then obtain err where "fst (renew g s) = Inl err"
      using Cons.prems(2) by auto
    then have "snd (renew g s) = s" by (rule renew_failed)
    with Cons CallRenew show ?thesis by simp
  qed
qed

end

end
