(* ===== verification/Bundle.thy ===== *)
theory Bundle
  imports Attest Sha256 Credential_Store
begin

text \<open>
  \<open>internal/bundle/bundle.go\<close> and \<open>types.go\<close>: the holder of the current keys and OIDC token, the
  check that the token names the keys, and the attestation bundle.  An operation that calls the
  token server takes the server's answers as an argument; \<open>keys.Generate\<close> belongs to the missing
  package and its result is an argument too.
\<close>

section \<open>Types of the wire\<close>

record AttestBundle =
  ab_OIDCToken :: string
  ab_BindingPubkeyB64 :: string
  ab_HPKEPubkeyB64 :: string
  ab_NonceSigB64 :: string
  ab_IssuedAt :: int

definition AttestBundle_json :: "AttestBundle \<Rightarrow> string" where
  "AttestBundle_json b =
     json_object
       [(''oidc_token'', json_string (ab_OIDCToken b)),
        (''binding_pubkey_b64'', json_string (ab_BindingPubkeyB64 b)),
        (''hpke_pubkey_b64'', json_string (ab_HPKEPubkeyB64 b)),
        (''nonce_sig_b64'', json_string (ab_NonceSigB64 b)),
        (''issued_at'', show_int (ab_IssuedAt b))]"

record EncryptedRequest =
  er_Enc :: string
  er_Ciphertext :: string
  er_AAD :: string

type_synonym EncryptedResponse = EncryptedRequest

definition EncryptedRequest_zero :: EncryptedRequest where
  "EncryptedRequest_zero = \<lparr>er_Enc = [], er_Ciphertext = [], er_AAD = []\<rparr>"

definition EncryptedRequest_fields :: "(string \<times> EncryptedRequest setter) list" where
  "EncryptedRequest_fields =
     [(''enc'', set_string (\<lambda>x r. r\<lparr>er_Enc := x\<rparr>)),
      (''ciphertext'', set_string (\<lambda>x r. r\<lparr>er_Ciphertext := x\<rparr>)),
      (''aad'', set_string (\<lambda>x r. r\<lparr>er_AAD := x\<rparr>))]"

definition EncryptedRequest_json :: "EncryptedRequest \<Rightarrow> string" where
  "EncryptedRequest_json r =
     json_object
       [(''enc'', json_string (er_Enc r)), (''ciphertext'', json_string (er_Ciphertext r)),
        (''aad'', json_string (er_AAD r))]"

section \<open>The binding of token and keys\<close>

text \<open>\<open>%T\<close> of a value decoded into an \<open>interface{}\<close>.\<close>

fun go_type_name :: "json \<Rightarrow> string" where
  "go_type_name JNull = ''<nil>''"
| "go_type_name (JBool _) = ''bool''"
| "go_type_name (JNum _) = ''float64''"
| "go_type_name (JStr _) = ''string''"
| "go_type_name (JArr _) = ''[]interface {}''"
| "go_type_name (JObj _) = ''map[string]interface {}''"

fun string_items :: "nat \<Rightarrow> json list \<Rightarrow> string list result" where
  "string_items i [] = Inr []"
| "string_items i (JStr s # vs) =
     (case string_items (Suc i) vs of Inl e \<Rightarrow> Inl e | Inr ss \<Rightarrow> Inr (s # ss))"
| "string_items i (v # vs) = Inl (Errorf (''element '' @ show_nat i @ '' is not a string''))"

definition toStringSlice :: "json \<Rightarrow> string list result" where
  "toStringSlice v =
     (case v of
        JArr items \<Rightarrow> string_items 0 items
      | JStr t \<Rightarrow> Inr [t]
      | _ \<Rightarrow> Inl (Errorf (''unexpected type '' @ go_type_name v)))"

definition eat_nonce_fields :: "(string \<times> json setter) list" where
  "eat_nonce_fields = [(''eat_nonce'', set_any (\<lambda>v _. v))]"

definition verifyEatNonce :: "(nat \<Rightarrow> bool) \<Rightarrow> string \<Rightarrow> enclave_keys \<Rightarrow> unit result" where
  "verifyEatNonce pr token k =
     (let parts = split_on (CHR ''.'') token in
      if length parts \<noteq> 3 then Inl (Errorf ''token is not a three-part JWT'')
      else
        (case b64_decode RawURLEncoding (parts ! 1) of
           Inl err \<Rightarrow> Inl (Wrapf ''decode JWT payload'' err)
         | Inr payload \<Rightarrow>
             (case json_unmarshal (decode_struct eat_nonce_fields) JNull payload of
                Inl err \<Rightarrow> Inl (Wrapf ''unmarshal JWT claims'' err)
              | Inr EatNonce \<Rightarrow>
                  (case toStringSlice EatNonce of
                     Inl err \<Rightarrow> Inl (Wrapf ''eat_nonce field'' err)
                   | Inr nonces \<Rightarrow>
                       (if length nonces < 2
                        then Inl (Errorf (''eat_nonce must have at least 2 elements, got ''
                                    @ show_nat (length nonces)))
                        else
                          (let wantFP = ek_BindingFingerprintB64URL k; wantHP = ek_HPKEPubB64URL k in
                           if nonces ! 0 \<noteq> wantFP
                           then Inl (Errorf (''eat_nonce[0] mismatch: got '' @ go_quote pr (nonces ! 0)
                                       @ '', want '' @ go_quote pr wantFP))
                           else if nonces ! 1 \<noteq> wantHP
                           then Inl (Errorf (''eat_nonce[1] mismatch: got '' @ go_quote pr (nonces ! 1)
                                       @ '', want '' @ go_quote pr wantHP))
                           else Inr ()))))))"

section \<open>The builder\<close>

record builder =
  bu_audience :: string
  bu_keys :: enclave_keys
  bu_oidcToken :: string
  bu_issuedAt :: int

definition NewBuilder ::
  "(nat \<Rightarrow> bool) \<Rightarrow> enclave_keys result \<Rightarrow> dialer \<Rightarrow> int \<Rightarrow> string \<Rightarrow> builder result" where
  "NewBuilder pr generated tee now audience =
     (case generated of
        Inl err \<Rightarrow> Inl (Wrapf ''generate keys'' err)
      | Inr k \<Rightarrow>
          (case FetchOIDC pr k audience tee of
             Inl err \<Rightarrow> Inl (Wrapf ''fetch OIDC'' err)
           | Inr token \<Rightarrow>
               (case verifyEatNonce pr token k of
                  Inl err \<Rightarrow> Inl (Wrapf ''eat_nonce verification'' err)
                | Inr _ \<Rightarrow>
                    Inr \<lparr>bu_audience = audience, bu_keys = k, bu_oidcToken = token,
                         bu_issuedAt = now\<rparr>)))"

definition Build :: "builder \<Rightarrow> bytes \<Rightarrow> AttestBundle result" where
  "Build b nonce =
     (case ek_SignNonce (bu_keys b) nonce of
        Inl err \<Rightarrow> Inl (Wrapf ''sign nonce'' err)
      | Inr sig \<Rightarrow>
          Inr \<lparr>ab_OIDCToken = bu_oidcToken b,
               ab_BindingPubkeyB64 = b64_encode StdEncoding (ek_BindingSPKI (bu_keys b)),
               ab_HPKEPubkeyB64 = b64_encode StdEncoding (ek_HPKEPubBytes (bu_keys b)),
               ab_NonceSigB64 = b64_encode StdEncoding sig,
               ab_IssuedAt = bu_issuedAt b\<rparr>)"

text \<open>
  \<open>RefreshOIDC\<close> in its two critical sections: the keys are read under the read lock
  (\<open>refresh_snapshot\<close>), the token is fetched and checked without a lock (\<open>refresh_fetch\<close>), and
  the result is stored under the write lock (\<open>refresh_commit\<close>).
\<close>

definition refresh_snapshot :: "builder \<Rightarrow> enclave_keys" where
  "refresh_snapshot b = bu_keys b"

definition refresh_fetch ::
  "(nat \<Rightarrow> bool) \<Rightarrow> enclave_keys \<Rightarrow> string \<Rightarrow> dialer \<Rightarrow> string result" where
  "refresh_fetch pr k audience tee =
     (case FetchOIDC pr k audience tee of
        Inl err \<Rightarrow> Inl (Wrapf ''refresh OIDC'' err)
      | Inr token \<Rightarrow>
          (case verifyEatNonce pr token k of
             Inl err \<Rightarrow> Inl (Wrapf ''eat_nonce verification after refresh'' err)
           | Inr _ \<Rightarrow> Inr token))"

definition refresh_commit :: "string \<Rightarrow> int \<Rightarrow> builder \<Rightarrow> builder" where
  "refresh_commit token now b = b\<lparr>bu_oidcToken := token, bu_issuedAt := now\<rparr>"

definition RefreshOIDC ::
  "(nat \<Rightarrow> bool) \<Rightarrow> dialer \<Rightarrow> int \<Rightarrow> builder \<Rightarrow> unit result \<times> builder" where
  "RefreshOIDC pr tee now b =
     (let k = refresh_snapshot b in
      case refresh_fetch pr k (bu_audience b) tee of
        Inl err \<Rightarrow> (Inl err, b)
      | Inr token \<Rightarrow> (Inr (), refresh_commit token now b))"

definition rotate_fetch ::
  "(nat \<Rightarrow> bool) \<Rightarrow> enclave_keys result \<Rightarrow> string \<Rightarrow> dialer \<Rightarrow> (enclave_keys \<times> string) result" where
  "rotate_fetch pr generated audience tee =
     (case generated of
        Inl err \<Rightarrow> Inl (Wrapf ''generate new keys'' err)
      | Inr k \<Rightarrow>
          (case FetchOIDC pr k audience tee of
             Inl err \<Rightarrow> Inl (Wrapf ''fetch OIDC for rotated keys'' err)
           | Inr token \<Rightarrow>
               (case verifyEatNonce pr token k of
                  Inl err \<Rightarrow> Inl (Wrapf ''eat_nonce verification after rotation'' err)
                | Inr _ \<Rightarrow> Inr (k, token))))"

definition rotate_commit :: "enclave_keys \<Rightarrow> string \<Rightarrow> int \<Rightarrow> builder \<Rightarrow> builder" where
  "rotate_commit k token now b = b\<lparr>bu_keys := k, bu_oidcToken := token, bu_issuedAt := now\<rparr>"

definition FullRotate ::
  "(nat \<Rightarrow> bool) \<Rightarrow> enclave_keys result \<Rightarrow> dialer \<Rightarrow> int \<Rightarrow> builder \<Rightarrow> unit result \<times> builder" where
  "FullRotate pr generated tee now b =
     (case rotate_fetch pr generated (bu_audience b) tee of
        Inl err \<Rightarrow> (Inl err, b)
      | Inr (k, token) \<Rightarrow> (Inr (), rotate_commit k token now b))"

definition HPKEKeys :: "builder \<Rightarrow> bytes \<times> bytes" where
  "HPKEKeys b = (ek_HPKEPriv (bu_keys b), ek_HPKEPub (bu_keys b))"

section \<open>What a token says, and when it binds a key pair\<close>

text \<open>
  The nonces a token carries, read without reference to any key; a token binds a key pair when
  its first two nonces are the fingerprints of the pair.
\<close>

definition token_nonces :: "string \<Rightarrow> string list option" where
  "token_nonces token =
     (case split_on (CHR ''.'') token of
        [h, p, s] \<Rightarrow>
          (case b64_decode RawURLEncoding p of
             Inr payload \<Rightarrow>
               (case json_unmarshal (decode_struct eat_nonce_fields) JNull payload of
                  Inr v \<Rightarrow> (case toStringSlice v of Inr ns \<Rightarrow> Some ns | Inl _ \<Rightarrow> None)
                | Inl _ \<Rightarrow> None)
           | Inl _ \<Rightarrow> None)
      | _ \<Rightarrow> None)"

definition token_binds :: "string \<Rightarrow> enclave_keys \<Rightarrow> bool" where
  "token_binds token k =
     (case token_nonces token of
        Some (fp # hp # _) \<Rightarrow> fp = ek_BindingFingerprintB64URL k \<and> hp = ek_HPKEPubB64URL k
      | _ \<Rightarrow> False)"

lemma two_elements: "\<not> length xs < 2 \<Longrightarrow> \<exists>a b t. xs = a # b # t"
  by (cases xs; cases "tl xs") auto

lemma verify_iff_binds: "verifyEatNonce pr token k = Inr () \<longleftrightarrow> token_binds token k"
proof (cases "length (split_on (CHR ''.'') token) = 3")
  case True
  then obtain h p s where parts: "split_on (CHR ''.'') token = [h, p, s]"
    by (auto simp: numeral_eq_Suc length_Suc_conv)
  show ?thesis
    using two_elements
    by (fastforce simp: verifyEatNonce_def token_binds_def token_nonces_def parts Let_def
        split: sum.splits list.splits if_splits)
next
  case False
  then show ?thesis
    by (auto simp: verifyEatNonce_def token_binds_def token_nonces_def Let_def
        split: list.splits option.splits)
qed

section \<open>The invariant of the builder\<close>

definition builder_ok :: "builder \<Rightarrow> bool" where
  "builder_ok b = token_binds (bu_oidcToken b) (bu_keys b)"

lemma verify_Inr [simp]: "verifyEatNonce pr token k = Inr u \<longleftrightarrow> token_binds token k"
  by (cases u) (simp add: verify_iff_binds)

lemma verify_Inl: "verifyEatNonce pr token k = Inl e \<Longrightarrow> \<not> token_binds token k"
  by (metis Inl_Inr_False verify_iff_binds)

lemma refresh_fetch_binds: "refresh_fetch pr k aud tee = Inr token \<Longrightarrow> token_binds token k"
  by (auto simp: refresh_fetch_def split: sum.splits)

lemma rotate_fetch_binds: "rotate_fetch pr g aud tee = Inr (k, token) \<Longrightarrow> token_binds token k"
  by (auto simp: rotate_fetch_def split: sum.splits)

lemma refresh_commit_ok: "token_binds token (bu_keys b) \<Longrightarrow> builder_ok (refresh_commit token now b)"
  by (simp add: builder_ok_def refresh_commit_def)

lemma rotate_commit_ok: "token_binds token k \<Longrightarrow> builder_ok (rotate_commit k token now b)"
  by (simp add: builder_ok_def rotate_commit_def)

text \<open>The builder implements the interface of the rotator.\<close>

definition refresh_op ::
  "(nat \<Rightarrow> bool) \<Rightarrow> dialer \<times> int \<Rightarrow> builder \<Rightarrow> unit result \<times> builder" where
  "refresh_op pr e b = RefreshOIDC pr (fst e) (snd e) b"

definition rotate_op ::
  "(nat \<Rightarrow> bool) \<Rightarrow> enclave_keys result \<times> dialer \<times> int \<Rightarrow> builder \<Rightarrow> unit result \<times> builder" where
  "rotate_op pr g b = FullRotate pr (fst g) (fst (snd g)) (snd (snd g)) b"

interpretation store: credential_store "refresh_op pr" "rotate_op pr" builder_ok bu_keys
  by unfold_locales
    (auto simp: refresh_op_def rotate_op_def RefreshOIDC_def FullRotate_def Let_def
      refresh_snapshot_def refresh_commit_def split: sum.splits
      intro: refresh_commit_ok [unfolded refresh_commit_def] rotate_commit_ok
      dest: refresh_fetch_binds rotate_fetch_binds)

section \<open>What the browser checks\<close>

text \<open>
  The documented behaviour of the key package: the two strings are the base64url of the SHA-256
  of the public binding key and of the raw HPKE public key, and \<open>HPKEPub.Bytes()\<close> is that raw
  key.
\<close>

definition keys_documented :: "enclave_keys \<Rightarrow> bool" where
  "keys_documented k \<longleftrightarrow>
     ek_BindingFingerprintB64URL k = b64_encode RawURLEncoding (sha256 (ek_BindingSPKI k)) \<and>
     ek_HPKEPubB64URL k = b64_encode RawURLEncoding (ek_HPKEPubBytes k) \<and>
     ek_HPKEPub k = ek_HPKEPubBytes k"

text \<open>
  Step 5 of the verification that CONTEXT.md asks of the browser, on the bundle as received:
  \<open>eat_nonce[0] == base64url(sha256(binding key))\<close> and \<open>eat_nonce[1] == base64url(hpke key)\<close>.
\<close>

definition browser_binding_check :: "AttestBundle \<Rightarrow> bool" where
  "browser_binding_check ab =
     (case (token_nonces (ab_OIDCToken ab), b64_decode StdEncoding (ab_BindingPubkeyB64 ab),
            b64_decode StdEncoding (ab_HPKEPubkeyB64 ab)) of
        (Some (fp # hp # _), Inr spki, Inr pub) \<Rightarrow>
          fp = b64_encode RawURLEncoding (sha256 spki) \<and> hp = b64_encode RawURLEncoding pub
      | _ \<Rightarrow> False)"

lemma build_passes_browser:
  assumes "builder_ok b" and "keys_documented (bu_keys b)" and "Build b nonce = Inr ab"
  shows "browser_binding_check ab"
proof -
  obtain fp hp rest where "token_nonces (bu_oidcToken b) = Some (fp # hp # rest)"
    "fp = ek_BindingFingerprintB64URL (bu_keys b)" "hp = ek_HPKEPubB64URL (bu_keys b)"
    using assms(1) by (auto simp: builder_ok_def token_binds_def split: option.splits list.splits)
  then show ?thesis
    using assms(2,3)
    by (auto simp: Build_def browser_binding_check_def keys_documented_def std.dec_enc
        split: sum.splits)
qed

text \<open>The other direction: a token that does not name the keys never gets into the builder.\<close>

lemma NewBuilder_Inr:
  "NewBuilder pr gen tee now aud = Inr b \<longleftrightarrow>
     (\<exists>k token. gen = Inr k \<and> FetchOIDC pr k aud tee = Inr token \<and> token_binds token k \<and>
        b = \<lparr>bu_audience = aud, bu_keys = k, bu_oidcToken = token, bu_issuedAt = now\<rparr>)"
  by (auto simp: NewBuilder_def split: sum.splits dest: verify_Inl)

section \<open>An honest launcher\<close>

text \<open>
  A token as the launcher issues it: three base64url parts, the second one an object whose
  \<open>eat_nonce\<close> is the array of the requested nonces.
\<close>

definition nonce_claims :: "string \<Rightarrow> string \<Rightarrow> string" where
  "nonce_claims fp hp = json_object [(''eat_nonce'', json_array [json_string fp, json_string hp])]"

definition honest_token :: "bytes \<Rightarrow> string \<Rightarrow> string \<Rightarrow> bytes \<Rightarrow> string" where
  "honest_token hdr fp hp sig =
     b64_encode RawURLEncoding hdr @ ''.''
       @ b64_encode RawURLEncoding (bytes_of (nonce_claims fp hp)) @ ''.''
       @ b64_encode RawURLEncoding sig"

lemma split_three_parts:
  "split_on (CHR ''.'') (b64_encode e a @ ''.'' @ b64_encode e b @ ''.'' @ b64_encode e c) =
     [b64_encode e a, b64_encode e b, b64_encode e c]"
  by (simp add: split_on_append b64_encode_no_dot split_on_none)

lemma parse_nonce_claims:
  "json_parse (nonce_claims fp hp) =
     Some (JObj [(''eat_nonce'', JArr [JStr (utf8_fix fp), JStr (utf8_fix hp)])])"
proof -
  let ?a = "json_array [json_string fp, json_string hp]"
  let ?v = "JArr [JStr (utf8_fix fp), JStr (utf8_fix hp)]"
  have k: "utf8_fix ''eat_nonce'' = ''eat_nonce''"
    by (intro utf8_fix_ascii) (simp add: is_ascii_def)
  have "encodes 4 ?a ?v"
    using encodes_array [of "[(json_string fp, JStr (utf8_fix fp)), (json_string hp, JStr (utf8_fix hp))]" 1]
    by (simp add: encodes_string [simplified] eval_nat_numeral)
  then have "encodes 6 (nonce_claims fp hp) (JObj [(''eat_nonce'', ?v)])"
    using encodes_object [of "[(''eat_nonce'', ?a, ?v)]" 4] by (simp add: nonce_claims_def k eval_nat_numeral)
  moreover have "6 \<le> 2 * length (nonce_claims fp hp) + 2"
    by (simp add: nonce_claims_def json_object_def json_pair_def json_string_def json_array_def)
  ultimately show ?thesis
    by (rule encodes_json_parse) (simp add: max_nesting_depth_def)
qed

lemma honest_token_nonces:
  assumes "valid_utf8 fp" and "valid_utf8 hp"
  shows "token_nonces (honest_token hdr fp hp sig) = Some [fp, hp]"
proof -
  have "json_unmarshal (decode_struct eat_nonce_fields) JNull (bytes_of (nonce_claims fp hp)) =
      Inr (JArr [JStr fp, JStr hp])"
    using assms
    by (simp add: json_unmarshal_def parse_nonce_claims setter_defs eat_nonce_fields_def
        find_field_def valid_utf8_def)
  then show ?thesis
    by (simp add: token_nonces_def honest_token_def split_three_parts [simplified] rawurl.dec_enc
        toStringSlice_def)
qed

text \<open>
  The launcher listens on its socket and answers with the token itself.  It is no JSON text (it starts with \<open>e\<close>), so it is
  taken as it is, and base64url and dots contain no white space to trim.
\<close>

definition honest_tee :: "string \<Rightarrow> dialer" where
  "honest_tee token network address rq =
     (if network = ''unix'' \<and> address = socketPath
      then Inr \<lparr>pr_status = 200, pr_body = \<lparr>st_data = bytes_of token, st_end = EOF\<rparr>\<rparr>
      else Inl (Lib (LibError ''connection refused'')))"

lemma enc_char_jwt: "v < 64 \<Longrightarrow> is_jwt_char (enc_char u v)"
  by (auto simp: enc_char_def is_jwt_char_def)

lemma b64_encode_jwt: "list_all is_jwt_char (b64_encode e bs)"
  by (induction e bs rule: b64_encode.induct)
    (simp_all add: Let_def enc_char_jwt is_jwt_char_def [of "CHR ''=''"])

lemma honest_token_jwt: "list_all is_jwt_char (honest_token hdr fp hp sig)"
  by (simp add: honest_token_def b64_encode_jwt) (simp add: is_jwt_char_def)

lemma json_parse_letter_e: "json_parse (CHR ''e'' # s) = None"
  by (simp add: json_parse_def skip_ws_def is_ws_def scan_number_def scan_int_def scan_digits_def
      is_digit_def Let_def)

lemma extract_honest:
  assumes "has_prefix token ''eyJ''" and "list_all is_jwt_char token"
  shows "extractToken (bytes_of token) = token"
proof -
  obtain s where s: "token = CHR ''e'' # s"
    using assms(1) by (auto simp: has_prefix_iff)
  then have "json_unmarshal (decode_struct envelope_fields) [] (bytes_of token) = Inl (Lib JsonSyntax)"
    by (simp add: json_unmarshal_def json_parse_letter_e)
  then show ?thesis
    using trim_space_jwt [OF assms(2)] s by (simp add: extractToken_def)
qed

lemma honest_fetch:
  assumes "has_prefix token ''eyJ''" and "list_all is_jwt_char token" and "length token < 2 ^ 20"
  shows "FetchOIDC pr k aud (honest_tee token) = Inr token"
  using assms extract_honest [OF assms(1,2)]
  by (simp add: FetchOIDC_Inr honest_tee_def read_limited_def read_all_def)

lemma honest_binds:
  assumes "valid_utf8 (ek_BindingFingerprintB64URL k)" and "valid_utf8 (ek_HPKEPubB64URL k)"
  shows "token_binds (honest_token hdr (ek_BindingFingerprintB64URL k) (ek_HPKEPubB64URL k) sig) k"
  using assms by (simp add: token_binds_def honest_token_nonces)

lemma valid_utf8_b64: "valid_utf8 (b64_encode e bs)"
proof (rule valid_utf8_ascii)
  show "list_all is_ascii (b64_encode e bs)"
    using b64_encode_jwt [of e bs] by (auto simp: list_all_iff is_jwt_char_def is_ascii_def)
qed

lemma enc_char_plain: "v < 64 \<Longrightarrow> plain_char (enc_char u v)"
  by (auto simp: enc_char_def plain_char_def char_eq_code)

lemma b64_encode_plain: "list_all plain_char (b64_encode e bs)"
  by (induction e bs rule: b64_encode.induct)
    (simp_all add: Let_def enc_char_plain plain_char_def [of "CHR ''=''"])

text \<open>A token whose header is an object starts with \<open>eyJ\<close>: its first bytes are a brace, a quote and a letter.\<close>

definition jwt_head :: bytes where
  "jwt_head = [0x7B, 0x22, 0x61]"

lemma honest_token_prefix: "has_prefix (honest_token (jwt_head @ hdr) fp hp sig) ''eyJ''"
proof -
  have "group_value [0x7B, 0x22, 0x61] = 8069729"
    by (simp add: group_value_simps)
  then show ?thesis
    by (simp add: has_prefix_def honest_token_def jwt_head_def Let_def sextet_def enc_char_def
        char_eq_code)
qed

lemma honest_NewBuilder:
  assumes "keys_documented k"
    and "token = honest_token (jwt_head @ hdr) (ek_BindingFingerprintB64URL k) (ek_HPKEPubB64URL k) sig"
    and "length token < 2 ^ 20"
  shows "NewBuilder pr (Inr k) (honest_tee token) now aud =
           Inr \<lparr>bu_audience = aud, bu_keys = k, bu_oidcToken = token, bu_issuedAt = now\<rparr>"
proof -
  have "FetchOIDC pr k aud (honest_tee token) = Inr token"
    using assms(2,3) by (intro honest_fetch) (simp_all add: honest_token_prefix honest_token_jwt)
  moreover have "token_binds token k"
    unfolding assms(2)
    by (rule honest_binds) (use assms(1) in \<open>simp_all add: keys_documented_def valid_utf8_b64\<close>)
  ultimately show ?thesis
    by (simp add: NewBuilder_Inr)
qed

lemma length_honest_token:
  "length (honest_token hdr fp hp sig) =
     (4 * length hdr + 2) div 3 + (4 * length (nonce_claims fp hp) + 2) div 3
       + (4 * length sig + 2) div 3 + 2"
  by (simp add: honest_token_def rawurl_length)

end
