(* ===== verification/Rotation.thy ===== *)
theory Rotation
  imports Bundle
begin

text \<open>
  \<open>internal/rotation/rotation.go\<close>: the loop that refreshes the OIDC token and rotates the keys.

  \<open>Start\<close> runs over the events its \<open>select\<close> receives, in whatever order they come; each event
  carries the answers the called operation gets from outside.  \<open>rot_step\<close> is the same loop in
  the lock-protected steps of \<open>bundle.go\<close>, interleaved with handlers that read the builder, for
  any number of goroutines that might run it.
\<close>

section \<open>The loop\<close>

text \<open>A \<open>time.Duration\<close> counts nanoseconds.\<close>

definition second :: int where
  "second = 10 ^ 9"

definition minute :: int where
  "minute = 60 * second"

definition hour :: int where
  "hour = 60 * minute"

record Config =
  cf_OIDCEvery :: int
  cf_FullEvery :: int

definition DefaultConfig :: Config where
  "DefaultConfig = \<lparr>cf_OIDCEvery = 45 * minute, cf_FullEvery = 24 * hour\<rparr>"

record Rotator =
  ro_builder :: builder
  ro_cfg :: Config

definition NewRotator :: "builder \<Rightarrow> Config \<Rightarrow> Rotator" where
  "NewRotator b cfg = \<lparr>ro_builder = b, ro_cfg = cfg\<rparr>"

datatype rot_event =
    CtxDone
  | FullTick "enclave_keys result" dialer int
  | OidcTick dialer int

datatype rot_outcome = Running | Returned | Panicked

text \<open>
  The loop's result: whether it returned, the builder, and the lines it logged.
\<close>

fun rot_loop ::
  "(nat \<Rightarrow> bool) \<Rightarrow> (lib_error \<Rightarrow> string) \<Rightarrow> rot_event list \<Rightarrow> builder \<Rightarrow> string list \<Rightarrow>
   rot_outcome \<times> builder \<times> string list" where
  "rot_loop pr lt [] b log = (Running, b, log)"
| "rot_loop pr lt (CtxDone # evs) b log = (Returned, b, log)"
| "rot_loop pr lt (FullTick gen tee now # evs) b log =
     (case FullRotate pr gen tee now b of
        (Inl err, b') \<Rightarrow>
          rot_loop pr lt evs b' (log @ [''rotation: full rotate failed: '' @ err_text lt err])
      | (Inr _, b') \<Rightarrow> rot_loop pr lt evs b' (log @ [''rotation: full key rotation complete'']))"
| "rot_loop pr lt (OidcTick tee now # evs) b log =
     (case RefreshOIDC pr tee now b of
        (Inl err, b') \<Rightarrow>
          rot_loop pr lt evs b' (log @ [''rotation: OIDC refresh failed: '' @ err_text lt err])
      | (Inr _, b') \<Rightarrow> rot_loop pr lt evs b' (log @ [''rotation: OIDC token refreshed'']))"

text \<open>\<open>time.NewTicker\<close> panics on a period that is not positive.\<close>

definition Start ::
  "(nat \<Rightarrow> bool) \<Rightarrow> (lib_error \<Rightarrow> string) \<Rightarrow> Rotator \<Rightarrow> rot_event list \<Rightarrow>
   rot_outcome \<times> builder \<times> string list" where
  "Start pr lt r evs =
     (if cf_OIDCEvery (ro_cfg r) \<le> 0 \<or> cf_FullEvery (ro_cfg r) \<le> 0
      then (Panicked, ro_builder r, [])
      else rot_loop pr lt evs (ro_builder r) [])"

section \<open>The loop as calls of the store\<close>

fun calls_of :: "rot_event list \<Rightarrow> (dialer \<times> int, enclave_keys result \<times> dialer \<times> int) rot_call list" where
  "calls_of [] = []"
| "calls_of (CtxDone # evs) = []"
| "calls_of (FullTick gen tee now # evs) = CallRenew (gen, tee, now) # calls_of evs"
| "calls_of (OidcTick tee now # evs) = CallRefresh (tee, now) # calls_of evs"

lemma rot_loop_calls:
  "fst (snd (rot_loop pr lt evs b log)) = run_calls (refresh_op pr) (rotate_op pr) (calls_of evs) b"
  by (induction pr lt evs b log rule: rot_loop.induct)
    (auto simp: refresh_op_def rotate_op_def split: prod.splits sum.splits)

lemma Start_builder:
  "fst (snd (Start pr lt r evs)) =
     (if cf_OIDCEvery (ro_cfg r) \<le> 0 \<or> cf_FullEvery (ro_cfg r) \<le> 0 then ro_builder r
      else run_calls (refresh_op pr) (rotate_op pr) (calls_of evs) (ro_builder r))"
  by (simp add: Start_def rot_loop_calls)

lemma calls_of_cut: "calls_of (es @ CtxDone # evs) = calls_of es"
  by (induction es rule: calls_of.induct) auto

text \<open>
  The log tells what succeeded: without the line of a successful rotation the keys are the old ones,
  and without a line of success of either kind nothing has changed.
\<close>

lemma rot_loop_log: "set log \<subseteq> set (snd (snd (rot_loop pr lt evs b log)))"
  by (induction pr lt evs b log rule: rot_loop.induct) (auto split: prod.splits sum.splits)

lemma FullRotate_Inl: "FullRotate pr gen tee now b = (Inl err, b') \<Longrightarrow> b' = b"
  by (auto simp: FullRotate_def split: sum.splits)

lemma RefreshOIDC_Inl: "RefreshOIDC pr tee now b = (Inl err, b') \<Longrightarrow> b' = b"
  by (auto simp: RefreshOIDC_def Let_def split: sum.splits)

lemma RefreshOIDC_keys: "RefreshOIDC pr tee now b = (res, b') \<Longrightarrow> bu_keys b' = bu_keys b"
  by (auto simp: RefreshOIDC_def refresh_commit_def Let_def split: sum.splits)

lemma rot_loop_keys:
  "''rotation: full key rotation complete'' \<notin> set (snd (snd (rot_loop pr lt evs b log))) \<Longrightarrow>
   bu_keys (fst (snd (rot_loop pr lt evs b log))) = bu_keys b"
proof (induction pr lt evs b log rule: rot_loop.induct)
  case (3 pr lt gen tee now evs b log)
  show ?case
  proof (cases "FullRotate pr gen tee now b")
    case (Pair res b')
    then show ?thesis
      using 3 rot_loop_log [of "log @ [''rotation: full key rotation complete'']" pr lt evs b']
        FullRotate_Inl [of pr gen tee now b]
      by (cases res) auto
  qed
next
  case (4 pr lt tee now evs b log)
  show ?case
  proof (cases "RefreshOIDC pr tee now b")
    case (Pair res b')
    then show ?thesis
      using 4 RefreshOIDC_keys [OF Pair] by (cases res) auto
  qed
qed simp_all

lemma rot_loop_unchanged:
  "''rotation: full key rotation complete'' \<notin> set (snd (snd (rot_loop pr lt evs b log))) \<Longrightarrow>
   ''rotation: OIDC token refreshed'' \<notin> set (snd (snd (rot_loop pr lt evs b log))) \<Longrightarrow>
   fst (snd (rot_loop pr lt evs b log)) = b"
proof (induction pr lt evs b log rule: rot_loop.induct)
  case (3 pr lt gen tee now evs b log)
  show ?case
  proof (cases "FullRotate pr gen tee now b")
    case (Pair res b')
    then show ?thesis
      using 3 rot_loop_log [of "log @ [''rotation: full key rotation complete'']" pr lt evs b']
        FullRotate_Inl [of pr gen tee now b]
      by (cases res) auto
  qed
next
  case (4 pr lt tee now evs b log)
  show ?case
  proof (cases "RefreshOIDC pr tee now b")
    case (Pair res b')
    then show ?thesis
      using 4 rot_loop_log [of "log @ [''rotation: OIDC token refreshed'']" pr lt evs b']
        RefreshOIDC_Inl [of pr tee now b]
      by (cases res) auto
  qed
qed simp_all

section \<open>The loop in lock-protected steps\<close>

datatype rot_pc = RIdle | RFetching enclave_keys | RRotating

record rot_world =
  rw_builder :: builder
  rw_pcs :: "nat \<Rightarrow> rot_pc"
  rw_served :: "(AttestBundle \<times> enclave_keys) list"

text \<open>
  The goroutines in \<open>G\<close> run the loop; any handler may build a bundle between two steps.
\<close>

inductive rot_step :: "(nat \<Rightarrow> bool) \<Rightarrow> nat set \<Rightarrow> rot_world \<Rightarrow> rot_world \<Rightarrow> bool"
  for pr G where
  oidc_tick:
    "i \<in> G \<Longrightarrow> rw_pcs w i = RIdle \<Longrightarrow>
     rot_step pr G w (w\<lparr>rw_pcs := (rw_pcs w)(i := RFetching (refresh_snapshot (rw_builder w)))\<rparr>)"
| refresh_done:
    "i \<in> G \<Longrightarrow> rw_pcs w i = RFetching k \<Longrightarrow>
     refresh_fetch pr k (bu_audience (rw_builder w)) tee = Inr token \<Longrightarrow>
     rot_step pr G w (w\<lparr>rw_builder := refresh_commit token now (rw_builder w),
                        rw_pcs := (rw_pcs w)(i := RIdle)\<rparr>)"
| refresh_failed:
    "i \<in> G \<Longrightarrow> rw_pcs w i = RFetching k \<Longrightarrow>
     refresh_fetch pr k (bu_audience (rw_builder w)) tee = Inl err \<Longrightarrow>
     rot_step pr G w (w\<lparr>rw_pcs := (rw_pcs w)(i := RIdle)\<rparr>)"
| full_tick:
    "i \<in> G \<Longrightarrow> rw_pcs w i = RIdle \<Longrightarrow>
     rot_step pr G w (w\<lparr>rw_pcs := (rw_pcs w)(i := RRotating)\<rparr>)"
| rotate_done:
    "i \<in> G \<Longrightarrow> rw_pcs w i = RRotating \<Longrightarrow>
     rotate_fetch pr gen (bu_audience (rw_builder w)) tee = Inr (k, token) \<Longrightarrow>
     rot_step pr G w (w\<lparr>rw_builder := rotate_commit k token now (rw_builder w),
                        rw_pcs := (rw_pcs w)(i := RIdle)\<rparr>)"
| rotate_failed:
    "i \<in> G \<Longrightarrow> rw_pcs w i = RRotating \<Longrightarrow>
     rotate_fetch pr gen (bu_audience (rw_builder w)) tee = Inl err \<Longrightarrow>
     rot_step pr G w (w\<lparr>rw_pcs := (rw_pcs w)(i := RIdle)\<rparr>)"
| serve:
    "Build (rw_builder w) nonce = Inr ab \<Longrightarrow>
     rot_step pr G w (w\<lparr>rw_served := (ab, bu_keys (rw_builder w)) # rw_served w\<rparr>)"

definition rot_init :: "builder \<Rightarrow> rot_world" where
  "rot_init b = \<lparr>rw_builder = b, rw_pcs = (\<lambda>_. RIdle), rw_served = []\<rparr>"

inductive rot_reachable :: "(nat \<Rightarrow> bool) \<Rightarrow> nat set \<Rightarrow> builder \<Rightarrow> rot_world \<Rightarrow> bool"
  for pr G b where
  rot_start: "rot_reachable pr G b (rot_init b)"
| rot_next: "rot_reachable pr G b w \<Longrightarrow> rot_step pr G w w' \<Longrightarrow> rot_reachable pr G b w'"

text \<open>
  What holds with one goroutine in the loop: the token binds the keys, a snapshot in flight is
  still current, and every bundle served so far binds the keys it was built from.
\<close>

definition rot_inv :: "nat set \<Rightarrow> rot_world \<Rightarrow> bool" where
  "rot_inv G w \<longleftrightarrow>
     builder_ok (rw_builder w) \<and>
     (\<forall>i \<in> G. \<forall>k. rw_pcs w i = RFetching k \<longrightarrow> k = bu_keys (rw_builder w)) \<and>
     (\<forall>(ab, k) \<in> set (rw_served w). token_binds (ab_OIDCToken ab) k)"

lemma commit_keys [simp]:
  "bu_keys (refresh_commit token now b) = bu_keys b"
  "bu_keys (rotate_commit k token now b) = k"
  by (simp_all add: refresh_commit_def rotate_commit_def)

lemma Build_token: "Build b nonce = Inr ab \<Longrightarrow> ab_OIDCToken ab = bu_oidcToken b"
  by (auto simp: Build_def split: sum.splits)

lemma rot_step_inv:
  assumes "rot_step pr {g} w w'" and "rot_inv {g} w"
  shows "rot_inv {g} w'"
  using assms
proof (induction rule: rot_step.induct)
  case (refresh_done i w k tee token now)
  then have "token_binds token (bu_keys (rw_builder w))"
    using refresh_fetch_binds [OF refresh_done(3)] by (auto simp: rot_inv_def)
  then show ?case
    using refresh_done by (auto simp: rot_inv_def intro: refresh_commit_ok)
next
  case (rotate_done i w gen tee k token now)
  then have "builder_ok (rotate_commit k token now (rw_builder w))"
    by (intro rotate_commit_ok rotate_fetch_binds)
  then show ?case
    using rotate_done by (auto simp: rot_inv_def)
next
  case (serve w nonce ab)
  then show ?case
    using Build_token [OF serve(1)] by (auto simp: rot_inv_def builder_ok_def)
qed (auto simp: rot_inv_def refresh_snapshot_def)

lemma rot_reachable_inv:
  assumes "rot_reachable pr {g} b w" and "builder_ok b"
  shows "rot_inv {g} w"
  using assms(1)
proof (induction rule: rot_reachable.induct)
  case rot_start
  with assms(2) show ?case by (simp add: rot_inv_def rot_init_def)
next
  case (rot_next w w')
  then show ?case by (blast intro: rot_step_inv)
qed

text \<open>
  The loop is safe because one goroutine runs it: with two, a refresh that started before a
  rotation stores a token for the keys that are gone.
\<close>

definition race_keys :: "string \<Rightarrow> enclave_keys" where
  "race_keys fp =
     \<lparr>ek_BindingSPKI = [], ek_HPKEPriv = [], ek_HPKEPub = [], ek_HPKEPubBytes = [],
      ek_BindingFingerprintB64URL = fp, ek_HPKEPubB64URL = ''hp'', ek_SignNonce = Inr\<rparr>"

definition race_token :: "string \<Rightarrow> string" where
  "race_token fp = honest_token jwt_head fp ''hp'' []"

definition race_builder :: builder where
  "race_builder =
     \<lparr>bu_audience = ''aud'', bu_keys = race_keys ''old'', bu_oidcToken = race_token ''old'',
      bu_issuedAt = 0\<rparr>"

lemma race_valid: "valid_utf8 ''old'' \<and> valid_utf8 ''new'' \<and> valid_utf8 ''hp''"
  by (simp add: valid_utf8_ascii is_ascii_def)

lemma race_binds: "valid_utf8 fp \<Longrightarrow> token_binds (race_token fp) (race_keys fp') \<longleftrightarrow> fp = fp'"
  using race_valid
  by (simp add: token_binds_def race_token_def race_keys_def honest_token_nonces)

lemma race_other: "\<not> token_binds (race_token ''old'') (race_keys ''new'')"
  using race_binds [of "''old''" "''new''"] race_valid by simp

lemma race_fetch:
  assumes "fp = ''old'' \<or> fp = ''new''"
  shows "FetchOIDC pr k aud (honest_tee (race_token fp)) = Inr (race_token fp)"
proof (rule honest_fetch)
  show "has_prefix (race_token fp) ''eyJ''"
    using honest_token_prefix [of "[]"] by (simp add: race_token_def)
  show "list_all is_jwt_char (race_token fp)"
    by (simp add: race_token_def honest_token_jwt)
  have "length (nonce_claims fp ''hp'') < 1000"
    using assms
    by (auto simp: nonce_claims_def json_object_def json_pair_def json_array_def json_string_def
        is_ascii_def esc_char_def)
  then show "length (race_token fp) < 2 ^ 20"
    by (simp add: race_token_def length_honest_token jwt_head_def)
qed

lemma two_rotators_race:
  "\<exists>w. rot_reachable pr {0, 1} race_builder w \<and> \<not> builder_ok (rw_builder w)"
proof -
  let ?b = race_builder
  let ?w0 = "rot_init ?b"
  let ?w1 = "?w0\<lparr>rw_pcs := (rw_pcs ?w0)(0 := RFetching (bu_keys ?b))\<rparr>"
  let ?w2 = "?w1\<lparr>rw_pcs := (rw_pcs ?w1)(1 := RRotating)\<rparr>"
  let ?b3 = "rotate_commit (race_keys ''new'') (race_token ''new'') 1 ?b"
  let ?w3 = "?w2\<lparr>rw_builder := ?b3, rw_pcs := (rw_pcs ?w2)(1 := RIdle)\<rparr>"
  let ?b4 = "refresh_commit (race_token ''old'') 2 ?b3"
  let ?w4 = "?w3\<lparr>rw_builder := ?b4, rw_pcs := (rw_pcs ?w3)(0 := RIdle)\<rparr>"
  have s1: "rot_step pr {0, 1} ?w0 ?w1"
    using rot_step.oidc_tick [of 0 "{0, 1}" ?w0 pr]
    by (simp add: rot_init_def refresh_snapshot_def)
  have s2: "rot_step pr {0, 1} ?w1 ?w2"
    by (rule rot_step.full_tick) (simp_all add: rot_init_def)
  have "rotate_fetch pr (Inr (race_keys ''new'')) a (honest_tee (race_token ''new'')) =
      Inr (race_keys ''new'', race_token ''new'')" for a
    using race_fetch [of "''new''"] race_binds [of "''new''"] race_valid
    by (simp add: rotate_fetch_def split: sum.split) (blast dest: verify_Inl)
  then have s3: "rot_step pr {0, 1} ?w2 ?w3"
    using rot_step.rotate_done [of 1 "{0, 1}" ?w2 pr "Inr (race_keys ''new'')"
        "honest_tee (race_token ''new'')" "race_keys ''new''" "race_token ''new''" 1]
    by (simp add: rot_init_def)
  have "refresh_fetch pr (race_keys ''old'') a (honest_tee (race_token ''old'')) =
      Inr (race_token ''old'')" for a
    using race_fetch [of "''old''"] race_binds [of "''old''"] race_valid
    by (simp add: refresh_fetch_def split: sum.split) (blast dest: verify_Inl)
  then have s4: "rot_step pr {0, 1} ?w3 ?w4"
    using rot_step.refresh_done [of 0 "{0, 1}" ?w3 "race_keys ''old''" pr
        "honest_tee (race_token ''old'')" "race_token ''old''" 2]
    by (simp add: rot_init_def race_builder_def)
  have "rot_reachable pr {0, 1} ?b ?w4"
    by (rule rot_reachable.rot_next [OF _ s4], rule rot_reachable.rot_next [OF _ s3], rule rot_reachable.rot_next [OF _ s2],
        rule rot_reachable.rot_next [OF rot_reachable.rot_start s1])
  moreover have "\<not> builder_ok (rw_builder ?w4)"
    by (simp add: builder_ok_def refresh_commit_def rotate_commit_def race_other)
  ultimately show ?thesis
    by (intro exI conjI)
qed

end
