(* ===== verification/Env.thy ===== *)
theory Env
  imports Hpke Rotation
begin

text \<open>
  What the server's handlers share: the state that outlives a request (the builder, the cache of
  signing keys, the requests handed to the HTTP client so far) and the environment of one
  request.  The environment holds what is not code of this repository: the peers' answers, the
  clock, the wording of library errors, the cryptographic primitives.  Every definition that
  uses it takes it as its argument \<open>E\<close>.
\<close>

section \<open>Keys and time\<close>

text \<open>\<open>rsa.PublicKey\<close>: the modulus is a \<open>big.Int\<close>, the exponent a Go \<open>int\<close> (64 bits).\<close>

record rsa_key =
  rsa_N :: nat
  rsa_E :: "64 word"

text \<open>
  A \<open>time.Time\<close> is its count of nanoseconds since the Unix epoch.  The zero value is midnight of
  1 January of year 1.  \<open>time.Since\<close> saturates at the bounds of \<open>int64\<close>.
\<close>

definition zero_time :: int where
  "zero_time = - 62135596800 * 10 ^ 9"

definition time_since :: "int \<Rightarrow> int \<Rightarrow> int" where
  "time_since now t = max (- (2 ^ 63)) (min (2 ^ 63 - 1) (now - t))"

definition unix_seconds :: "int \<Rightarrow> int" where
  "unix_seconds now = now div 10 ^ 9"

text \<open>The places where a request reads the clock; each is passed at most once.\<close>

datatype clock_site = FastPath | SlowPath | AfterFetch | ExpiryCheck | ResponseStamp

section \<open>The environment of a request\<close>

type_synonym aead_open = "bytes \<Rightarrow> bytes \<Rightarrow> bytes \<Rightarrow> bytes result"

record env =
  e_net :: net
  e_clock :: "clock_site \<Rightarrow> int"
  e_lib_text :: "lib_error \<Rightarrow> string"
  e_is_print :: "nat \<Rightarrow> bool"
  e_hpke :: hpke_lib
  e_aes :: "bytes \<Rightarrow> (bytes \<Rightarrow> bytes) result"
  e_gcm :: "(bytes \<Rightarrow> bytes) \<Rightarrow> aead_open result"
  e_rsa_verify :: "rsa_key \<Rightarrow> bytes \<Rightarrow> bytes \<Rightarrow> bool"
  e_url_ok :: "string \<Rightarrow> bool"
  e_redirect_code :: nat
  e_redirect_url :: "http_request \<Rightarrow> string \<Rightarrow> string"
  e_redirect_body :: "http_request \<Rightarrow> string \<Rightarrow> string"

section \<open>The state of the server\<close>

record jwksCache =
  jc_keys :: "string \<Rightarrow> rsa_key option"
  jc_fetchedAt :: int

definition empty_cache :: jwksCache where
  "empty_cache = \<lparr>jc_keys = (\<lambda>_. None), jc_fetchedAt = zero_time\<rparr>"

record server_state =
  sv_builder :: builder
  sv_jwks :: jwksCache
  sv_sent :: "out_request list"

text \<open>One call of \<open>http.DefaultClient\<close>: it is recorded, and it returns what the client returns.\<close>

definition http_do :: "env \<Rightarrow> out_request \<Rightarrow> server_state \<Rightarrow> peer_response result \<times> server_state" where
  "http_do E rq s = (e_net E rq, s\<lparr>sv_sent := sv_sent s @ [rq]\<rparr>)"

definition get_request :: "string \<Rightarrow> out_request" where
  "get_request url = \<lparr>or_method = ''GET'', or_url = url, or_header = [], or_body = []\<rparr>"

lemma http_do_simps [simp]:
  "fst (http_do E rq s) = e_net E rq"
  "sv_builder (snd (http_do E rq s)) = sv_builder s"
  "sv_jwks (snd (http_do E rq s)) = sv_jwks s"
  "sv_sent (snd (http_do E rq s)) = sv_sent s @ [rq]"
  by (simp_all add: http_do_def)

section \<open>What a handler may do to the state\<close>

text \<open>
  The requests a handler hands to the client between two states, when it only appends to them.
\<close>

definition sends :: "server_state \<Rightarrow> server_state \<Rightarrow> out_request list \<Rightarrow> bool" where
  "sends s s' rqs \<longleftrightarrow> sv_sent s' = sv_sent s @ rqs \<and> sv_builder s' = sv_builder s"

lemma sends_refl [simp]: "sends s s []"
  by (simp add: sends_def)

lemma sends_trans: "sends s t xs \<Longrightarrow> sends t u ys \<Longrightarrow> sends s u (xs @ ys)"
  by (simp add: sends_def)

lemma sends_http_do [simp]: "sends s (snd (http_do E rq s)) [rq]"
  by (simp add: sends_def)

lemma sends_unique: "sends s s' xs \<Longrightarrow> sends s s' ys \<Longrightarrow> xs = ys"
  by (simp add: sends_def)

section \<open>A concrete environment for witnesses\<close>

text \<open>
  A toy cipher that carries the nonce and the additional data in front of the plaintext, and an
  environment around it and \<open>toy_hpke\<close> in which a signature is valid when it repeats the digest.
  They serve in witnesses only.
\<close>

definition toy_seal :: "bytes \<Rightarrow> bytes \<Rightarrow> bytes \<Rightarrow> bytes" where
  "toy_seal nonce pt aad = toy_tag nonce aad @ pt"

definition toy_open :: aead_open where
  "toy_open nonce ct aad =
     (if has_prefix ct (toy_tag nonce aad) then Inr (drop (length (toy_tag nonce aad)) ct)
      else Inl (Lib (LibError ''message authentication failed'')))"

definition toy_env :: "net \<Rightarrow> int \<Rightarrow> env" where
  "toy_env net now =
     \<lparr>e_net = net, e_clock = (\<lambda>_. now), e_lib_text = (\<lambda>_. ''library error''),
      e_is_print = (\<lambda>_. False), e_hpke = toy_hpke, e_aes = (\<lambda>key. Inr (\<lambda>b. key)),
      e_gcm = (\<lambda>block. Inr toy_open), e_rsa_verify = (\<lambda>key digest sig. digest = sig),
      e_url_ok = (\<lambda>_. True), e_redirect_code = 307, e_redirect_url = (\<lambda>r p. p),
      e_redirect_body = (\<lambda>r p. [])\<rparr>"

lemma toy_env_simps [simp]:
  "e_net (toy_env net now) = net"
  "e_clock (toy_env net now) site = now"
  "e_hpke (toy_env net now) = toy_hpke"
  "e_aes (toy_env net now) key = Inr (\<lambda>b. key)"
  "e_gcm (toy_env net now) block = Inr toy_open"
  "e_rsa_verify (toy_env net now) rk digest sig \<longleftrightarrow> digest = sig"
  by (simp_all add: toy_env_def)

lemma toy_open_iff: "toy_open nonce ct aad = Inr pt \<longleftrightarrow> ct = toy_seal nonce pt aad"
  by (auto simp: toy_open_def toy_seal_def has_prefix_iff)

end
