(* ===== verification/Frames.thy ===== *)
theory Frames
  imports Env
begin

text \<open>
  Length-prefixed frames on a stream, as the chunked upload uses them: four big-endian bytes with
  the length, then that many bytes.

  The locale \<open>frame_codec\<close> is the contract between a writer and a reader of one item: the reader
  succeeds exactly on what the writer produces, and leaves the rest of the stream.  From it
  follow that items are prefix-free and that a sequence of items reads back.  It is interpreted on
  the 32-bit length and on the chunk frame.
\<close>

locale frame_codec =
  fixes put :: "'a \<Rightarrow> bytes"
    and get :: "stream \<Rightarrow> ('a \<times> stream) result"
    and ok :: "'a \<Rightarrow> bool"
  assumes get_iff:
    "get st = Inr (x, st') \<longleftrightarrow>
       ok x \<and> (\<exists>t. st_data st = put x @ t \<and> st' = st\<lparr>st_data := t\<rparr>)"
begin

lemma get_put: "ok x \<Longrightarrow> get (st\<lparr>st_data := put x @ t\<rparr>) = Inr (x, st\<lparr>st_data := t\<rparr>)"
  by (simp add: get_iff)

lemma prefix_free:
  assumes "ok x" and "ok y" and "put x @ s = put y @ t"
  shows "x = y \<and> s = t"
proof -
  let ?st = "\<lparr>st_data = [], st_end = EOF\<rparr>"
  have "get (?st\<lparr>st_data := put x @ s\<rparr>) = Inr (x, ?st\<lparr>st_data := s\<rparr>)"
    using assms(1) by (rule get_put)
  moreover have "get (?st\<lparr>st_data := put y @ t\<rparr>) = Inr (y, ?st\<lparr>st_data := t\<rparr>)"
    using assms(2) by (rule get_put)
  ultimately show ?thesis
    using assms(3) by simp
qed

lemma put_inject: "ok x \<Longrightarrow> ok y \<Longrightarrow> put x = put y \<Longrightarrow> x = y"
  using prefix_free [of x y "[]" "[]"] by simp

lemma put_list_inject:
  "list_all ok xs \<Longrightarrow> list_all ok ys \<Longrightarrow> length xs = length ys \<Longrightarrow>
   concat (map put xs) @ s = concat (map put ys) @ t \<Longrightarrow> xs = ys \<and> s = t"
proof (induction xs ys rule: list_induct2')
  case (4 x xs y ys)
  then show ?case
    using prefix_free [of x y "concat (map put xs) @ s" "concat (map put ys) @ t"] by simp
qed simp_all

end

section \<open>The length\<close>

lemma put_get_u32: "length bs = 4 \<Longrightarrow> put_u32 (get_u32 bs) = bs"
proof -
  assume len: "length bs = 4"
  have "be_value bs < 256 ^ 4"
    using be_value_less [of bs] len by simp
  then have "unat (get_u32 bs) = be_value bs"
    by (simp add: get_u32_def unat_of_nat)
  then have "be_value (put_u32 (get_u32 bs)) = be_value bs"
    by (simp add: be_value_put_u32)
  then show ?thesis
    using len by (intro be_value_inject) simp_all
qed

lemma put_u32_nonempty [simp]: "put_u32 x \<noteq> []"
  by (simp add: put_u32_def)

lemma read_u32_iff:
  "read_u32 st = Inr (x, st') \<longleftrightarrow> (\<exists>t. st_data st = put_u32 x @ t \<and> st' = st\<lparr>st_data := t\<rparr>)"
proof
  assume "read_u32 st = Inr (x, st')"
  then have "4 \<le> length (st_data st)" "x = get_u32 (take 4 (st_data st))"
      "st' = st\<lparr>st_data := drop 4 (st_data st)\<rparr>"
    by (auto simp: read_u32_def read_full_Inr split: sum.splits)
  then show "\<exists>t. st_data st = put_u32 x @ t \<and> st' = st\<lparr>st_data := t\<rparr>"
    by (intro exI [of _ "drop 4 (st_data st)"]) (simp add: put_get_u32)
next
  assume "\<exists>t. st_data st = put_u32 x @ t \<and> st' = st\<lparr>st_data := t\<rparr>"
  then show "read_u32 st = Inr (x, st')"
    by (auto simp: read_u32_def read_full_def)
qed

interpretation u32: frame_codec put_u32 read_u32 "\<lambda>_. True"
  by unfold_locales (simp add: read_u32_iff)

section \<open>The frame of a chunk\<close>

definition put_frame :: "bytes \<Rightarrow> bytes" where
  "put_frame ct = put_u32 (of_nat (length ct)) @ ct"

text \<open>The two reads of one chunk, with the errors the loop reports for chunk \<open>i\<close>.\<close>

definition read_chunk :: "nat \<Rightarrow> stream \<Rightarrow> (bytes \<times> stream) result" where
  "read_chunk i st =
     (case read_u32 st of
        Inl err \<Rightarrow> Inl (Wrapf (''read chunk '' @ show_nat i @ '' length'') err)
      | Inr (chunkLen, st1) \<Rightarrow>
          (case read_full (unat chunkLen) st1 of
             Inl err \<Rightarrow> Inl (Wrapf (''read chunk '' @ show_nat i @ '' data'') err)
           | Inr (ct, st2) \<Rightarrow> Inr (ct, st2)))"

definition frame_ok :: "bytes \<Rightarrow> bool" where
  "frame_ok ct \<longleftrightarrow> length ct < 2 ^ 32"

lemma u32_less: "unat (w :: 32 word) < 2 ^ 32"
proof -
  have "unat w < 2 ^ LENGTH(32)"
    by (rule unsigned_less)
  then show ?thesis by simp
qed

lemma unat_length_u32: "frame_ok ct \<Longrightarrow> unat (of_nat (length ct) :: 32 word) = length ct"
  by (simp add: frame_ok_def unat_of_nat)

lemma read_chunk_iff:
  "read_chunk i st = Inr (ct, st') \<longleftrightarrow>
     frame_ok ct \<and> (\<exists>t. st_data st = put_frame ct @ t \<and> st' = st\<lparr>st_data := t\<rparr>)"
proof
  assume "read_chunk i st = Inr (ct, st')"
  then obtain n st1 where "read_u32 st = Inr (n, st1)" "read_full (unat n) st1 = Inr (ct, st')"
    by (auto simp: read_chunk_def split: sum.splits)
  then obtain d where d: "st_data st = put_u32 n @ d" "unat n \<le> length d" "ct = take (unat n) d"
      "st' = st\<lparr>st_data := drop (unat n) d\<rparr>"
    by (auto simp: read_u32_iff read_full_Inr)
  then have "length ct = unat n"
    by simp
  then have "frame_ok ct" "put_frame ct = put_u32 n @ ct"
    using u32_less [of n] by (simp_all add: frame_ok_def put_frame_def)
  then show "frame_ok ct \<and> (\<exists>t. st_data st = put_frame ct @ t \<and> st' = st\<lparr>st_data := t\<rparr>)"
    using d by (intro conjI exI [of _ "drop (unat n) d"]) simp_all
next
  assume "frame_ok ct \<and> (\<exists>t. st_data st = put_frame ct @ t \<and> st' = st\<lparr>st_data := t\<rparr>)"
  then obtain t where R: "frame_ok ct" "st_data st = put_frame ct @ t" "st' = st\<lparr>st_data := t\<rparr>"
    by blast
  have "read_u32 st = Inr (of_nat (length ct), st\<lparr>st_data := ct @ t\<rparr>)"
    using R(2) by (simp add: read_u32_iff put_frame_def)
  moreover have "read_full (length ct) (st\<lparr>st_data := ct @ t\<rparr>) = Inr (ct, st')"
    using R(3) by (simp add: read_full_Inr)
  ultimately show "read_chunk i st = Inr (ct, st')"
    using R(1) by (simp add: read_chunk_def unat_length_u32)
qed

interpretation chunk: frame_codec put_frame "read_chunk i" frame_ok
  by unfold_locales (rule read_chunk_iff)

end
