(* ===== verification/Upload.thy ===== *)
theory Upload
  imports Frames
begin

text \<open>
  \<open>decryptChunkedUpload\<close> of \<open>internal/server/submit.go\<close>: the framed stream of a file upload.

  \<open>accepted_iff\<close> characterises the chunk loop by the encoder it inverts; \<open>nonce_value\<close> is the
  documented reading of the increment (base IV plus \<open>i\<close>, 96 bits, big-endian).
\<close>

section \<open>The header\<close>

record ChunkedUploadHeader =
  ch_FileID :: string
  ch_Enc :: string
  ch_WrappedKey :: string
  ch_BaseIV :: string
  ch_TotalChunks :: int
  ch_PlaintextSHA256 :: string

definition ChunkedUploadHeader_zero :: ChunkedUploadHeader where
  "ChunkedUploadHeader_zero =
     \<lparr>ch_FileID = [], ch_Enc = [], ch_WrappedKey = [], ch_BaseIV = [], ch_TotalChunks = 0,
      ch_PlaintextSHA256 = []\<rparr>"

definition ChunkedUploadHeader_fields :: "(string \<times> ChunkedUploadHeader setter) list" where
  "ChunkedUploadHeader_fields =
     [(''file_id'', set_string (\<lambda>x r. r\<lparr>ch_FileID := x\<rparr>)),
      (''enc'', set_string (\<lambda>x r. r\<lparr>ch_Enc := x\<rparr>)),
      (''wrapped_key'', set_string (\<lambda>x r. r\<lparr>ch_WrappedKey := x\<rparr>)),
      (''base_iv'', set_string (\<lambda>x r. r\<lparr>ch_BaseIV := x\<rparr>)),
      (''total_chunks'', set_int (\<lambda>x r. r\<lparr>ch_TotalChunks := x\<rparr>)),
      (''plaintext_sha256'', set_string (\<lambda>x r. r\<lparr>ch_PlaintextSHA256 := x\<rparr>))]"

definition maxHeaderBytes :: nat where
  "maxHeaderBytes = 8192"

definition maxTotalChunks :: int where
  "maxTotalChunks = 16384"

definition aesKeyLen :: nat where
  "aesKeyLen = 32"

definition parse_upload_header :: "bytes \<Rightarrow> ChunkedUploadHeader result" where
  "parse_upload_header =
     json_unmarshal (decode_struct ChunkedUploadHeader_fields) ChunkedUploadHeader_zero"

definition upload_header :: "stream \<Rightarrow> (ChunkedUploadHeader \<times> stream) result" where
  "upload_header body =
     (case read_u32 body of
        Inl err \<Rightarrow> Inl (Wrapf ''read header length'' err)
      | Inr (headerLen, st1) \<Rightarrow>
          (if unat headerLen = 0 \<or> maxHeaderBytes < unat headerLen
           then Inl (Errorf (''invalid header length: '' @ show_nat (unat headerLen)))
           else
             (case read_full (unat headerLen) st1 of
                Inl err \<Rightarrow> Inl (Wrapf ''read header'' err)
              | Inr (headerBytes, st2) \<Rightarrow>
                  (case parse_upload_header headerBytes of
                     Inl err \<Rightarrow> Inl (Wrapf ''parse header'' err)
                   | Inr hdr \<Rightarrow>
                       (if ch_TotalChunks hdr \<le> 0 \<or> maxTotalChunks < ch_TotalChunks hdr
                        then Inl (Errorf (''invalid total_chunks: '' @ show_int (ch_TotalChunks hdr)))
                        else if ch_FileID hdr = [] then Inl (Errorf ''missing file_id'')
                        else Inr (hdr, st2))))))"

section \<open>The key and the cipher\<close>

text \<open>
  The symmetric key is opened with the context of both parties' keys and no additional data.  The
  loop that clears the key bytes runs before the error check; the cipher has copied them.
\<close>

definition upload_cipher ::
  "env \<Rightarrow> builder \<Rightarrow> bytes \<Rightarrow> ChunkedUploadHeader \<Rightarrow> (aead_open \<times> bytes) result" where
  "upload_cipher E b browserPubBytes hdr =
     (case b64_decode StdEncoding (ch_Enc hdr) of
        Inl err \<Rightarrow> Inl (Wrapf ''decode enc'' err)
      | Inr encBytes \<Rightarrow>
     (case b64_decode StdEncoding (ch_WrappedKey hdr) of
        Inl err \<Rightarrow> Inl (Wrapf ''decode wrapped_key'' err)
      | Inr wrappedKey \<Rightarrow>
     (case b64_decode StdEncoding (ch_BaseIV hdr) of
        Inl _ \<Rightarrow> Inl (Errorf ''bad base_iv: must be 12 bytes'')
      | Inr baseIV \<Rightarrow>
          (if length baseIV \<noteq> 12 then Inl (Errorf ''bad base_iv: must be 12 bytes'')
           else
             (let (hpkePriv, hpkePub) = HPKEKeys b;
                  info = ContextInfo hpkePub browserPubBytes
              in case OpenFromBrowser (e_hpke E) hpkePriv encBytes info [] wrappedKey of
                   Inl err \<Rightarrow> Inl (Wrapf ''hpke key unwrap'' err)
                 | Inr aesKeyBytes \<Rightarrow>
                     (if length aesKeyBytes \<noteq> aesKeyLen
                      then Inl (Errorf (''unwrapped key wrong length: ''
                                  @ show_nat (length aesKeyBytes)))
                      else
                        (case e_aes E aesKeyBytes of
                           Inl err \<Rightarrow> Inl (Wrapf ''aes.NewCipher'' err)
                         | Inr block \<Rightarrow>
                             (case e_gcm E block of
                                Inl err \<Rightarrow> Inl (Wrapf ''cipher.NewGCM'' err)
                              | Inr gcm \<Rightarrow> Inr (gcm, baseIV)))))))))"

section \<open>The chunk loop\<close>

text \<open>
  The carry loop \<open>for j := 11; j >= 0; j--\<close>: \<open>inc_from j\<close> is the loop with its index at \<open>j - 1\<close>.
\<close>

fun inc_from :: "nat \<Rightarrow> bytes \<Rightarrow> bytes" where
  "inc_from 0 nonce = nonce"
| "inc_from (Suc j) nonce =
     (let nonce' = nonce[j := nonce ! j + 1] in
      if nonce' ! j \<noteq> 0 then nonce' else inc_from j nonce')"

definition inc_nonce :: "bytes \<Rightarrow> bytes" where
  "inc_nonce nonce = inc_from 12 nonce"

definition chunk_aad :: "nat \<Rightarrow> int \<Rightarrow> string \<Rightarrow> bytes" where
  "chunk_aad i totalChunks fileID =
     bytes_of (show_nat i @ '':'' @ show_int totalChunks @ '':'' @ fileID)"

text \<open>\<open>k\<close> is how many chunks are still to come, \<open>totalChunks - i\<close>.\<close>

fun chunk_loop ::
  "aead_open \<Rightarrow> int \<Rightarrow> string \<Rightarrow> nat \<Rightarrow> nat \<Rightarrow> bytes \<Rightarrow> bytes \<Rightarrow> stream \<Rightarrow> bytes result" where
  "chunk_loop gcm tot fid 0 i nonce assembled body = Inr assembled"
| "chunk_loop gcm tot fid (Suc k) i nonce assembled body =
     (case read_chunk i body of
        Inl err \<Rightarrow> Inl err
      | Inr (ct, body') \<Rightarrow>
          (case gcm nonce ct (chunk_aad i tot fid) of
             Inl _ \<Rightarrow> Inl (Errorf (''chunk '' @ show_nat i @ '' authentication failed''))
           | Inr pt \<Rightarrow>
               chunk_loop gcm tot fid k (i + 1) (inc_nonce nonce) (assembled @ pt) body'))"

definition check_commitment :: "ChunkedUploadHeader \<Rightarrow> bytes \<Rightarrow> bytes result" where
  "check_commitment hdr assembled =
     (if ch_PlaintextSHA256 hdr \<noteq> [] \<and> hex_encode (sha256 assembled) \<noteq> ch_PlaintextSHA256 hdr
      then Inl (Errorf ''plaintext sha256 mismatch'')
      else Inr assembled)"

definition decryptChunkedUpload :: "env \<Rightarrow> builder \<Rightarrow> stream \<Rightarrow> string \<Rightarrow> bytes result" where
  "decryptChunkedUpload E b body browserPubB64u =
     (if browserPubB64u = [] then Inl (Errorf ''missing X-RATLS-Browser-HPKE header'')
      else
        (case b64_decode RawURLEncoding browserPubB64u of
           Inl _ \<Rightarrow> Inl (Errorf ''bad X-RATLS-Browser-HPKE'')
         | Inr browserPubBytes \<Rightarrow>
             (if length browserPubBytes \<noteq> 32 then Inl (Errorf ''bad X-RATLS-Browser-HPKE'')
              else
                (case upload_header body of
                   Inl err \<Rightarrow> Inl err
                 | Inr (hdr, body') \<Rightarrow>
                     (case upload_cipher E b browserPubBytes hdr of
                        Inl err \<Rightarrow> Inl err
                      | Inr (gcm, baseIV) \<Rightarrow>
                          (case chunk_loop gcm (ch_TotalChunks hdr) (ch_FileID hdr)
                                  (nat (ch_TotalChunks hdr)) 0 baseIV [] body' of
                             Inl err \<Rightarrow> Inl err
                           | Inr assembled \<Rightarrow> check_commitment hdr assembled))))))"

section \<open>Nonces\<close>

lemma inc_from_suffix: "k \<le> length p \<Longrightarrow> inc_from k (p @ q) = inc_from k p @ q"
  by (induction k arbitrary: p) (auto simp: Let_def list_update_append nth_append)

lemma length_inc_from [simp]: "length (inc_from k nonce) = length nonce"
  by (induction k arbitrary: nonce) (simp_all add: Let_def)

lemma length_inc_nonce [simp]: "length (inc_nonce nonce) = length nonce"
  by (simp add: inc_nonce_def)

lemma inc_from_value: "be_value (inc_from (length p) p) = (be_value p + 1) mod 256 ^ length p"
proof (induction p rule: rev_induct)
  case Nil
  show ?case by simp
next
  case (snoc b p)
  let ?m = "(256 :: nat) ^ length p"
  have step: "inc_from (length (p @ [b])) (p @ [b]) =
      (if b + 1 \<noteq> 0 then p @ [b + 1] else inc_from (length p) p @ [0])"
    by (simp add: Let_def inc_from_suffix)
  have le: "be_value p < ?m"
    by (rule be_value_less)
  have wrap: "unat (b + 1) = (unat b + 1) mod 256"
    by (simp add: unat_word_ariths)
  show ?case
  proof (cases "b + 1 = 0")
    case False
    have "unat b + 1 \<noteq> 256"
      using False wrap by (metis mod_self unat_eq_zero)
    then have "unat b + 1 < 256"
      using byte_less [of b] by linarith
    then have "unat (b + 1) = unat b + 1"
      using wrap by simp
    moreover have "unat (b + 1) < 256"
      by simp
    ultimately have "256 * be_value p + unat b + 1 < 256 * ?m"
      using le by linarith
    then show ?thesis
      using False \<open>unat (b + 1) = unat b + 1\<close> by (simp add: step)
  next
    case True
    then have "(unat b + 1) mod 256 = 0"
      using wrap by simp
    then have "unat b = 255"
      using byte_less [of b] by presburger
    then have "be_value (p @ [b]) + 1 = 256 * (be_value p + 1)"
      by simp
    moreover have "inc_from (length (p @ [b])) (p @ [b]) = inc_from (length p) p @ [0]"
      using True by (simp only: step) simp
    ultimately show ?thesis
      using snoc by (simp add: mult_mod_right del: inc_from.simps)
  qed
qed

lemma inc_nonce_value:
  "length nonce = 12 \<Longrightarrow> be_value (inc_nonce nonce) = (be_value nonce + 1) mod 2 ^ 96"
  using inc_from_value [of nonce] by (simp add: inc_nonce_def)

definition nonce_at :: "bytes \<Rightarrow> nat \<Rightarrow> bytes" where
  "nonce_at baseIV i = (inc_nonce ^^ i) baseIV"

lemma length_nonce_at [simp]: "length (nonce_at iv i) = length iv"
  by (induction i) (simp_all add: nonce_at_def)

lemma nonce_at_Suc: "nonce_at (inc_nonce iv) i = nonce_at iv (Suc i)"
  by (simp add: nonce_at_def funpow_swap1)

lemma nonce_at_value:
  "length iv = 12 \<Longrightarrow> be_value (nonce_at iv i) = (be_value iv + i) mod 2 ^ 96"
proof (induction i)
  case 0
  then show ?case
    using be_value_less [of iv] by (simp add: nonce_at_def)
next
  case (Suc i)
  then show ?case
    using inc_nonce_value [of "nonce_at iv i"] length_nonce_at [of iv i]
    by (simp add: nonce_at_def mod_simps)
qed

lemma mod_add_inject_le:
  assumes "((a :: nat) + i) mod m = (a + j) mod m" and "i \<le> j" and "j < m"
  shows "i = j"
proof -
  have "m dvd (a + j) - (a + i)"
    using assms mod_eq_dvd_iff_nat [of "a + i" "a + j" m] by simp
  then have "m dvd j - i"
    by simp
  then show ?thesis
    using assms(2,3) by (auto dest: dvd_imp_le)
qed

lemma mod_add_inject: "((a :: nat) + i) mod m = (a + j) mod m \<Longrightarrow> i < m \<Longrightarrow> j < m \<Longrightarrow> i = j"
  by (metis mod_add_inject_le nat_le_linear)

lemma nonce_at_inject:
  assumes "length iv = 12" and "nonce_at iv i = nonce_at iv j" and "i < 2 ^ 96" and "j < 2 ^ 96"
  shows "i = j"
proof -
  have "(be_value iv + i) mod 2 ^ 96 = (be_value iv + j) mod 2 ^ 96"
    using assms(1,2) by (metis nonce_at_value)
  then show ?thesis
    using assms(3,4) by (rule mod_add_inject)
qed

section \<open>Additional data\<close>

lemma digits_colon_inject:
  assumes "show_nat i @ CHR '':'' # s = show_nat j @ CHR '':'' # t"
  shows "i = j \<and> s = t"
proof -
  have "CHR '':'' \<notin> set (show_nat n)" for n
    by (rule not_digit_show_nat) (simp add: is_digit_def)
  then have "split_on (CHR '':'') (show_nat n @ CHR '':'' # u) = show_nat n # split_on (CHR '':'') u" for n u
    by (rule split_on_append)
  then have "show_nat i = show_nat j"
    using assms by (metis list.inject)
  with assms show ?thesis by simp
qed

lemma chunk_aad_inject:
  assumes "chunk_aad i t f = chunk_aad j u g" and "0 \<le> t" and "0 \<le> u"
  shows "i = j \<and> t = u \<and> f = g"
proof -
  have "show_nat i @ CHR '':'' # show_int t @ CHR '':'' # f =
      show_nat j @ CHR '':'' # show_int u @ CHR '':'' # g"
    using assms(1) by (simp only: chunk_aad_def bytes_of_inject) simp
  then have i: "i = j" and "show_int t @ CHR '':'' # f = show_int u @ CHR '':'' # g"
    by (auto dest: digits_colon_inject)
  then have "show_nat (nat t) @ CHR '':'' # f = show_nat (nat u) @ CHR '':'' # g"
    using assms(2,3) by (simp add: show_int_def)
  then have "nat t = nat u \<and> f = g"
    by (rule digits_colon_inject)
  with i assms(2,3) show ?thesis by (simp add: eq_nat_nat_iff)
qed

section \<open>The encoder that the loop inverts\<close>

text \<open>
  \<open>aead_exact\<close> is the documented behaviour of the cipher: opening succeeds exactly on what sealing
  under the same nonce and additional data produces, and yields what was sealed.
\<close>

definition aead_exact :: "aead_open \<Rightarrow> (bytes \<Rightarrow> bytes \<Rightarrow> bytes \<Rightarrow> bytes) \<Rightarrow> bool" where
  "aead_exact gcm seal \<longleftrightarrow>
     (\<forall>nonce ct aad pt. length nonce = 12 \<longrightarrow> frame_ok ct \<longrightarrow>
        (gcm nonce ct aad = Inr pt \<longleftrightarrow> ct = seal nonce pt aad))"

text \<open>What the browser sends for the chunks \<open>pts\<close>, the first of which has index \<open>i\<close>.\<close>

fun seal_chunks ::
  "(bytes \<Rightarrow> bytes \<Rightarrow> bytes \<Rightarrow> bytes) \<Rightarrow> int \<Rightarrow> string \<Rightarrow> nat \<Rightarrow> bytes \<Rightarrow> bytes list \<Rightarrow> bytes list"
where
  "seal_chunks seal tot fid i nonce [] = []"
| "seal_chunks seal tot fid i nonce (pt # pts) =
     seal nonce pt (chunk_aad i tot fid) # seal_chunks seal tot fid (i + 1) (inc_nonce nonce) pts"

definition put_frames :: "bytes list \<Rightarrow> bytes" where
  "put_frames cts = concat (map put_frame cts)"

lemma chunk_loop_iff:
  assumes "aead_exact gcm seal"
  shows "length nonce = 12 \<Longrightarrow>
    chunk_loop gcm tot fid k i nonce acc body = Inr out \<longleftrightarrow>
      (\<exists>pts rest. length pts = k \<and> out = acc @ concat pts \<and>
         list_all frame_ok (seal_chunks seal tot fid i nonce pts) \<and>
         st_data body = put_frames (seal_chunks seal tot fid i nonce pts) @ rest)"
proof (induction k arbitrary: i nonce acc body)
  case 0
  then show ?case by (auto simp: put_frames_def)
next
  case (Suc k)
  have len: "length (inc_nonce nonce) = 12"
    using Suc.prems by simp
  let ?S = "seal_chunks seal tot fid"
  show ?case
  proof
    assume "chunk_loop gcm tot fid (Suc k) i nonce acc body = Inr out"
    then obtain ct body' pt where r: "read_chunk i body = Inr (ct, body')"
        "gcm nonce ct (chunk_aad i tot fid) = Inr pt"
        "chunk_loop gcm tot fid k (i + 1) (inc_nonce nonce) (acc @ pt) body' = Inr out"
      by (auto split: sum.splits)
    then obtain t where t: "frame_ok ct" "st_data body = put_frame ct @ t" "st_data body' = t"
      by (auto simp: read_chunk_iff)
    obtain pts rest where ih: "length pts = k" "out = (acc @ pt) @ concat pts"
        "list_all frame_ok (?S (i + 1) (inc_nonce nonce) pts)"
        "t = put_frames (?S (i + 1) (inc_nonce nonce) pts) @ rest"
      using r(3) Suc.IH [OF len] t(3) by blast
    have "ct = seal nonce pt (chunk_aad i tot fid)"
      using assms Suc.prems t(1) r(2) by (simp add: aead_exact_def)
    then show "\<exists>pts rest. length pts = Suc k \<and> out = acc @ concat pts \<and>
        list_all frame_ok (?S i nonce pts) \<and> st_data body = put_frames (?S i nonce pts) @ rest"
      using ih t by (intro exI [of _ "pt # pts"] exI [of _ rest]) (simp add: put_frames_def)
  next
    assume "\<exists>pts rest. length pts = Suc k \<and> out = acc @ concat pts \<and>
      list_all frame_ok (?S i nonce pts) \<and> st_data body = put_frames (?S i nonce pts) @ rest"
    then obtain pt pts rest where p: "length pts = k" "out = acc @ pt @ concat pts"
        "frame_ok (seal nonce pt (chunk_aad i tot fid))"
        "list_all frame_ok (?S (i + 1) (inc_nonce nonce) pts)"
        "st_data body = put_frame (seal nonce pt (chunk_aad i tot fid)) @
           put_frames (?S (i + 1) (inc_nonce nonce) pts) @ rest"
      by (auto simp: length_Suc_conv put_frames_def)
    let ?ct = "seal nonce pt (chunk_aad i tot fid)"
    let ?body' = "body\<lparr>st_data := put_frames (?S (i + 1) (inc_nonce nonce) pts) @ rest\<rparr>"
    have "read_chunk i body = Inr (?ct, ?body')"
      using p(3,5) by (auto simp: read_chunk_iff)
    moreover have "gcm nonce ?ct (chunk_aad i tot fid) = Inr pt"
      using assms Suc.prems p(3) by (simp add: aead_exact_def)
    moreover have "chunk_loop gcm tot fid k (i + 1) (inc_nonce nonce) (acc @ pt) ?body' = Inr out"
      using Suc.IH [OF len, of "i + 1" "acc @ pt" ?body'] p by auto
    ultimately show "chunk_loop gcm tot fid (Suc k) i nonce acc body = Inr out"
      by simp
  qed
qed

section \<open>What an upload has to be\<close>

definition gcm_documented ::
  "env \<Rightarrow> ((bytes \<Rightarrow> bytes) \<Rightarrow> bytes \<Rightarrow> bytes \<Rightarrow> bytes \<Rightarrow> bytes) \<Rightarrow> bool" where
  "gcm_documented E seal \<longleftrightarrow> (\<forall>block gcm. e_gcm E block = Inr gcm \<longrightarrow> aead_exact gcm (seal block))"

definition header_ok :: "ChunkedUploadHeader \<Rightarrow> bool" where
  "header_ok hdr \<longleftrightarrow>
     0 < ch_TotalChunks hdr \<and> ch_TotalChunks hdr \<le> maxTotalChunks \<and> ch_FileID hdr \<noteq> []"

definition header_bytes_ok :: "bytes \<Rightarrow> ChunkedUploadHeader \<Rightarrow> bool" where
  "header_bytes_ok hb hdr \<longleftrightarrow>
     0 < length hb \<and> length hb \<le> maxHeaderBytes \<and> parse_upload_header hb = Inr hdr \<and> header_ok hdr"

text \<open>The symmetric key that a header wraps for the keys of the builder.\<close>

definition wraps_key :: "env \<Rightarrow> builder \<Rightarrow> bytes \<Rightarrow> ChunkedUploadHeader \<Rightarrow> bytes \<Rightarrow> bool" where
  "wraps_key E b pub hdr key \<longleftrightarrow>
     length key = aesKeyLen \<and>
     (\<exists>enc wk. b64_decode StdEncoding (ch_Enc hdr) = Inr enc \<and>
        b64_decode StdEncoding (ch_WrappedKey hdr) = Inr wk \<and>
        OpenFromBrowser (e_hpke E) (ek_HPKEPriv (bu_keys b)) enc
          (ContextInfo (ek_HPKEPub (bu_keys b)) pub) [] wk = Inr key)"

definition commitment_ok :: "ChunkedUploadHeader \<Rightarrow> bytes \<Rightarrow> bool" where
  "commitment_ok hdr out \<longleftrightarrow>
     ch_PlaintextSHA256 hdr = [] \<or> ch_PlaintextSHA256 hdr = hex_encode (sha256 out)"

definition valid_upload ::
  "env \<Rightarrow> ((bytes \<Rightarrow> bytes) \<Rightarrow> bytes \<Rightarrow> bytes \<Rightarrow> bytes \<Rightarrow> bytes) \<Rightarrow> builder \<Rightarrow> bytes \<Rightarrow> bytes \<Rightarrow> bytes \<Rightarrow> bool"
where
  "valid_upload E seal b pub body out \<longleftrightarrow>
     (\<exists>hb hdr key block iv pts rest.
        header_bytes_ok hb hdr \<and> wraps_key E b pub hdr key \<and>
        e_aes E key = Inr block \<and> result_ok (e_gcm E block) \<and>
        b64_decode StdEncoding (ch_BaseIV hdr) = Inr iv \<and> length iv = 12 \<and>
        length pts = nat (ch_TotalChunks hdr) \<and> out = concat pts \<and> commitment_ok hdr out \<and>
        (let cts = seal_chunks (seal block) (ch_TotalChunks hdr) (ch_FileID hdr) 0 iv pts in
         list_all frame_ok cts \<and> body = put_frame hb @ put_frames cts @ rest))"

lemma upload_header_iff:
  "upload_header st = Inr (hdr, st') \<longleftrightarrow>
     (\<exists>hb t. header_bytes_ok hb hdr \<and> st_data st = put_frame hb @ t \<and> st' = st\<lparr>st_data := t\<rparr>)"
proof
  assume "upload_header st = Inr (hdr, st')"
  then obtain n st1 hb where u: "read_u32 st = Inr (n, st1)" "unat n \<noteq> 0" "unat n \<le> maxHeaderBytes"
      "read_full (unat n) st1 = Inr (hb, st')" "parse_upload_header hb = Inr hdr" "header_ok hdr"
    by (auto simp: upload_header_def header_ok_def not_less split: sum.splits if_splits)
  have "read_chunk 0 st = Inr (hb, st')"
    using u(1,4) by (simp add: read_chunk_def)
  then obtain t where "st_data st = put_frame hb @ t" "st' = st\<lparr>st_data := t\<rparr>"
    by (auto simp: read_chunk_iff)
  moreover have "length hb = unat n"
    using u(4) by (auto simp: read_full_Inr)
  then have "header_bytes_ok hb hdr"
    using u by (auto simp: header_bytes_ok_def)
  ultimately show "\<exists>hb t. header_bytes_ok hb hdr \<and> st_data st = put_frame hb @ t \<and> st' = st\<lparr>st_data := t\<rparr>"
    by blast
next
  assume "\<exists>hb t. header_bytes_ok hb hdr \<and> st_data st = put_frame hb @ t \<and> st' = st\<lparr>st_data := t\<rparr>"
  then obtain hb t where h: "header_bytes_ok hb hdr" "st_data st = put_frame hb @ t"
      "st' = st\<lparr>st_data := t\<rparr>"
    by blast
  then have "frame_ok hb"
    by (simp add: header_bytes_ok_def frame_ok_def maxHeaderBytes_def)
  then have "read_chunk 0 st = Inr (hb, st')"
    using h by (auto simp: read_chunk_iff)
  then obtain n st1 where "read_u32 st = Inr (n, st1)" "read_full (unat n) st1 = Inr (hb, st')"
    by (auto simp: read_chunk_def split: sum.splits)
  moreover from this have "length hb = unat n"
    by (auto simp: read_full_Inr)
  ultimately show "upload_header st = Inr (hdr, st')"
    using h(1) by (auto simp: upload_header_def header_bytes_ok_def header_ok_def)
qed

lemma upload_cipher_iff:
  "upload_cipher E b pub hdr = Inr (gcm, iv) \<longleftrightarrow>
     (\<exists>key block. wraps_key E b pub hdr key \<and> e_aes E key = Inr block \<and> e_gcm E block = Inr gcm \<and>
        b64_decode StdEncoding (ch_BaseIV hdr) = Inr iv \<and> length iv = 12)"
  by (auto simp: upload_cipher_def wraps_key_def HPKEKeys_def split: sum.splits if_splits)

lemma check_commitment_iff:
  "check_commitment hdr x = Inr out \<longleftrightarrow> x = out \<and> commitment_ok hdr out"
  by (auto simp: check_commitment_def commitment_ok_def)

lemma decrypt_iff:
  "decryptChunkedUpload E b st pub64 = Inr out \<longleftrightarrow>
     (\<exists>pub hdr st' gcm iv. pub64 \<noteq> [] \<and> b64_decode RawURLEncoding pub64 = Inr pub \<and> length pub = 32 \<and>
        upload_header st = Inr (hdr, st') \<and> upload_cipher E b pub hdr = Inr (gcm, iv) \<and>
        chunk_loop gcm (ch_TotalChunks hdr) (ch_FileID hdr) (nat (ch_TotalChunks hdr)) 0 iv [] st' =
          Inr out \<and> commitment_ok hdr out)"
  by (auto simp: decryptChunkedUpload_def check_commitment_iff split: sum.splits)

lemma decrypt_valid_upload:
  assumes "gcm_documented E seal" and "b64_decode RawURLEncoding pub64 = Inr pub"
    and "length pub = 32"
  shows "decryptChunkedUpload E b st pub64 = Inr out \<longleftrightarrow> valid_upload E seal b pub (st_data st) out"
    (is "?L \<longleftrightarrow> ?R")
proof -
  have ne: "pub64 \<noteq> []"
    using assms(2,3) by (auto simp: b64_decode_def)
  show ?thesis
  proof
    assume ?L
    then obtain hdr st' gcm iv key block hb t where a: "header_bytes_ok hb hdr"
        "st_data st = put_frame hb @ t" "st' = st\<lparr>st_data := t\<rparr>"
        "wraps_key E b pub hdr key" "e_aes E key = Inr block" "e_gcm E block = Inr gcm"
        "b64_decode StdEncoding (ch_BaseIV hdr) = Inr iv" "length iv = 12"
        "chunk_loop gcm (ch_TotalChunks hdr) (ch_FileID hdr) (nat (ch_TotalChunks hdr)) 0 iv [] st' = Inr out"
        "commitment_ok hdr out"
      using assms(2) by (auto simp: decrypt_iff upload_header_iff upload_cipher_iff)
    have "aead_exact gcm (seal block)"
      using assms(1) a(6) by (simp add: gcm_documented_def)
    from chunk_loop_iff [OF this a(8)] a(3,9) obtain pts rest where
        "length pts = nat (ch_TotalChunks hdr)" "out = concat pts"
        "list_all frame_ok (seal_chunks (seal block) (ch_TotalChunks hdr) (ch_FileID hdr) 0 iv pts)"
        "t = put_frames (seal_chunks (seal block) (ch_TotalChunks hdr) (ch_FileID hdr) 0 iv pts) @ rest"
      by auto
    then show ?R
      unfolding valid_upload_def Let_def using a
      by (intro exI [of _ hb] exI [of _ hdr] exI [of _ key] exI [of _ block] exI [of _ iv]
          exI [of _ pts] exI [of _ rest]) simp
  next
    assume ?R
    then obtain hb hdr key block iv pts rest where v: "header_bytes_ok hb hdr"
        "wraps_key E b pub hdr key" "e_aes E key = Inr block" "result_ok (e_gcm E block)"
        "b64_decode StdEncoding (ch_BaseIV hdr) = Inr iv" "length iv = 12"
        "length pts = nat (ch_TotalChunks hdr)" "out = concat pts" "commitment_ok hdr out"
        "list_all frame_ok (seal_chunks (seal block) (ch_TotalChunks hdr) (ch_FileID hdr) 0 iv pts)"
        "st_data st = put_frame hb @
           put_frames (seal_chunks (seal block) (ch_TotalChunks hdr) (ch_FileID hdr) 0 iv pts) @ rest"
      unfolding valid_upload_def Let_def by blast
    obtain gcm where g: "e_gcm E block = Inr gcm"
      using v(4) by (auto simp: result_ok_iff)
    let ?t = "put_frames (seal_chunks (seal block) (ch_TotalChunks hdr) (ch_FileID hdr) 0 iv pts) @ rest"
    have "aead_exact gcm (seal block)"
      using assms(1) g by (simp add: gcm_documented_def)
    then have "chunk_loop gcm (ch_TotalChunks hdr) (ch_FileID hdr) (nat (ch_TotalChunks hdr)) 0 iv []
        (st\<lparr>st_data := ?t\<rparr>) = Inr out"
      using v by (auto simp: chunk_loop_iff)
    moreover have "upload_header st = Inr (hdr, st\<lparr>st_data := ?t\<rparr>)"
      using v(1,11) by (auto simp: upload_header_iff)
    moreover have "upload_cipher E b pub hdr = Inr (gcm, iv)"
      using v g by (auto simp: upload_cipher_iff)
    ultimately show ?L
      unfolding decrypt_iff using ne assms(2,3) v(9) by blast
  qed
qed

end
