(* ===== verification/Upload_Spec.thy ===== *)
theory Upload_Spec
  imports Upload
begin

text \<open>
  What the chunked upload guarantees: what the documented sender produces is decrypted to the file,
  a cut-off stream is refused, and under an unforgeable cipher every accepted chunk was sealed for
  exactly its place in exactly this file.
\<close>

section \<open>The header as JSON\<close>

definition ChunkedUploadHeader_json :: "ChunkedUploadHeader \<Rightarrow> string" where
  "ChunkedUploadHeader_json h =
     json_object
       [(''file_id'', json_string (ch_FileID h)), (''enc'', json_string (ch_Enc h)),
        (''wrapped_key'', json_string (ch_WrappedKey h)), (''base_iv'', json_string (ch_BaseIV h)),
        (''total_chunks'', show_int (ch_TotalChunks h)),
        (''plaintext_sha256'', json_string (ch_PlaintextSHA256 h))]"

definition header_utf8 :: "ChunkedUploadHeader \<Rightarrow> bool" where
  "header_utf8 h \<longleftrightarrow>
     valid_utf8 (ch_FileID h) \<and> valid_utf8 (ch_Enc h) \<and> valid_utf8 (ch_WrappedKey h) \<and>
     valid_utf8 (ch_BaseIV h) \<and> valid_utf8 (ch_PlaintextSHA256 h) \<and>
     - (2 ^ 63) \<le> ch_TotalChunks h \<and> ch_TotalChunks h < 2 ^ 63"

lemma minus_not_digit: "\<not> is_digit (CHR ''-'')"
  by (simp add: is_digit_def)

lemma parse_int64_show:
  assumes "- (2 ^ 63) \<le> i" and "i < 2 ^ 63"
  shows "parse_int64 (show_int i) = Some i"
proof (cases "i < 0")
  case True
  then show ?thesis
    using assms show_nat_digits_all
    by (simp add: parse_int64_def show_int_def has_prefix_def trim_prefix_def Let_def)
next
  case False
  have "hd (show_nat n) \<noteq> CHR ''-''" for n
    using show_nat_digits_all [of n] minus_not_digit by (cases "show_nat n") auto
  then have "\<not> has_prefix (show_nat n) ''-''" for n
    by (auto simp: has_prefix_iff) (metis list.sel(1))
  then show ?thesis
    using False assms show_nat_digits_all
    by (simp add: parse_int64_def show_int_def trim_prefix_def Let_def)
qed

lemma parse_header_json:
  assumes "header_utf8 h"
  shows "parse_upload_header (bytes_of (ChunkedUploadHeader_json h)) = Inr h"
proof -
  let ?ms = "[(''file_id'', json_string (ch_FileID h), JStr (utf8_fix (ch_FileID h))),
     (''enc'', json_string (ch_Enc h), JStr (utf8_fix (ch_Enc h))),
     (''wrapped_key'', json_string (ch_WrappedKey h), JStr (utf8_fix (ch_WrappedKey h))),
     (''base_iv'', json_string (ch_BaseIV h), JStr (utf8_fix (ch_BaseIV h))),
     (''total_chunks'', show_int (ch_TotalChunks h), JNum (show_int (ch_TotalChunks h))),
     (''plaintext_sha256'', json_string (ch_PlaintextSHA256 h),
      JStr (utf8_fix (ch_PlaintextSHA256 h)))]"
  have "json_parse (ChunkedUploadHeader_json h) = Some (JObj (map (\<lambda>(k, e, v). (utf8_fix k, v)) ?ms))"
    using json_parse_object [of ?ms] encodes_string encodes_int
    by (simp add: ChunkedUploadHeader_json_def)
  moreover have "map (\<lambda>(k, e, v). (utf8_fix k, v)) ?ms = map (\<lambda>(k, e, v). (k, v)) ?ms"
    by (simp add: utf8_fix_ascii is_ascii_def)
  ultimately have "json_parse (ChunkedUploadHeader_json h) = Some (JObj (map (\<lambda>(k, e, v). (k, v)) ?ms))"
    by simp
  then show ?thesis
    using assms
    by (simp add: parse_upload_header_def json_unmarshal_def setter_defs find_field_def
        ChunkedUploadHeader_fields_def ChunkedUploadHeader_zero_def header_utf8_def valid_utf8_def
        parse_int64_show)
qed

section \<open>Frames of an accepted stream\<close>

lemma chunk_loop_frames:
  "chunk_loop gcm tot fid k i nonce acc body = Inr out \<Longrightarrow>
   \<exists>cts rest. length cts = k \<and> list_all frame_ok cts \<and> st_data body = put_frames cts @ rest"
proof (induction k arbitrary: i nonce acc body)
  case 0
  show ?case by (simp add: put_frames_def)
next
  case (Suc k)
  then obtain ct body' pt where r: "read_chunk i body = Inr (ct, body')"
      "chunk_loop gcm tot fid k (i + 1) (inc_nonce nonce) (acc @ pt) body' = Inr out"
    by (auto split: sum.splits)
  then obtain t where t: "frame_ok ct" "st_data body = put_frame ct @ t" "st_data body' = t"
    by (auto simp: read_chunk_iff)
  obtain cts rest where "length cts = k" "list_all frame_ok cts" "t = put_frames cts @ rest"
    using Suc.IH [OF r(2)] t(3) by blast
  then show ?case
    using t by (intro exI [of _ "ct # cts"] exI [of _ rest]) (simp add: put_frames_def)
qed

lemma header_frame_ok: "header_bytes_ok hb hdr \<Longrightarrow> frame_ok hb"
  by (simp add: header_bytes_ok_def frame_ok_def maxHeaderBytes_def)

text \<open>A stream that stops inside a complete upload is refused, whatever the cipher says.\<close>

lemma cut_off_refused:
  assumes "header_bytes_ok hb hdr" and "list_all frame_ok cts"
    and "length cts = nat (ch_TotalChunks hdr)"
    and "d @ x = put_frame hb @ put_frames cts" and "x \<noteq> []"
  shows "decryptChunkedUpload E b \<lparr>st_data = d, st_end = e\<rparr> pub64 \<noteq> Inr out"
proof
  assume "decryptChunkedUpload E b \<lparr>st_data = d, st_end = e\<rparr> pub64 = Inr out"
  then obtain hdr' st' gcm iv where a: "upload_header \<lparr>st_data = d, st_end = e\<rparr> = Inr (hdr', st')"
      "chunk_loop gcm (ch_TotalChunks hdr') (ch_FileID hdr') (nat (ch_TotalChunks hdr')) 0 iv [] st' = Inr out"
    by (auto simp: decrypt_iff)
  then obtain hb' t where h: "header_bytes_ok hb' hdr'" "d = put_frame hb' @ t" "st_data st' = t"
    by (auto simp: upload_header_iff)
  obtain cts' rest where c: "length cts' = nat (ch_TotalChunks hdr')" "list_all frame_ok cts'"
      "t = put_frames cts' @ rest"
    using chunk_loop_frames [OF a(2)] h(3) by blast
  have "put_frame hb' @ (t @ x) = put_frame hb @ put_frames cts"
    using assms(4) h(2) by simp
  then have "hb' = hb" "t @ x = put_frames cts"
    using chunk.prefix_free header_frame_ok assms(1) h(1) by blast+
  moreover from this have "hdr' = hdr"
    using assms(1) h(1) by (simp add: header_bytes_ok_def)
  ultimately have "concat (map put_frame cts') @ (rest @ x) = concat (map put_frame cts) @ []"
    using c(3) by (simp add: put_frames_def)
  then have "rest @ x = []"
    using chunk.put_list_inject [OF c(2) assms(2), of "rest @ x" "[]"] c(1) assms(3)
      \<open>hdr' = hdr\<close>
    by simp
  with assms(5) show False by simp
qed

section \<open>Every chunk in its place\<close>

text \<open>
  \<open>G\<close> holds what the owner of the key ever sealed: index, number of chunks, file id, nonce and
  plaintext.  \<open>unforgeable gcm G\<close> says that nothing else opens.
\<close>

definition unforgeable ::
  "aead_open \<Rightarrow> (nat \<times> int \<times> string \<times> bytes \<times> bytes) set \<Rightarrow> bool" where
  "unforgeable gcm G \<longleftrightarrow>
     (\<forall>nonce ct aad pt. gcm nonce ct aad = Inr pt \<longrightarrow>
        (\<exists>i t f. aad = chunk_aad i t f \<and> 0 \<le> t \<and> (i, t, f, nonce, pt) \<in> G))"

lemma chunk_loop_genuine:
  assumes "unforgeable gcm G" and "0 \<le> tot"
  shows "chunk_loop gcm tot fid k i nonce acc body = Inr out \<Longrightarrow>
    \<exists>pts. length pts = k \<and> out = acc @ concat pts \<and>
      (\<forall>j < k. (i + j, tot, fid, nonce_at nonce j, pts ! j) \<in> G)"
proof (induction k arbitrary: i nonce acc body)
  case 0
  then show ?case by simp
next
  case (Suc k)
  then obtain ct body' pt where r: "gcm nonce ct (chunk_aad i tot fid) = Inr pt"
      "chunk_loop gcm tot fid k (i + 1) (inc_nonce nonce) (acc @ pt) body' = Inr out"
    by (auto split: sum.splits)
  obtain pts where p: "length pts = k" "out = (acc @ pt) @ concat pts"
      "\<forall>j < k. (i + 1 + j, tot, fid, nonce_at (inc_nonce nonce) j, pts ! j) \<in> G"
    using Suc.IH [OF r(2)] by blast
  obtain i' t f where "chunk_aad i tot fid = chunk_aad i' t f" "0 \<le> t" "(i', t, f, nonce, pt) \<in> G"
    using assms(1) r(1) unfolding unforgeable_def by blast
  then have first: "(i, tot, fid, nonce, pt) \<in> G"
    using chunk_aad_inject assms(2) by blast
  have "(i + j, tot, fid, nonce_at nonce j, (pt # pts) ! j) \<in> G" if "j < Suc k" for j
    using that first p(3) by (cases j) (auto simp: nonce_at_def [of _ 0] nonce_at_Suc)
  then show ?case
    using p by (intro exI [of _ "pt # pts"]) auto
qed

section \<open>The sender\<close>

text \<open>
  The header that the documented sender writes: the symmetric key sealed to the enclave's HPKE key
  under the context of both keys, and a commitment to the file.
\<close>

definition sender_header ::
  "string \<Rightarrow> ResponseSeal \<Rightarrow> bytes \<Rightarrow> bytes list \<Rightarrow> ChunkedUploadHeader" where
  "sender_header fid wrapped iv pts =
     \<lparr>ch_FileID = fid, ch_Enc = b64_encode StdEncoding (rs_Enc wrapped),
      ch_WrappedKey = b64_encode StdEncoding (rs_Ciphertext wrapped),
      ch_BaseIV = b64_encode StdEncoding iv, ch_TotalChunks = int (length pts),
      ch_PlaintextSHA256 = hex_encode (sha256 (concat pts))\<rparr>"

definition sender_body ::
  "(bytes \<Rightarrow> bytes \<Rightarrow> bytes \<Rightarrow> bytes) \<Rightarrow> string \<Rightarrow> ResponseSeal \<Rightarrow> bytes \<Rightarrow> bytes list \<Rightarrow> bytes" where
  "sender_body seal fid wrapped iv pts =
     put_frame (bytes_of (ChunkedUploadHeader_json (sender_header fid wrapped iv pts))) @
     put_frames (seal_chunks seal (int (length pts)) fid 0 iv pts)"

lemma valid_utf8_hex: "valid_utf8 (hex_encode bs)"
proof (rule valid_utf8_ascii)
  have "is_ascii (hex_digit n)" if "n < 16" for n
    using that by (auto simp: hex_digit_def is_ascii_def)
  then show "list_all is_ascii (hex_encode bs)"
    by (auto simp: hex_encode_def hex_byte_def list_all_iff less_mult_imp_div_less)
qed

lemma sender_header_utf8:
  assumes "valid_utf8 fid" and "int (length pts) \<le> maxTotalChunks"
  shows "header_utf8 (sender_header fid wrapped iv pts)"
  using assms
  by (simp add: header_utf8_def sender_header_def valid_utf8_b64 valid_utf8_hex maxTotalChunks_def)

section \<open>Sizes\<close>

lemma hex_encode_plain: "list_all plain_char (hex_encode bs)"
proof -
  have "plain_char (hex_digit n)" if "n < 16" for n
    using that by (auto simp: hex_digit_def plain_char_def char_eq_code)
  then show ?thesis
    by (auto simp: hex_encode_def hex_byte_def list_all_iff less_mult_imp_div_less)
qed

lemma length_std: "length (b64_encode StdEncoding bs) \<le> 2 * length bs + 4"
proof -
  have "length (b64_encode e bs) \<le> 2 * length bs + 4" for e
  proof (induction e bs rule: b64_encode.induct)
    case (4 e a b c bs)
    then have "length (b64_encode e bs) \<le> 2 * length bs + 4"
      by blast
    then show ?case by (simp add: Let_def)
  qed (simp_all add: Let_def)
  then show ?thesis .
qed

section \<open>The sender's stream\<close>

lemma sender_header_read:
  assumes "fid \<noteq> []" and "valid_utf8 fid" and "pts \<noteq> []" and "int (length pts) \<le> maxTotalChunks"
    and "length (ChunkedUploadHeader_json (sender_header fid wrapped iv pts)) \<le> maxHeaderBytes"
  shows "header_bytes_ok (bytes_of (ChunkedUploadHeader_json (sender_header fid wrapped iv pts)))
           (sender_header fid wrapped iv pts)"
proof -
  have "ChunkedUploadHeader_json (sender_header fid wrapped iv pts) \<noteq> []"
    by (simp add: ChunkedUploadHeader_json_def json_object_def)
  then show ?thesis
    using parse_header_json [OF sender_header_utf8 [OF assms(2,4)]] assms
    by (simp add: header_bytes_ok_def header_ok_def sender_header_def)
qed

lemma sender_cipher:
  assumes "hpke_correct (e_hpke E) (ek_HPKEPriv (bu_keys b)) (ek_HPKEPub (bu_keys b))"
    and "SealToBrowser (e_hpke E) (ek_HPKEPub (bu_keys b))
           (ContextInfo (ek_HPKEPub (bu_keys b)) pub) [] key = Inr wrapped"
    and "length key = aesKeyLen" and "e_aes E key = Inr block" and "e_gcm E block = Inr gcm"
    and "length iv = 12"
  shows "upload_cipher E b pub (sender_header fid wrapped iv pts) = Inr (gcm, iv)"
proof -
  have "wraps_key E b pub (sender_header fid wrapped iv pts) key"
    using open_seal [OF assms(1,2)] assms(3)
    by (simp add: wraps_key_def sender_header_def std.dec_enc)
  then show ?thesis
    using assms(4-6) by (auto simp: upload_cipher_iff sender_header_def std.dec_enc)
qed

text \<open>The stream decrypts when header, cipher and chunk loop each do their part.\<close>

lemma sender_decrypts:
  assumes "header_bytes_ok (bytes_of (ChunkedUploadHeader_json (sender_header fid wrapped iv pts)))
             (sender_header fid wrapped iv pts)"
    and "upload_cipher E b pub (sender_header fid wrapped iv pts) = Inr (gcm, iv)"
    and "length pub = 32"
    and "chunk_loop gcm (int (length pts)) fid (length pts) 0 iv []
           \<lparr>st_data = put_frames (seal_chunks seal (int (length pts)) fid 0 iv pts) @ rest, st_end = e\<rparr> =
           Inr (concat pts)"
  shows "decryptChunkedUpload E b \<lparr>st_data = sender_body seal fid wrapped iv pts @ rest, st_end = e\<rparr>
           (b64_encode RawURLEncoding pub) = Inr (concat pts)"
proof -
  let ?h = "sender_header fid wrapped iv pts"
  let ?st = "\<lparr>st_data = sender_body seal fid wrapped iv pts @ rest, st_end = e\<rparr>"
  have "upload_header ?st = Inr (?h, ?st\<lparr>st_data :=
      put_frames (seal_chunks seal (int (length pts)) fid 0 iv pts) @ rest\<rparr>)"
    using assms(1) by (auto simp: upload_header_iff sender_body_def)
  moreover have "b64_encode RawURLEncoding pub \<noteq> []"
    using assms(3) rawurl_length [of pub] by auto
  moreover have "commitment_ok ?h (concat pts)"
    by (simp add: commitment_ok_def sender_header_def)
  ultimately show ?thesis
    using assms(2-4) rawurl.dec_enc [of pub] unfolding decrypt_iff
    by (auto simp: sender_header_def)
qed

lemma sender_loop:
  assumes "aead_exact gcm seal" and "length iv = 12"
    and "list_all frame_ok (seal_chunks seal (int (length pts)) fid 0 iv pts)"
  shows "chunk_loop gcm (int (length pts)) fid (length pts) 0 iv []
           \<lparr>st_data = put_frames (seal_chunks seal (int (length pts)) fid 0 iv pts) @ rest, st_end = e\<rparr> =
           Inr (concat pts)"
  using assms(3) unfolding chunk_loop_iff [OF assms(1,2)] by auto

text \<open>The loop asks the cipher about the additional data of its own chunks only.\<close>

lemma chunk_loop_cong:
  "(\<And>j n ct. i \<le> j \<Longrightarrow> j < i + k \<Longrightarrow> gcm n ct (chunk_aad j tot fid) = gcm' n ct (chunk_aad j tot fid)) \<Longrightarrow>
   chunk_loop gcm tot fid k i nonce acc body = chunk_loop gcm' tot fid k i nonce acc body"
proof (induction k arbitrary: i nonce acc body)
  case 0
  show ?case by simp
next
  case (Suc k)
  have "gcm n ct (chunk_aad i tot fid) = gcm' n ct (chunk_aad i tot fid)" for n ct
    using Suc.prems by simp
  moreover have "chunk_loop gcm tot fid k (i + 1) n' acc' body' =
      chunk_loop gcm' tot fid k (i + 1) n' acc' body'" for n' acc' body'
    using Suc.prems by (intro Suc.IH) simp
  ultimately show ?case by (simp split: sum.splits)
qed

section \<open>A concrete upload\<close>

definition toy_builder :: "string \<Rightarrow> builder" where
  "toy_builder token =
     \<lparr>bu_audience = ''aud'',
      bu_keys = \<lparr>ek_BindingSPKI = [4], ek_HPKEPriv = replicate 32 1, ek_HPKEPub = replicate 32 1,
                 ek_HPKEPubBytes = replicate 32 1, ek_BindingFingerprintB64URL = ''fp'',
                 ek_HPKEPubB64URL = ''hp'', ek_SignNonce = Inr\<rparr>,
      bu_oidcToken = token, bu_issuedAt = 0\<rparr>"

definition toy_wrapped :: ResponseSeal where
  "toy_wrapped = \<lparr>rs_Enc = replicate 32 1,
     rs_Ciphertext = toy_tag (ContextInfo (replicate 32 1) (replicate 32 2)) [] @ replicate 32 7\<rparr>"

lemma toy_wrapped_seal:
  "SealToBrowser toy_hpke (replicate 32 1) (ContextInfo (replicate 32 1) (replicate 32 2)) []
     (replicate 32 7) = Inr toy_wrapped"
  by (simp add: SealToBrowser_def toy_hpke_def toy_wrapped_def)

lemma toy_wrapped_length: "length (rs_Enc toy_wrapped) = 32 \<and> length (rs_Ciphertext toy_wrapped) = 186"
  by (simp add: toy_wrapped_def toy_tag_def length_ContextInfo)

lemma toy_header_length:
  "length (ChunkedUploadHeader_json (sender_header ''f'' toy_wrapped (replicate 12 0) [[1, 2], [3]]))
     \<le> maxHeaderBytes"
proof -
  have "length (json_string (b64_encode StdEncoding bs)) \<le> 2 * length bs + 6" for bs
    using length_std [of bs] by (simp add: json_string_plain b64_encode_plain)
  from this [of "rs_Enc toy_wrapped"] this [of "rs_Ciphertext toy_wrapped"] this [of "replicate 12 0"]
  have "length (json_string (b64_encode StdEncoding (rs_Enc toy_wrapped))) +
      length (json_string (b64_encode StdEncoding (rs_Ciphertext toy_wrapped))) +
      length (json_string (b64_encode StdEncoding (replicate 12 0))) \<le> 600"
    using toy_wrapped_length by simp
  moreover have "length (json_string (hex_encode (sha256 [1, 2, 3]))) = 66"
    by (simp add: json_string_plain hex_encode_plain length_hex_encode)
  moreover have "length (json_string ''f'') = 3"
    by (simp add: json_string_plain plain_char_def)
  moreover have "length (json_string ''file_id'') + length (json_string ''enc'') +
      length (json_string ''wrapped_key'') + length (json_string ''base_iv'') +
      length (json_string ''total_chunks'') + length (json_string ''plaintext_sha256'') \<le> 100"
    by (simp add: json_string_plain plain_char_def)
  moreover have "length (show_int 2) = 1"
    by (simp add: show_int_def show_nat.simps)
  ultimately show ?thesis
    by (simp add: ChunkedUploadHeader_json_def json_object_def json_pair_def sender_header_def
        maxHeaderBytes_def)
qed

lemma toy_exact: "aead_exact toy_open toy_seal"
  by (simp add: aead_exact_def toy_open_iff)

lemma toy_frames: "list_all frame_ok (seal_chunks toy_seal 2 ''f'' 0 (replicate 12 0) [[1, 2], [3]])"
  by (simp add: frame_ok_def toy_seal_def toy_tag_def chunk_aad_def show_int_def show_nat.simps)

definition toy_body :: bytes where
  "toy_body = sender_body toy_seal ''f'' toy_wrapped (replicate 12 0) [[1, 2], [3]]"

lemma toy_header_ok:
  "header_bytes_ok
     (bytes_of (ChunkedUploadHeader_json (sender_header ''f'' toy_wrapped (replicate 12 0) [[1, 2], [3]])))
     (sender_header ''f'' toy_wrapped (replicate 12 0) [[1, 2], [3]])"
  by (rule sender_header_read)
    (simp_all add: toy_header_length maxTotalChunks_def valid_utf8_ascii is_ascii_def)

lemma toy_cipher:
  assumes "e_hpke E = toy_hpke" and "e_aes E (replicate 32 7) = Inr block" and "e_gcm E block = Inr gcm"
  shows "upload_cipher E (toy_builder t) (replicate 32 2)
           (sender_header ''f'' toy_wrapped (replicate 12 0) [[1, 2], [3]]) = Inr (gcm, replicate 12 0)"
  using assms toy_wrapped_seal
  by (intro sender_cipher [where key = "replicate 32 7"])
    (simp_all add: toy_builder_def toy_hpke_correct aesKeyLen_def)

lemma toy_loop:
  "chunk_loop toy_open 2 ''f'' 2 0 (replicate 12 0) []
     \<lparr>st_data = put_frames (seal_chunks toy_seal 2 ''f'' 0 (replicate 12 0) [[1, 2], [3]]) @ rest, st_end = e\<rparr> =
     Inr [1, 2, 3]"
  using sender_loop [OF toy_exact, of "replicate 12 0" "[[1, 2], [3]]" "''f''" rest e] toy_frames
  by (simp del: chunk_loop.simps seal_chunks.simps flip: numeral_2_eq_2)

lemma toy_decrypts:
  assumes "e_hpke E = toy_hpke" and "e_aes E (replicate 32 7) = Inr block" and "e_gcm E block = Inr gcm"
    and "chunk_loop gcm 2 ''f'' 2 0 (replicate 12 0) []
           \<lparr>st_data = put_frames (seal_chunks toy_seal 2 ''f'' 0 (replicate 12 0) [[1, 2], [3]]) @ rest, st_end = e\<rparr> =
           Inr [1, 2, 3]"
  shows "decryptChunkedUpload E (toy_builder t) \<lparr>st_data = toy_body @ rest, st_end = e\<rparr>
           (b64_encode RawURLEncoding (replicate 32 2)) = Inr [1, 2, 3]"
  using sender_decrypts [OF toy_header_ok toy_cipher [OF assms(1-3)], of toy_seal rest e] assms(4)
  by (simp add: toy_body_def del: chunk_loop.simps seal_chunks.simps flip: numeral_2_eq_2)

section \<open>The properties\<close>

text \<open>
  C5: what the documented sender produces is decrypted to the file.  The sender wraps a
  32-byte key for the enclave under the context of both HPKE keys, seals the chunks under it with
  the base IV plus the chunk index and the additional data \<open>i:total:file_id\<close>, and frames header
  and chunks; \<open>decryptChunkedUpload\<close> returns the concatenation of the chunks, whatever follows
  them on the stream.
\<close>

theorem upload_roundtrip:
  assumes "hpke_correct (e_hpke E) (ek_HPKEPriv (bu_keys b)) (ek_HPKEPub (bu_keys b))"
    and "SealToBrowser (e_hpke E) (ek_HPKEPub (bu_keys b))
           (ContextInfo (ek_HPKEPub (bu_keys b)) pub) [] key = Inr wrapped"
    and "length key = aesKeyLen" and "e_aes E key = Inr block" and "e_gcm E block = Inr gcm"
    and "aead_exact gcm seal" and "length pub = 32" and "length iv = 12"
    and "fid \<noteq> []" and "valid_utf8 fid" and "pts \<noteq> []" and "int (length pts) \<le> maxTotalChunks"
    and "length (ChunkedUploadHeader_json (sender_header fid wrapped iv pts)) \<le> maxHeaderBytes"
    and "list_all frame_ok (seal_chunks seal (int (length pts)) fid 0 iv pts)"
  shows "decryptChunkedUpload E b \<lparr>st_data = sender_body seal fid wrapped iv pts @ rest, st_end = e\<rparr>
           (b64_encode RawURLEncoding pub) = Inr (concat pts)"
proof (rule sender_decrypts)
  show "header_bytes_ok (bytes_of (ChunkedUploadHeader_json (sender_header fid wrapped iv pts)))
          (sender_header fid wrapped iv pts)"
    using assms(9-13) by (rule sender_header_read)
  show "upload_cipher E b pub (sender_header fid wrapped iv pts) = Inr (gcm, iv)"
    using assms(1-5,8) by (rule sender_cipher)
  show "chunk_loop gcm (int (length pts)) fid (length pts) 0 iv []
          \<lparr>st_data = put_frames (seal_chunks seal (int (length pts)) fid 0 iv pts) @ rest, st_end = e\<rparr> =
          Inr (concat pts)"
    using assms(6,8,14) by (rule sender_loop)
qed (fact assms(7))

lemma upload_roundtrip_witness:
  "decryptChunkedUpload (toy_env (\<lambda>_. Inl (Lib EOF)) 0) (toy_builder [])
     \<lparr>st_data = toy_body @ [9], st_end = EOF\<rparr>
     (b64_encode RawURLEncoding (replicate 32 2)) = Inr [1, 2, 3]"
  using upload_roundtrip [of "toy_env (\<lambda>_. Inl (Lib EOF)) 0" "toy_builder []" "replicate 32 2"
      "replicate 32 7" toy_wrapped "\<lambda>b. replicate 32 7" toy_open toy_seal "replicate 12 0" "''f''"
      "[[1, 2], [3]]" "[9]" EOF]
    toy_wrapped_seal toy_header_length toy_frames
  by (simp add: toy_builder_def toy_hpke_correct toy_exact aesKeyLen_def maxTotalChunks_def
      valid_utf8_ascii is_ascii_def toy_body_def)

text \<open>
  C4: \<open>decryptChunkedUpload\<close> accepts exactly the valid uploads.  With a cipher that opens what
  sealing produces and nothing else, the body is accepted with result \<open>out\<close> if and only if it is a
  header within the limits that wraps a 32-byte key for this enclave and this browser, followed by
  the frames of exactly \<open>total_chunks\<close> chunks sealed under the base IV plus their index with the
  additional data of their place, and \<open>out\<close> is the concatenation of the chunks and matches the
  commitment when the header makes one.
\<close>

theorem upload_accepts_iff:
  assumes "gcm_documented E seal" and "b64_decode RawURLEncoding pub64 = Inr pub"
    and "length pub = 32"
  shows "decryptChunkedUpload E b st pub64 = Inr out \<longleftrightarrow> valid_upload E seal b pub (st_data st) out"
  using assms by (rule decrypt_valid_upload)

lemma upload_accepts_iff_witness:
  "valid_upload (toy_env (\<lambda>_. Inl (Lib EOF)) 0) (\<lambda>_. toy_seal) (toy_builder []) (replicate 32 2)
     (toy_body @ [9]) [1, 2, 3]"
proof -
  have "gcm_documented (toy_env (\<lambda>_. Inl (Lib EOF)) 0) (\<lambda>_. toy_seal)"
    by (simp add: gcm_documented_def toy_exact)
  from upload_accepts_iff [OF this rawurl.dec_enc, of "replicate 32 2" "toy_builder []"
      "\<lparr>st_data = toy_body @ [9], st_end = EOF\<rparr>"]
  show ?thesis
    using toy_decrypts [of "toy_env (\<lambda>_. Inl (Lib EOF)) 0" "\<lambda>b. replicate 32 7" toy_open "[9]" EOF "[]"] toy_loop
    by simp
qed

text \<open>
  C20: an upload that is cut off is refused.  Whatever the cipher does, no proper prefix of a
  complete upload (a valid header and the frames of all its chunks) is accepted, with any result.
\<close>

theorem upload_cut_off:
  assumes "header_bytes_ok hb hdr" and "list_all frame_ok cts"
    and "length cts = nat (ch_TotalChunks hdr)"
    and "d @ x = put_frame hb @ put_frames cts" and "x \<noteq> []"
  shows "\<not> result_ok (decryptChunkedUpload E b \<lparr>st_data = d, st_end = e\<rparr> pub64)"
  using cut_off_refused [OF assms] by (auto simp: result_ok_iff)

lemma upload_cut_off_witness:
  "\<not> result_ok (decryptChunkedUpload (toy_env (\<lambda>_. Inl (Lib EOF)) 0) (toy_builder [])
     \<lparr>st_data = butlast toy_body, st_end = EOF\<rparr> (b64_encode RawURLEncoding (replicate 32 2)))"
proof -
  let ?h = "sender_header ''f'' toy_wrapped (replicate 12 0) [[1, 2], [3]]"
  let ?cs = "seal_chunks toy_seal 2 ''f'' 0 (replicate 12 0) [[1, 2], [3]]"
  have "length ?cs = nat (ch_TotalChunks ?h)"
    by (simp add: sender_header_def)
  moreover have "toy_body \<noteq> []"
    by (simp add: toy_body_def sender_body_def put_frame_def)
  then have "butlast toy_body @ [last toy_body] =
      put_frame (bytes_of (ChunkedUploadHeader_json ?h)) @ put_frames ?cs"
    by (simp add: toy_body_def sender_body_def)
  ultimately show ?thesis
    using upload_cut_off [OF toy_header_ok toy_frames] by blast
qed

text \<open>
  C11: no splicing.  If nothing opens under a key but what its owner sealed for some place
  \<open>(index, total, file id, nonce)\<close>, then an accepted upload consists of chunks that were sealed under
  the key its header wraps for index 0, 1, ... of the header's file id and total, with the header's
  base IV plus the index: chunks cannot be dropped, repeated, reordered or taken from another file.
\<close>

theorem upload_no_splice:
  assumes "\<forall>key block gcm. e_aes E key = Inr block \<longrightarrow> e_gcm E block = Inr gcm \<longrightarrow> unforgeable gcm (G key)"
    and "decryptChunkedUpload E b st pub64 = Inr out"
  shows "\<exists>pub hdr st' key iv pts.
           b64_decode RawURLEncoding pub64 = Inr pub \<and> upload_header st = Inr (hdr, st') \<and> header_ok hdr \<and>
           wraps_key E b pub hdr key \<and> b64_decode StdEncoding (ch_BaseIV hdr) = Inr iv \<and>
           out = concat pts \<and> int (length pts) = ch_TotalChunks hdr \<and> commitment_ok hdr out \<and>
           (\<forall>j < length pts. (j, ch_TotalChunks hdr, ch_FileID hdr, nonce_at iv j, pts ! j) \<in> G key)"
proof -
  obtain pub hdr st' gcm iv where d: "b64_decode RawURLEncoding pub64 = Inr pub"
      "upload_header st = Inr (hdr, st')" "upload_cipher E b pub hdr = Inr (gcm, iv)"
      "chunk_loop gcm (ch_TotalChunks hdr) (ch_FileID hdr) (nat (ch_TotalChunks hdr)) 0 iv [] st' = Inr out"
      "commitment_ok hdr out"
    using assms(2) by (auto simp: decrypt_iff)
  from d(2) have h: "header_ok hdr"
    by (auto simp: upload_header_iff header_bytes_ok_def)
  from d(3) obtain key block where k: "wraps_key E b pub hdr key" "e_aes E key = Inr block"
      "e_gcm E block = Inr gcm" "b64_decode StdEncoding (ch_BaseIV hdr) = Inr iv"
    by (auto simp: upload_cipher_iff)
  have "0 \<le> ch_TotalChunks hdr"
    using h by (simp add: header_ok_def)
  then obtain pts where p: "out = concat pts" "int (length pts) = ch_TotalChunks hdr"
      "\<forall>j < length pts. (j, ch_TotalChunks hdr, ch_FileID hdr, nonce_at iv j, pts ! j) \<in> G key"
    using chunk_loop_genuine [OF assms(1) [rule_format, OF k(2,3)] _ d(4)] by fastforce
  show ?thesis
    using d(1,2) h k(1,4) p(1,2) d(5) p(3) by blast
qed

definition picky_open :: aead_open where
  "picky_open nonce ct aad =
     (if aad = chunk_aad 0 2 ''f'' \<or> aad = chunk_aad 1 2 ''f'' then toy_open nonce ct aad
      else Inl (Lib (LibError ''message authentication failed'')))"

lemma upload_no_splice_witness:
  "\<exists>pts. [1, 2, 3 :: byte] = concat pts \<and> length pts \<le> 16384"
proof -
  let ?E = "(toy_env (\<lambda>_. Inl (Lib EOF)) 0)\<lparr>e_gcm := \<lambda>_. Inr picky_open\<rparr>"
  let ?G = "\<lambda>key :: bytes. {(i :: nat, t, f, n, p). t = (2 :: int)}"
  have "unforgeable picky_open (?G key)" for key
    by (auto simp: unforgeable_def picky_open_def split: if_splits)
  then have u: "\<forall>key block gcm. e_aes ?E key = Inr block \<longrightarrow> e_gcm ?E block = Inr gcm \<longrightarrow>
      unforgeable gcm (?G key)"
    by simp
  have "chunk_loop picky_open 2 ''f'' 2 0 (replicate 12 0) [] body =
      chunk_loop toy_open 2 ''f'' 2 0 (replicate 12 0) [] body" for body
    by (rule chunk_loop_cong) (auto simp: picky_open_def less_Suc_eq numeral_2_eq_2)
  then have "chunk_loop picky_open 2 ''f'' 2 0 (replicate 12 0) []
      \<lparr>st_data = put_frames (seal_chunks toy_seal 2 ''f'' 0 (replicate 12 0) [[1, 2], [3]]) @ [9],
       st_end = EOF\<rparr> = Inr [1, 2, 3]"
    by (simp only: toy_loop)
  then have d: "decryptChunkedUpload ?E (toy_builder []) \<lparr>st_data = toy_body @ [9], st_end = EOF\<rparr>
      (b64_encode RawURLEncoding (replicate 32 2)) = Inr [1, 2, 3]"
    by (intro toy_decrypts [where block = "\<lambda>b. replicate 32 7"]) (simp_all add: toy_env_def del: chunk_loop.simps)
  obtain hdr pts where "[1, 2, 3 :: byte] = concat pts" "int (length pts) = ch_TotalChunks hdr" "header_ok hdr"
    using upload_no_splice [OF u d] by blast
  then show ?thesis
    by (intro exI [of _ pts]) (simp add: header_ok_def maxTotalChunks_def)
qed

text \<open>
  C19: the nonce of chunk \<open>i\<close> is the base IV plus \<open>i\<close> as a 96-bit big-endian number, and the
  nonces of the chunks of one upload (at most 16384) are pairwise different, also where the
  increment carries through all twelve bytes and wraps around.
\<close>

theorem upload_nonces:
  assumes "length iv = 12"
  shows "be_value ((inc_nonce ^^ i) iv) = (be_value iv + i) mod 2 ^ 96 \<and>
    (int i < maxTotalChunks \<and> int j < maxTotalChunks \<and> (inc_nonce ^^ i) iv = (inc_nonce ^^ j) iv \<longrightarrow> i = j)"
  using nonce_at_value [OF assms, of i] nonce_at_inject [OF assms, of i j]
  by (simp add: nonce_at_def maxTotalChunks_def)

lemma upload_nonces_witness:
  "be_value ((inc_nonce ^^ 3) [255, 255, 255, 255, 255, 255, 255, 255, 255, 255, 255, 255]) = 2"
  using upload_nonces [of "[255, 255, 255, 255, 255, 255, 255, 255, 255, 255, 255, 255]" 3 0]
  by (simp add: be_value_def)

text \<open>
  The additional data of a chunk determines its index, the number of chunks and the file id,
  although the file id may contain colons and digits.
\<close>

theorem upload_aad_inject:
  assumes "0 \<le> t" and "0 \<le> u"
  shows "chunk_aad i t f = chunk_aad j u g \<longleftrightarrow> i = j \<and> t = u \<and> f = g"
  using chunk_aad_inject [OF _ assms] by blast

lemma upload_aad_inject_witness:
  "chunk_aad 1 23 ''4:5'' \<noteq> chunk_aad 12 3 ''4:5'' \<and> chunk_aad 0 2 ''3:x'' \<noteq> chunk_aad 0 2 ''x''"
  using upload_aad_inject [of 23 3 1 "''4:5''" 12 "''4:5''"]
    upload_aad_inject [of 2 2 0 "''3:x''" 0 "''x''"] by simp

end
