(* ===== verification/Jwks.thy ===== *)
theory Jwks
  imports Env
begin

text \<open>
  \<open>internal/server/auth.go\<close>, first half: the cache of the signing keys that the identity provider
  publishes.  \<open>getPublicKey\<close> consists of a section under the read lock (\<open>jwks_fast\<close>) and a section
  under the write lock (\<open>jwks_slow\<close>), which re-checks the cache before it fetches.
\<close>

record jwksKey =
  jk_Kid :: string
  jk_Kty :: string
  jk_N :: string
  jk_E :: string

record jwksDocument =
  jd_Keys :: "jwksKey list"

definition jwksKey_zero :: jwksKey where
  "jwksKey_zero = \<lparr>jk_Kid = [], jk_Kty = [], jk_N = [], jk_E = []\<rparr>"

definition jwksKey_fields :: "(string \<times> jwksKey setter) list" where
  "jwksKey_fields =
     [(''kid'', set_string (\<lambda>x r. r\<lparr>jk_Kid := x\<rparr>)), (''kty'', set_string (\<lambda>x r. r\<lparr>jk_Kty := x\<rparr>)),
      (''n'', set_string (\<lambda>x r. r\<lparr>jk_N := x\<rparr>)), (''e'', set_string (\<lambda>x r. r\<lparr>jk_E := x\<rparr>))]"

definition jwksDocument_fields :: "(string \<times> jwksDocument setter) list" where
  "jwksDocument_fields =
     [(''keys'', set_slice (decode_struct jwksKey_fields) jwksKey_zero jd_Keys
                   (\<lambda>x r. r\<lparr>jd_Keys := x\<rparr>))]"

definition jwksCacheTTL :: int where
  "jwksCacheTTL = hour"

section \<open>Building a key\<close>

text \<open>The loop \<open>e = (e << 8) | int(b)\<close> on a 64-bit \<open>int\<close>.\<close>

definition exponent_of :: "bytes \<Rightarrow> 64 word" where
  "exponent_of eBytes = foldl (\<lambda>e b. (push_bit 8 e) OR ucast b) 0 eBytes"

definition rsaPubKeyFromJWK :: "jwksKey \<Rightarrow> rsa_key result" where
  "rsaPubKeyFromJWK k =
     (case b64_decode RawURLEncoding (jk_N k) of
        Inl err \<Rightarrow> Inl (Wrapf ''decode n'' err)
      | Inr nBytes \<Rightarrow>
          (case b64_decode RawURLEncoding (jk_E k) of
             Inl err \<Rightarrow> Inl (Wrapf ''decode e'' err)
           | Inr eBytes \<Rightarrow>
               (let e = exponent_of eBytes in
                if e = 0 then Inl (Errorf ''invalid public exponent'')
                else Inr \<lparr>rsa_N = be_value nBytes, rsa_E = e\<rparr>)))"

section \<open>Fetching the document\<close>

fun jwks_result :: "jwksKey list \<Rightarrow> (string \<Rightarrow> rsa_key option) \<Rightarrow> string \<Rightarrow> rsa_key option" where
  "jwks_result [] result = result"
| "jwks_result (k # ks) result =
     (if jk_Kty k \<noteq> ''RSA'' \<or> jk_Kid k = [] then jwks_result ks result
      else
        (case rsaPubKeyFromJWK k of
           Inl err \<Rightarrow> jwks_result ks result
         | Inr pub \<Rightarrow> jwks_result ks (result(jk_Kid k \<mapsto> pub))))"

definition jwks_of_response :: "peer_response \<Rightarrow> (string \<Rightarrow> rsa_key option) result" where
  "jwks_of_response resp =
     (if pr_status resp \<noteq> 200
      then Inl (Errorf (''JWKS endpoint returned HTTP '' @ show_nat (pr_status resp)))
      else
        (case read_limited (2 ^ 20) (pr_body resp) of
           Inl err \<Rightarrow> Inl err
         | Inr body \<Rightarrow>
             (case json_unmarshal (decode_struct jwksDocument_fields) \<lparr>jd_Keys = []\<rparr> body of
                Inl err \<Rightarrow> Inl (Wrapf ''parse JWKS'' err)
              | Inr doc \<Rightarrow> Inr (jwks_result (jd_Keys doc) (\<lambda>_. None)))))"

definition fetchJWKS ::
  "env \<Rightarrow> string \<Rightarrow> server_state \<Rightarrow> (string \<Rightarrow> rsa_key option) result \<times> server_state" where
  "fetchJWKS E jwksURL s =
     (case http_do E (get_request jwksURL) s of
        (Inl err, s') \<Rightarrow> (Inl err, s')
      | (Inr resp, s') \<Rightarrow> (jwks_of_response resp, s'))"

section \<open>The cache\<close>

definition cache_fresh :: "int \<Rightarrow> jwksCache \<Rightarrow> bool" where
  "cache_fresh now c = (time_since now (jc_fetchedAt c) < jwksCacheTTL)"

definition cache_lookup :: "int \<Rightarrow> string \<Rightarrow> jwksCache \<Rightarrow> rsa_key option" where
  "cache_lookup now kid c = (if cache_fresh now c then jc_keys c kid else None)"

definition jwks_fast :: "env \<Rightarrow> string \<Rightarrow> server_state \<Rightarrow> rsa_key option" where
  "jwks_fast E kid s = cache_lookup (e_clock E FastPath) kid (sv_jwks s)"

definition jwks_slow ::
  "env \<Rightarrow> string \<Rightarrow> string \<Rightarrow> server_state \<Rightarrow> rsa_key result \<times> server_state" where
  "jwks_slow E jwksURL kid s =
     (case cache_lookup (e_clock E SlowPath) kid (sv_jwks s) of
        Some k \<Rightarrow> (Inr k, s)
      | None \<Rightarrow>
          (case fetchJWKS E jwksURL s of
             (Inl err, s') \<Rightarrow> (Inl (Wrapf ''fetch JWKS'' err), s')
           | (Inr keys, s') \<Rightarrow>
               (let s'' = s'\<lparr>sv_jwks := \<lparr>jc_keys = keys, jc_fetchedAt = e_clock E AfterFetch\<rparr>\<rparr> in
                case keys kid of
                  None \<Rightarrow> (Inl (Errorf (''key id '' @ go_quote (e_is_print E) kid
                                  @ '' not found in JWKS'')), s'')
                | Some k \<Rightarrow> (Inr k, s''))))"

definition getPublicKey ::
  "env \<Rightarrow> string \<Rightarrow> string \<Rightarrow> server_state \<Rightarrow> rsa_key result \<times> server_state" where
  "getPublicKey E jwksURL kid s =
     (case jwks_fast E kid s of
        Some k \<Rightarrow> (Inr k, s)
      | None \<Rightarrow> jwks_slow E jwksURL kid s)"

section \<open>What a built key is\<close>

text \<open>
  The loop computes the big-endian value modulo \<open>2 ^ 64\<close>: shifting leaves the low byte free, so
  the disjunction adds.
\<close>

lemma or_byte: "(push_bit 8 (e :: 64 word)) OR ucast (b :: byte) = 256 * e + ucast b"
proof -
  have "(push_bit 8 e) AND ucast b = 0"
    by (rule bit_word_eqI) (auto simp: bit_simps dest: bit_imp_le_length)
  then have "(push_bit 8 e) OR ucast b = push_bit 8 e + ucast b"
    by (rule disjunctive_add_eq_or [symmetric])
  then show ?thesis
    by (simp add: push_bit_eq_mult mult.commute)
qed

lemma exponent_of_value: "exponent_of bs = of_nat (be_value bs)"
proof (induction bs rule: rev_induct)
  case Nil
  show ?case by (simp add: exponent_of_def)
next
  case (snoc b bs)
  have "exponent_of (bs @ [b]) = 256 * exponent_of bs + ucast b"
    by (simp add: exponent_of_def or_byte)
  also have "\<dots> = of_nat (be_value (bs @ [b]))"
    using snoc by (simp add: unsigned_of_nat)
  finally show ?case .
qed

lemma rsaPubKey_Inr:
  "rsaPubKeyFromJWK k = Inr pub \<longleftrightarrow>
     (\<exists>n e. b64_decode RawURLEncoding (jk_N k) = Inr n \<and> b64_decode RawURLEncoding (jk_E k) = Inr e \<and>
        (of_nat (be_value e) :: 64 word) \<noteq> 0 \<and>
        pub = \<lparr>rsa_N = be_value n, rsa_E = of_nat (be_value e)\<rparr>)"
  by (auto simp: rsaPubKeyFromJWK_def Let_def exponent_of_value split: sum.splits)

section \<open>What a document yields\<close>

definition jwk_usable :: "string \<Rightarrow> jwksKey \<Rightarrow> bool" where
  "jwk_usable kid k \<longleftrightarrow>
     jk_Kty k = ''RSA'' \<and> jk_Kid k = kid \<and> kid \<noteq> [] \<and> result_ok (rsaPubKeyFromJWK k)"

text \<open>The last usable key of a kid is the one that counts.\<close>

definition jwks_find :: "jwksKey list \<Rightarrow> string \<Rightarrow> rsa_key option" where
  "jwks_find ks kid =
     (case find (jwk_usable kid) (rev ks) of
        None \<Rightarrow> None
      | Some k \<Rightarrow> (case rsaPubKeyFromJWK k of Inr pub \<Rightarrow> Some pub | Inl _ \<Rightarrow> None))"

lemma find_append: "find P (xs @ ys) = (case find P xs of None \<Rightarrow> find P ys | Some x \<Rightarrow> Some x)"
  by (induction xs) auto

lemma jwks_result_find:
  "jwks_result ks m kid = (case jwks_find ks kid of None \<Rightarrow> m kid | Some pub \<Rightarrow> Some pub)"
proof (induction ks arbitrary: m)
  case Nil
  show ?case by (simp add: jwks_find_def)
next
  case (Cons k ks)
  show ?case
  proof (cases "find (jwk_usable kid) (rev ks)")
    case None
    then show ?thesis
      by (auto simp: Cons jwks_find_def find_append jwk_usable_def result_ok_def split: sum.splits)
  next
    case (Some k')
    then have "jwk_usable kid k'"
      by (auto simp: find_Some_iff)
    then obtain pub where "rsaPubKeyFromJWK k' = Inr pub"
      by (auto simp: jwk_usable_def result_ok_iff)
    then show ?thesis
      by (auto simp: Cons jwks_find_def find_append Some split: sum.splits)
  qed
qed

section \<open>What a lookup does\<close>

lemma fetchJWKS_effect:
  "fetchJWKS E url s = (r, s') \<Longrightarrow>
     sends s s' [get_request url] \<and> sv_jwks s' = sv_jwks s \<and>
     (\<forall>keys. r = Inr keys \<longrightarrow>
        (\<exists>resp. e_net E (get_request url) = Inr resp \<and> jwks_of_response resp = Inr keys))"
  by (auto simp: fetchJWKS_def http_do_def sends_def split: sum.splits)

lemma jwks_slow_cases:
  assumes "jwks_slow E url kid s = (r, s')"
  obtains (hit) k where "cache_lookup (e_clock E SlowPath) kid (sv_jwks s) = Some k"
      "r = Inr k" "s' = s"
  | (failed) err where "cache_lookup (e_clock E SlowPath) kid (sv_jwks s) = None"
      "r = Inl (Wrapf ''fetch JWKS'' err)"
      "sends s s' [get_request url]" "sv_jwks s' = sv_jwks s"
  | (fetched) resp keys where "cache_lookup (e_clock E SlowPath) kid (sv_jwks s) = None"
      "e_net E (get_request url) = Inr resp"
      "jwks_of_response resp = Inr keys" "sends s s' [get_request url]"
      "sv_jwks s' = \<lparr>jc_keys = keys, jc_fetchedAt = e_clock E AfterFetch\<rparr>"
      "r = (case keys kid of Some k \<Rightarrow> Inr k
            | None \<Rightarrow> Inl (Errorf (''key id '' @ go_quote (e_is_print E) kid @ '' not found in JWKS'')))"
proof (cases "cache_lookup (e_clock E SlowPath) kid (sv_jwks s)")
  case (Some k)
  with assms show thesis
    by (auto simp: jwks_slow_def intro: hit)
next
  case None
  obtain fr s1 where f: "fetchJWKS E url s = (fr, s1)"
    by fastforce
  note eff = fetchJWKS_effect [OF f]
  show thesis
  proof (cases fr)
    case (Inl err)
    then show thesis
      using assms None f eff by (intro failed) (auto simp: jwks_slow_def)
  next
    case (Inr keys)
    with eff obtain resp where "e_net E (get_request url) = Inr resp" "jwks_of_response resp = Inr keys"
      by auto
    then show thesis
      using assms None f eff Inr
      by (intro fetched) (auto simp: jwks_slow_def Let_def sends_def split: option.splits)
  qed
qed

lemma getPublicKey_sends:
  "getPublicKey E url kid s = (r, s') \<Longrightarrow> sends s s' [] \<and> s' = s \<or> sends s s' [get_request url]"
  by (auto simp: getPublicKey_def split: option.splits elim: jwks_slow_cases)

section \<open>What the cache holds\<close>

text \<open>Every key in it has an exponent, and no key is kept without a kid.\<close>

definition keys_wf :: "(string \<Rightarrow> rsa_key option) \<Rightarrow> bool" where
  "keys_wf keys \<longleftrightarrow> (\<forall>kid k. keys kid = Some k \<longrightarrow> kid \<noteq> [] \<and> rsa_E k \<noteq> 0)"

lemma keys_wf_empty [simp]: "keys_wf (\<lambda>_. None)"
  by (simp add: keys_wf_def)

lemma rsaPubKey_exponent: "rsaPubKeyFromJWK k = Inr pub \<Longrightarrow> rsa_E pub \<noteq> 0"
  unfolding rsaPubKey_Inr by auto

lemma jwks_find_wf:
  assumes "jwks_find ks kid = Some pub"
  shows "kid \<noteq> [] \<and> rsa_E pub \<noteq> 0"
proof -
  obtain k where k: "find (jwk_usable kid) (rev ks) = Some k" "rsaPubKeyFromJWK k = Inr pub"
    using assms by (auto simp: jwks_find_def split: option.splits sum.splits)
  then have "jwk_usable kid k"
    by (auto simp: find_Some_iff)
  then show ?thesis
    using rsaPubKey_exponent [OF k(2)] by (simp add: jwk_usable_def)
qed

lemma jwks_result_wf: "keys_wf m \<Longrightarrow> keys_wf (jwks_result ks m)"
  by (auto simp: keys_wf_def jwks_result_find dest: jwks_find_wf split: option.splits)

lemma jwks_of_response_wf: "jwks_of_response resp = Inr keys \<Longrightarrow> keys_wf keys"
  by (auto simp: jwks_of_response_def jwks_result_wf split: sum.splits if_splits)

lemma jwks_slow_wf:
  assumes "jwks_slow E url kid s = (r, s')" and "keys_wf (jc_keys (sv_jwks s))"
  shows "keys_wf (jc_keys (sv_jwks s'))"
  using assms(1)
  by (cases rule: jwks_slow_cases) (auto simp: assms(2) dest: jwks_of_response_wf)

lemma getPublicKey_wf:
  "getPublicKey E url kid s = (r, s') \<Longrightarrow> keys_wf (jc_keys (sv_jwks s)) \<Longrightarrow>
   keys_wf (jc_keys (sv_jwks s'))"
  by (auto simp: getPublicKey_def dest: jwks_slow_wf split: option.splits)

end
