(* ===== verification/Jwks_Cache.thy ===== *)
theory Jwks_Cache
  imports Jwks
begin

text \<open>
  The cache under concurrent requests.  The server runs every handler in its own goroutine; the
  read-write lock makes the two sections of \<open>getPublicKey\<close> atomic, and they may interleave in any
  way.  \<open>jc_step\<close> is that interleaving: each step has its own environment, so the clock and the
  provider's answers may change between steps.

  Two invariants: no goroutine gets a key that the provider did not publish under that kid, and
  goroutines that miss together cause one fetch (the re-check under the write lock).
\<close>

section \<open>The interleaving\<close>

datatype jc_pc = JStart string | JMissed string | JDone string "rsa_key result"

record jc_world =
  jw_state :: server_state
  jw_pcs :: "nat \<Rightarrow> jc_pc"

inductive jc_step :: "(env \<Rightarrow> bool) \<Rightarrow> string \<Rightarrow> jc_world \<Rightarrow> jc_world \<Rightarrow> bool"
  for envs url where
  fast_hit:
    "envs E \<Longrightarrow> jw_pcs w i = JStart kid \<Longrightarrow> jwks_fast E kid (jw_state w) = Some k \<Longrightarrow>
     jc_step envs url w (w\<lparr>jw_pcs := (jw_pcs w)(i := JDone kid (Inr k))\<rparr>)"
| fast_miss:
    "envs E \<Longrightarrow> jw_pcs w i = JStart kid \<Longrightarrow> jwks_fast E kid (jw_state w) = None \<Longrightarrow>
     jc_step envs url w (w\<lparr>jw_pcs := (jw_pcs w)(i := JMissed kid)\<rparr>)"
| slow:
    "envs E \<Longrightarrow> jw_pcs w i = JMissed kid \<Longrightarrow> jwks_slow E url kid (jw_state w) = (r, s') \<Longrightarrow>
     jc_step envs url w
       (w\<lparr>jw_state := s', jw_pcs := (jw_pcs w)(i := JDone kid r)\<rparr>)"

inductive_cases jc_stepE: "jc_step envs url w w'"

inductive jc_reachable :: "(env \<Rightarrow> bool) \<Rightarrow> string \<Rightarrow> jc_world \<Rightarrow> jc_world \<Rightarrow> bool"
  for envs url w0 where
  jc_start: "jc_reachable envs url w0 w0"
| jc_next: "jc_reachable envs url w0 w \<Longrightarrow> jc_step envs url w w' \<Longrightarrow> jc_reachable envs url w0 w'"

text \<open>One request alone is the two sections in a row.\<close>

lemma sequential_run:
  assumes "envs E" and "jw_pcs w i = JStart kid" and "getPublicKey E url kid (jw_state w) = (r, s')"
  shows "\<exists>w'. jc_reachable envs url w w' \<and> jw_state w' = s' \<and> jw_pcs w' i = JDone kid r"
proof (cases "jwks_fast E kid (jw_state w)")
  case (Some k)
  then have "jc_step envs url w (w\<lparr>jw_pcs := (jw_pcs w)(i := JDone kid (Inr k))\<rparr>)"
    using assms by (intro fast_hit)
  then have "jc_reachable envs url w (w\<lparr>jw_pcs := (jw_pcs w)(i := JDone kid (Inr k))\<rparr>)"
    by (rule jc_next [OF jc_start])
  then show ?thesis
    using assms(3) Some by (intro exI conjI) (auto simp: getPublicKey_def)
next
  case None
  let ?w1 = "w\<lparr>jw_pcs := (jw_pcs w)(i := JMissed kid)\<rparr>"
  let ?w2 = "?w1\<lparr>jw_state := s', jw_pcs := (jw_pcs ?w1)(i := JDone kid r)\<rparr>"
  have "jc_step envs url w ?w1"
    using assms None by (intro fast_miss)
  moreover have "jc_step envs url ?w1 ?w2"
    using assms None by (intro slow) (simp_all add: getPublicKey_def)
  ultimately have "jc_reachable envs url w ?w2"
    by (blast intro: jc_start jc_next)
  then show ?thesis
    by (intro exI conjI) auto
qed

section \<open>Keys come from the provider\<close>

text \<open>\<open>published kid k\<close>: some answer of the provider carries key \<open>k\<close> under \<open>kid\<close>.\<close>

definition published :: "(env \<Rightarrow> bool) \<Rightarrow> string \<Rightarrow> string \<Rightarrow> rsa_key \<Rightarrow> bool" where
  "published envs url kid k \<longleftrightarrow>
     (\<exists>E resp keys. envs E \<and> e_net E (get_request url) = Inr resp \<and>
        jwks_of_response resp = Inr keys \<and> keys kid = Some k)"

definition cache_published :: "(env \<Rightarrow> bool) \<Rightarrow> string \<Rightarrow> server_state \<Rightarrow> bool" where
  "cache_published envs url s \<longleftrightarrow>
     (\<forall>kid k. jc_keys (sv_jwks s) kid = Some k \<longrightarrow> published envs url kid k)"

lemma cache_lookup_published:
  "cache_published envs url s \<Longrightarrow> cache_lookup now kid (sv_jwks s) = Some k \<Longrightarrow>
   published envs url kid k"
  by (auto simp: cache_lookup_def cache_published_def split: if_splits)

lemma jwks_slow_published:
  assumes "jwks_slow E url kid s = (r, s')" and "envs E" and "cache_published envs url s"
  shows "cache_published envs url s' \<and> (\<forall>k. r = Inr k \<longrightarrow> published envs url kid k)"
  using assms(1)
proof (cases rule: jwks_slow_cases)
  case (hit k)
  with assms(3) show ?thesis by (auto dest: cache_lookup_published)
next
  case (failed err)
  with assms(3) show ?thesis by (simp add: cache_published_def)
next
  case (fetched resp keys)
  then have "published envs url kid' k" if "keys kid' = Some k" for kid' k
    using assms(2) that by (auto simp: published_def)
  with fetched show ?thesis
    by (auto simp: cache_published_def split: option.splits)
qed

lemma getPublicKey_published:
  assumes "getPublicKey E url kid s = (r, s')" and "envs E" and "cache_published envs url s"
  shows "cache_published envs url s' \<and> (\<forall>k. r = Inr k \<longrightarrow> published envs url kid k)"
  using assms jwks_slow_published [of E url kid s r s' envs]
  by (auto simp: getPublicKey_def jwks_fast_def dest: cache_lookup_published split: option.splits)

definition jc_sound :: "(env \<Rightarrow> bool) \<Rightarrow> string \<Rightarrow> jc_world \<Rightarrow> bool" where
  "jc_sound envs url w \<longleftrightarrow>
     cache_published envs url (jw_state w) \<and>
     (\<forall>i kid k. jw_pcs w i = JDone kid (Inr k) \<longrightarrow> published envs url kid k)"

lemma jc_step_sound: "jc_step envs url w w' \<Longrightarrow> jc_sound envs url w \<Longrightarrow> jc_sound envs url w'"
proof (induction rule: jc_step.induct)
  case (fast_hit E w i kid k)
  then have "published envs url kid k"
    by (auto simp: jwks_fast_def jc_sound_def dest: cache_lookup_published)
  with fast_hit show ?case by (auto simp: jc_sound_def)
next
  case (fast_miss E w i kid)
  then show ?case by (auto simp: jc_sound_def)
next
  case (slow E w i kid r s')
  then show ?case
    using jwks_slow_published [of E url kid "jw_state w" r s' envs] by (auto simp: jc_sound_def)
qed

lemma jc_reachable_sound:
  "jc_reachable envs url w0 w \<Longrightarrow> jc_sound envs url w0 \<Longrightarrow> jc_sound envs url w"
  by (induction rule: jc_reachable.induct) (auto intro: jc_step_sound)

section \<open>One fetch for goroutines that miss together\<close>

text \<open>
  A window: every clock read falls into \<open>[t, t + TTL)\<close>, and every fetch in it succeeds and names
  the kids that are asked for.
\<close>

definition good_window :: "int \<Rightarrow> string \<Rightarrow> string set \<Rightarrow> env \<Rightarrow> bool" where
  "good_window t url kids E \<longleftrightarrow>
     (\<forall>site. t \<le> e_clock E site \<and> e_clock E site < t + jwksCacheTTL) \<and>
     (case e_net E (get_request url) of
        Inl _ \<Rightarrow> False
      | Inr resp \<Rightarrow>
          (case jwks_of_response resp of
             Inl _ \<Rightarrow> False
           | Inr keys \<Rightarrow> kids \<subseteq> dom keys))"

definition pc_kid :: "jc_pc \<Rightarrow> string" where
  "pc_kid p = (case p of JStart k \<Rightarrow> k | JMissed k \<Rightarrow> k | JDone k _ \<Rightarrow> k)"

definition cache_covers :: "int \<Rightarrow> string set \<Rightarrow> jwksCache \<Rightarrow> bool" where
  "cache_covers t kids c \<longleftrightarrow> t \<le> jc_fetchedAt c \<and> kids \<subseteq> dom (jc_keys c)"

lemma covers_lookup:
  assumes "cache_covers t kids c" and "kid \<in> kids" and "now < t + jwksCacheTTL"
  shows "\<exists>k. cache_lookup now kid c = Some k"
proof -
  have "now - jc_fetchedAt c < jwksCacheTTL"
    using assms by (simp add: cache_covers_def)
  then have "cache_fresh now c"
    by (simp add: cache_fresh_def time_since_def jwksCacheTTL_def hour_def minute_def second_def)
  then show ?thesis
    using assms by (auto simp: cache_lookup_def cache_covers_def)
qed

definition one_fetch_inv :: "int \<Rightarrow> string set \<Rightarrow> out_request list \<Rightarrow> string \<Rightarrow> jc_world \<Rightarrow> bool" where
  "one_fetch_inv t kids sent url w \<longleftrightarrow>
     (\<forall>i. pc_kid (jw_pcs w i) \<in> kids) \<and>
     (sv_sent (jw_state w) = sent \<or>
      sv_sent (jw_state w) = sent @ [get_request url] \<and>
      cache_covers t kids (sv_jwks (jw_state w)))"

lemma slow_one_fetch:
  assumes "jwks_slow E url kid s = (r, s')" and "good_window t url kids E" and "kid \<in> kids"
    and "sv_sent s = sent \<or> sv_sent s = sent @ [get_request url] \<and> cache_covers t kids (sv_jwks s)"
  shows "sv_sent s' = sent \<or>
    sv_sent s' = sent @ [get_request url] \<and> cache_covers t kids (sv_jwks s')"
  using assms(1)
proof (cases rule: jwks_slow_cases)
  case (hit k)
  with assms(4) show ?thesis by simp
next
  case (failed err)
  with assms(1,2) show ?thesis
    by (auto simp: good_window_def jwks_slow_def fetchJWKS_def http_do_def Let_def
        split: sum.splits option.splits)
next
  case (fetched resp keys)
  have clock: "e_clock E SlowPath < t + jwksCacheTTL" "t \<le> e_clock E AfterFetch"
    using assms(2) by (auto simp: good_window_def)
  then have "\<not> cache_covers t kids (sv_jwks s)"
    using covers_lookup [OF _ assms(3)] fetched(1) by fastforce
  then have "sv_sent s = sent"
    using assms(4) by blast
  moreover have "kids \<subseteq> dom keys"
    using assms(2) fetched by (simp add: good_window_def)
  ultimately show ?thesis
    using fetched clock by (simp add: sends_def cache_covers_def)
qed

lemma jc_step_one_fetch:
  "jc_step (good_window t url kids) url w w' \<Longrightarrow> one_fetch_inv t kids sent url w \<Longrightarrow>
   one_fetch_inv t kids sent url w'"
proof (induction rule: jc_step.induct)
  case (slow E w i kid r s')
  have "kid \<in> kids"
    using slow(2,4) by (auto simp: one_fetch_inv_def pc_kid_def split: jc_pc.splits)
  then show ?case
    using slow_one_fetch [OF slow(3,1)] slow(4) by (auto simp: one_fetch_inv_def pc_kid_def)
qed (auto simp: one_fetch_inv_def pc_kid_def split: jc_pc.splits)

lemma jc_reachable_one_fetch:
  "jc_reachable (good_window t url kids) url w0 w \<Longrightarrow> one_fetch_inv t kids sent url w0 \<Longrightarrow>
   one_fetch_inv t kids sent url w"
  by (induction rule: jc_reachable.induct) (auto intro: jc_step_one_fetch)

end
