(* ===== verification/Auth.thy ===== *)
theory Auth
  imports Jwks_Cache
begin

text \<open>
  \<open>internal/server/auth.go\<close>, second half: the check of a Keycloak token and the two middlewares.
  \<open>token_valid\<close> is what a token has to be, stated without the order of the checks;
  \<open>keycloakAuthMiddleware\<close> and \<open>requireRole\<close> are interpretations of the locale \<open>guard\<close>.
\<close>

record AuthConfig =
  ac_JWKSUrl :: string
  ac_Issuer :: string

record jwt_header =
  jh_Alg :: string
  jh_Kid :: string

definition jwt_header_fields :: "(string \<times> jwt_header setter) list" where
  "jwt_header_fields =
     [(''alg'', set_string (\<lambda>x r. r\<lparr>jh_Alg := x\<rparr>)), (''kid'', set_string (\<lambda>x r. r\<lparr>jh_Kid := x\<rparr>))]"

definition parse_jwt_header :: "bytes \<Rightarrow> jwt_header result" where
  "parse_jwt_header = json_unmarshal (decode_struct jwt_header_fields) \<lparr>jh_Alg = [], jh_Kid = []\<rparr>"

record jwt_payload =
  jp_Exp :: int
  jp_Iss :: string

definition jwt_payload_fields :: "(string \<times> jwt_payload setter) list" where
  "jwt_payload_fields =
     [(''exp'', set_int (\<lambda>x r. r\<lparr>jp_Exp := x\<rparr>)), (''iss'', set_string (\<lambda>x r. r\<lparr>jp_Iss := x\<rparr>))]"

definition parse_jwt_payload :: "bytes \<Rightarrow> jwt_payload result" where
  "parse_jwt_payload = json_unmarshal (decode_struct jwt_payload_fields) \<lparr>jp_Exp = 0, jp_Iss = []\<rparr>"

section \<open>The check of a token\<close>

definition check_claims :: "env \<Rightarrow> string \<Rightarrow> string \<Rightarrow> unit result" where
  "check_claims E payload64 issuer =
     (case b64_decode RawURLEncoding payload64 of
        Inl err \<Rightarrow> Inl (Wrapf ''decode JWT payload'' err)
      | Inr payloadBytes \<Rightarrow>
          (case parse_jwt_payload payloadBytes of
             Inl err \<Rightarrow> Inl (Wrapf ''parse JWT payload'' err)
           | Inr payload \<Rightarrow>
               (if jp_Exp payload = 0 \<or> jp_Exp payload < unix_seconds (e_clock E ExpiryCheck)
                then Inl (Errorf ''JWT expired'')
                else if jp_Iss payload \<noteq> issuer then Inl (Errorf ''JWT issuer mismatch'')
                else Inr ())))"

definition validateKeycloakJWT ::
  "env \<Rightarrow> string \<Rightarrow> string \<Rightarrow> string \<Rightarrow> server_state \<Rightarrow> unit result \<times> server_state" where
  "validateKeycloakJWT E tokenStr jwksURL issuer s =
     (let parts = split_on (CHR ''.'') tokenStr in
      if length parts \<noteq> 3 then (Inl (Errorf ''malformed JWT''), s)
      else
        (case b64_decode RawURLEncoding (parts ! 0) of
           Inl err \<Rightarrow> (Inl (Wrapf ''decode JWT header'' err), s)
         | Inr headerBytes \<Rightarrow>
             (case parse_jwt_header headerBytes of
                Inl err \<Rightarrow> (Inl (Wrapf ''parse JWT header'' err), s)
              | Inr header \<Rightarrow>
                  (if jh_Alg header \<noteq> ''RS256''
                   then (Inl (Errorf (''unsupported algorithm '' @ go_quote (e_is_print E) (jh_Alg header))), s)
                   else if jh_Kid header = [] then (Inl (Errorf ''missing kid in JWT header''), s)
                   else
                     (case getPublicKey E jwksURL (jh_Kid header) s of
                        (Inl err, s') \<Rightarrow> (Inl (Wrapf ''get signing key'' err), s')
                      | (Inr pubKey, s') \<Rightarrow>
                          (let digest = sha256 (bytes_of (parts ! 0 @ ''.'' @ parts ! 1)) in
                           case b64_decode RawURLEncoding (parts ! 2) of
                             Inl err \<Rightarrow> (Inl (Wrapf ''decode JWT signature'' err), s')
                           | Inr sig \<Rightarrow>
                               (if \<not> e_rsa_verify E pubKey digest sig
                                then (Inl (Errorf ''invalid JWT signature''), s')
                                else (check_claims E (parts ! 1) issuer, s'))))))))"

section \<open>Roles\<close>

definition realm_access_fields :: "(string \<times> string list setter) list" where
  "realm_access_fields = [(''roles'', set_slice put_string [] (\<lambda>r. r) (\<lambda>x _. x))]"

definition role_claims_fields :: "(string \<times> string list setter) list" where
  "role_claims_fields = [(''realm_access'', set_struct realm_access_fields (\<lambda>r. r) (\<lambda>x _. x))]"

definition jwtRealmRoles :: "string \<Rightarrow> string list" where
  "jwtRealmRoles tokenStr =
     (let parts = split_on (CHR ''.'') tokenStr in
      if length parts \<noteq> 3 then []
      else
        (case b64_decode RawURLEncoding (parts ! 1) of
           Inl _ \<Rightarrow> []
         | Inr payload \<Rightarrow>
             (case json_unmarshal (decode_struct role_claims_fields) [] payload of
                Inl _ \<Rightarrow> []
              | Inr roles \<Rightarrow> roles)))"

section \<open>The middlewares\<close>

definition bearer_token :: "http_request \<Rightarrow> string" where
  "bearer_token r = trim_prefix (rq_get r ''Authorization'') ''Bearer ''"

text \<open>\<open>w.Header().Set("Content-Type", "application/json"); http.Error(w, msg, status)\<close>\<close>

definition json_error :: "string \<Rightarrow> nat \<Rightarrow> resp_writer \<Rightarrow> resp_writer" where
  "json_error msg n w = http_error msg n (w_set ''Content-Type'' ''application/json'' w)"

definition error_body :: "string \<Rightarrow> string" where
  "error_body msg = ''{'' @ json_string ''error'' @ '':'' @ json_string msg @ ''}''"

fun has_role :: "string \<Rightarrow> string list \<Rightarrow> bool" where
  "has_role role [] = False"
| "has_role role (realmRole # rs) = (if realmRole = role then True else has_role role rs)"

definition requireRole :: "string \<Rightarrow> server_state handler \<Rightarrow> server_state handler" where
  "requireRole role next r ws =
     (if has_role role (jwtRealmRoles (bearer_token r)) then next r ws
      else (json_error (error_body ''forbidden'') 403 (fst ws), snd ws))"

definition keycloakAuthMiddleware ::
  "env \<Rightarrow> string \<Rightarrow> string \<Rightarrow> server_state handler \<Rightarrow> server_state handler" where
  "keycloakAuthMiddleware E jwksURL issuer next r ws =
     (if rq_method r = ''OPTIONS'' \<or> rq_path r = ''/healthz'' then next r ws
      else
        (let authHeader = rq_get r ''Authorization'' in
         if \<not> has_prefix authHeader ''Bearer ''
         then (json_error (error_body ''missing Authorization header'') 401 (fst ws), snd ws)
         else
           (let token = trim_prefix authHeader ''Bearer '' in
            case validateKeycloakJWT E token jwksURL issuer (snd ws) of
              (Inl err, s') \<Rightarrow> (json_error (error_body ''unauthorized'') 401 (fst ws), s')
            | (Inr _, s') \<Rightarrow> next r (fst ws, s'))))"

section \<open>What a valid token is\<close>

text \<open>
  Signed by a key, in time, and from the issuer.  \<open>key\<close> is what the provider's key for the kid of
  the header turned out to be.
\<close>

definition token_valid :: "env \<Rightarrow> string \<Rightarrow> string \<Rightarrow> rsa_key \<Rightarrow> string \<Rightarrow> bool" where
  "token_valid E issuer kid key token \<longleftrightarrow>
     (\<exists>h p g hb hd sig pb pl.
        token = h @ ''.'' @ p @ ''.'' @ g \<and> CHR ''.'' \<notin> set (h @ p @ g) \<and>
        b64_decode RawURLEncoding h = Inr hb \<and> parse_jwt_header hb = Inr hd \<and>
        jh_Alg hd = ''RS256'' \<and> jh_Kid hd = kid \<and> kid \<noteq> [] \<and>
        b64_decode RawURLEncoding g = Inr sig \<and>
        e_rsa_verify E key (sha256 (bytes_of (h @ ''.'' @ p))) sig \<and>
        b64_decode RawURLEncoding p = Inr pb \<and> parse_jwt_payload pb = Inr pl \<and>
        jp_Exp pl \<noteq> 0 \<and> unix_seconds (e_clock E ExpiryCheck) \<le> jp_Exp pl \<and> jp_Iss pl = issuer)"

lemma split_three:
  assumes "length (split_on c s) = 3"
  obtains p q r where "split_on c s = [p, q, r]" "s = p @ c # q @ c # r" "c \<notin> set (p @ q @ r)"
proof -
  obtain p q r where parts: "split_on c s = [p, q, r]"
    using assms by (auto simp: numeral_eq_Suc length_Suc_conv)
  moreover have "c \<notin> set (p @ q @ r)"
    using split_on_parts [of _ c s] parts by auto
  ultimately show thesis
    using split_on_three by (blast intro: that)
qed

lemma split_three_iff:
  "c \<notin> set (p @ q @ r) \<Longrightarrow> split_on c (p @ c # q @ c # r) = [p, q, r]"
  by (simp add: split_on_append split_on_none)

lemma check_claims_Inr:
  "check_claims E p issuer = Inr u \<longleftrightarrow>
     (\<exists>pb pl. b64_decode RawURLEncoding p = Inr pb \<and> parse_jwt_payload pb = Inr pl \<and>
        jp_Exp pl \<noteq> 0 \<and> unix_seconds (e_clock E ExpiryCheck) \<le> jp_Exp pl \<and> jp_Iss pl = issuer)"
  by (auto simp: check_claims_def not_less split: sum.splits if_splits)

lemma token_validI:
  assumes "CHR ''.'' \<notin> set (h @ p @ g)" and "b64_decode RawURLEncoding h = Inr hb"
    and "parse_jwt_header hb = Inr hdr" and "jh_Alg hdr = ''RS256''" and "jh_Kid hdr \<noteq> []"
    and "b64_decode RawURLEncoding g = Inr sig"
    and "e_rsa_verify E key (sha256 (bytes_of (h @ ''.'' @ p))) sig"
    and "check_claims E p issuer = Inr ()"
  shows "token_valid E issuer (jh_Kid hdr) key (h @ CHR ''.'' # p @ CHR ''.'' # g)"
  using assms unfolding token_valid_def check_claims_Inr
  by (intro exI [of _ h] exI [of _ p] exI [of _ g]) auto

lemma validate_Inr:
  "fst (validateKeycloakJWT E token url issuer s) = Inr u \<longleftrightarrow>
     (\<exists>kid key. fst (getPublicKey E url kid s) = Inr key \<and> token_valid E issuer kid key token)"
  (is "?L \<longleftrightarrow> ?R")
proof
  assume L: ?L
  then have "length (split_on (CHR ''.'') token) = 3"
    by (auto simp: validateKeycloakJWT_def Let_def split: if_splits)
  then obtain h p g where parts: "split_on (CHR ''.'') token = [h, p, g]"
      "token = h @ CHR ''.'' # p @ CHR ''.'' # g" "CHR ''.'' \<notin> set (h @ p @ g)"
    by (rule split_three)
  from L obtain hb hd where hd: "b64_decode RawURLEncoding h = Inr hb" "parse_jwt_header hb = Inr hd"
      "jh_Alg hd = ''RS256''" "jh_Kid hd \<noteq> []"
    by (auto simp: validateKeycloakJWT_def Let_def parts(1) split: sum.splits if_splits)
  obtain kr s' where k: "getPublicKey E url (jh_Kid hd) s = (kr, s')"
    by fastforce
  from L obtain key sig where "kr = Inr key" "b64_decode RawURLEncoding g = Inr sig"
      "e_rsa_verify E key (sha256 (bytes_of (h @ ''.'' @ p))) sig" "check_claims E p issuer = Inr ()"
    by (auto simp: validateKeycloakJWT_def Let_def parts(1) hd k split: sum.splits if_splits)
  then show ?R
    using token_validI [OF parts(3) hd] parts(2) k
    by (intro exI [of _ "jh_Kid hd"] exI [of _ key]) simp
next
  assume ?R
  then obtain kid key h p g hb hd sig where R: "fst (getPublicKey E url kid s) = Inr key"
      "token = h @ ''.'' @ p @ ''.'' @ g" "CHR ''.'' \<notin> set (h @ p @ g)"
      "b64_decode RawURLEncoding h = Inr hb" "parse_jwt_header hb = Inr hd"
      "jh_Alg hd = ''RS256''" "jh_Kid hd = kid" "kid \<noteq> []"
      "b64_decode RawURLEncoding g = Inr sig"
      "e_rsa_verify E key (sha256 (bytes_of (h @ ''.'' @ p))) sig"
      "check_claims E p issuer = Inr ()"
    by (auto simp: token_valid_def check_claims_Inr)
  obtain s' where "getPublicKey E url kid s = (Inr key, s')"
    using R(1) by (metis prod.collapse)
  then show ?L
    using R split_three_iff [OF R(3)] by (simp add: validateKeycloakJWT_def Let_def)
qed

text \<open>Whatever the check says, it changes at most the cache and asks at most once.\<close>

lemma validate_sends:
  "sends s (snd (validateKeycloakJWT E token url issuer s)) [] \<or>
   sends s (snd (validateKeycloakJWT E token url issuer s)) [get_request url]"
proof -
  have "sends s (snd (getPublicKey E url kid s)) [] \<or>
      sends s (snd (getPublicKey E url kid s)) [get_request url]" for kid
    using getPublicKey_sends [of E url kid s] by (metis prod.collapse)
  then show ?thesis
    by (auto simp: validateKeycloakJWT_def Let_def split: sum.splits prod.splits)
       (metis snd_conv)+
qed

section \<open>The guards\<close>

definition auth_exempt :: "http_request \<Rightarrow> bool" where
  "auth_exempt r \<longleftrightarrow> rq_method r = ''OPTIONS'' \<or> rq_path r = ''/healthz''"

definition auth_passes ::
  "env \<Rightarrow> string \<Rightarrow> string \<Rightarrow> http_request \<Rightarrow> resp_writer \<times> server_state \<Rightarrow> bool" where
  "auth_passes E url issuer r ws \<longleftrightarrow>
     auth_exempt r \<or>
     has_prefix (rq_get r ''Authorization'') ''Bearer '' \<and>
     result_ok (fst (validateKeycloakJWT E (bearer_token r) url issuer (snd ws)))"

definition auth_enter :: "env \<Rightarrow> string \<Rightarrow> string \<Rightarrow> server_state handler" where
  "auth_enter E url issuer r ws =
     (fst ws,
      if auth_exempt r then snd ws
      else snd (validateKeycloakJWT E (bearer_token r) url issuer (snd ws)))"

definition auth_deny :: "env \<Rightarrow> string \<Rightarrow> string \<Rightarrow> server_state handler" where
  "auth_deny E url issuer r ws =
     (if has_prefix (rq_get r ''Authorization'') ''Bearer ''
      then (json_error (error_body ''unauthorized'') 401 (fst ws),
            snd (validateKeycloakJWT E (bearer_token r) url issuer (snd ws)))
      else (json_error (error_body ''missing Authorization header'') 401 (fst ws), snd ws))"

interpretation auth: guard "keycloakAuthMiddleware E url issuer" "auth_passes E url issuer"
    "auth_enter E url issuer" "auth_deny E url issuer"
  by unfold_locales
    (auto simp: keycloakAuthMiddleware_def auth_passes_def auth_enter_def auth_deny_def Let_def
      auth_exempt_def bearer_token_def result_ok_def split: sum.splits prod.splits)

lemma has_role_iff: "has_role role rs \<longleftrightarrow> role \<in> set rs"
  by (induction rs) auto

definition role_passes :: "string \<Rightarrow> http_request \<Rightarrow> resp_writer \<times> server_state \<Rightarrow> bool" where
  "role_passes role r ws \<longleftrightarrow> role \<in> set (jwtRealmRoles (bearer_token r))"

definition role_deny :: "server_state handler" where
  "role_deny r ws = (json_error (error_body ''forbidden'') 403 (fst ws), snd ws)"

interpretation role: guard "requireRole role" "role_passes role" "\<lambda>_ ws. ws" role_deny
  by unfold_locales (auto simp: requireRole_def role_passes_def role_deny_def has_role_iff)

text \<open>The answer of a blocked request.\<close>

lemma json_error_simps [http_simps]:
  "rw_status (json_error msg n w) = (case rw_status w of None \<Rightarrow> Some n | Some m \<Rightarrow> Some m)"
  "rw_body (json_error msg n w) = rw_body w @ msg @ [CHR 0x0A]"
  "rw_get (json_error msg n w) ''Content-Type'' = ''text/plain; charset=utf-8''"
  by (simp_all add: json_error_def http_simps)

end
