(* ===== verification/Submit.thy ===== *)
theory Submit
  imports Upload_Spec Auth
begin

text \<open>
  \<open>internal/server/submit.go\<close>: job submission under HPKE, the three upload handlers, and the calls
  to the buffer manager.  A handler takes the path variable \<open>job_id\<close> as an argument; the router
  supplies it.
\<close>

definition bufferManagerURL :: string where
  "bufferManagerURL = ''http://127.0.0.1:4100''"

record JobRequest =
  jr_DatasetID :: int
  jr_ModelSHA256 :: string
  jr_WeightsSHA256 :: string
  jr_PreprocessingSHA256 :: string

definition JobRequest_zero :: JobRequest where
  "JobRequest_zero =
     \<lparr>jr_DatasetID = 0, jr_ModelSHA256 = [], jr_WeightsSHA256 = [], jr_PreprocessingSHA256 = []\<rparr>"

definition JobRequest_fields :: "(string \<times> JobRequest setter) list" where
  "JobRequest_fields =
     [(''dataset_id'', set_int (\<lambda>x r. r\<lparr>jr_DatasetID := x\<rparr>)),
      (''model_sha256'', set_string (\<lambda>x r. r\<lparr>jr_ModelSHA256 := x\<rparr>)),
      (''weights_sha256'', set_string (\<lambda>x r. r\<lparr>jr_WeightsSHA256 := x\<rparr>)),
      (''preprocessing_sha256'', set_string (\<lambda>x r. r\<lparr>jr_PreprocessingSHA256 := x\<rparr>))]"

definition parse_job_request :: "bytes \<Rightarrow> JobRequest result" where
  "parse_job_request = json_unmarshal (decode_struct JobRequest_fields) JobRequest_zero"

definition extractKeycloakSub :: "string \<Rightarrow> string" where
  "extractKeycloakSub tokenStr =
     (let parts = split_on (CHR ''.'') tokenStr in
      if length parts \<noteq> 3 then []
      else
        (case b64_decode RawURLEncoding (parts ! 1) of
           Inl _ \<Rightarrow> []
         | Inr payload \<Rightarrow>
             (case json_unmarshal (decode_struct [(''sub'', set_string (\<lambda>x _. x))]) [] payload of
                Inl _ \<Rightarrow> []
              | Inr sub \<Rightarrow> sub)))"

definition jsonErr :: "string \<Rightarrow> bytes" where
  "jsonErr msg =
     bytes_of (json_map [(''status'', json_string ''error''), (''message'', json_string msg)])"

section \<open>The call to the buffer manager\<close>

definition flask_payload :: "JobRequest \<Rightarrow> string \<Rightarrow> string \<Rightarrow> string" where
  "flask_payload jobReq keycloakSub keycloakToken =
     json_map
       ([(''dataset_id'', show_int (jr_DatasetID jobReq)),
         (''model_sha256'', json_string (jr_ModelSHA256 jobReq)),
         (''weights_sha256'', json_string (jr_WeightsSHA256 jobReq)),
         (''submitted_by'', json_string keycloakSub),
         (''keycloak_token'', json_string keycloakToken)] @
        (if jr_PreprocessingSHA256 jobReq \<noteq> []
         then [(''preprocessing_sha256'', json_string (jr_PreprocessingSHA256 jobReq))] else []))"

definition job_post :: "string \<Rightarrow> out_request" where
  "job_post payload =
     \<lparr>or_method = ''POST'', or_url = bufferManagerURL @ ''/buffer/jobs'',
      or_header = header_set ''Content-Type'' ''application/json'' [], or_body = bytes_of payload\<rparr>"

text \<open>
  \<open>respBody, _ := io.ReadAll(...)\<close>: the error is dropped and what was read before it is kept.
\<close>

definition manager_answer :: "peer_response \<Rightarrow> bytes" where
  "manager_answer resp =
     (let respBody = take (2 ^ 20) (st_data (pr_body resp)) in
      if pr_status resp \<noteq> 202 \<and> pr_status resp \<noteq> 200
      then jsonErr (''buffer manager error '' @ show_nat (pr_status resp) @ '': '' @ string_of respBody)
      else respBody)"

definition processJob ::
  "env \<Rightarrow> bytes \<Rightarrow> string \<Rightarrow> string \<Rightarrow> server_state \<Rightarrow> bytes \<times> server_state" where
  "processJob E plaintext keycloakSub keycloakToken s =
     (case parse_job_request plaintext of
        Inl err \<Rightarrow> (jsonErr (''invalid job payload: '' @ err_text (e_lib_text E) err), s)
      | Inr jobReq \<Rightarrow>
          (if jr_DatasetID jobReq < 1 \<or> 3 < jr_DatasetID jobReq
           then (jsonErr ''dataset_id must be 1, 2, or 3'', s)
           else
             (case http_do E (job_post (flask_payload jobReq keycloakSub keycloakToken)) s of
                (Inl err, s') \<Rightarrow>
                  (jsonErr (''buffer manager unavailable: '' @ err_text (e_lib_text E) err), s')
              | (Inr resp, s') \<Rightarrow> (manager_answer resp, s'))))"

section \<open>POST /v1/submit\<close>

definition resp_aad :: "env \<Rightarrow> string \<Rightarrow> string" where
  "resp_aad E rid =
     ''{'' @ [CHR 0x22] @ ''rid'' @ [CHR 0x22] @ '':'' @ go_quote (e_is_print E) rid @ '','' @
       [CHR 0x22] @ ''ts'' @ [CHR 0x22] @ '':'' @ show_int (unix_seconds (e_clock E ResponseStamp)) @ ''}''"

definition encrypted_response :: "ResponseSeal \<Rightarrow> bytes \<Rightarrow> EncryptedResponse" where
  "encrypted_response seal respAAD =
     \<lparr>er_Enc = b64_encode StdEncoding (rs_Enc seal),
      er_Ciphertext = b64_encode StdEncoding (rs_Ciphertext seal),
      er_AAD = b64_encode StdEncoding respAAD\<rparr>"

text \<open>The decoding of the body: the answer on failure, or the three byte strings.\<close>

definition decode_encrypted :: "stream \<Rightarrow> string + (bytes \<times> bytes \<times> bytes)" where
  "decode_encrypted body =
     (case read_limited (2 ^ 20) body of
        Inl _ \<Rightarrow> Inl ''failed to read body''
      | Inr raw \<Rightarrow>
     (case json_unmarshal (decode_struct EncryptedRequest_fields) EncryptedRequest_zero raw of
        Inl _ \<Rightarrow> Inl ''invalid JSON body''
      | Inr req \<Rightarrow>
     (case b64_decode StdEncoding (er_Enc req) of
        Inl _ \<Rightarrow> Inl ''bad enc''
      | Inr encBytes \<Rightarrow>
     (case b64_decode StdEncoding (er_Ciphertext req) of
        Inl _ \<Rightarrow> Inl ''bad ciphertext''
      | Inr ct \<Rightarrow>
     (case b64_decode StdEncoding (er_AAD req) of
        Inl _ \<Rightarrow> Inl ''bad aad''
      | Inr aad \<Rightarrow> Inr (encBytes, ct, aad))))))"

definition browser_key :: "http_request \<Rightarrow> string + bytes" where
  "browser_key r =
     (let browserPubB64u = rq_get r ''X-RATLS-Browser-HPKE'' in
      if browserPubB64u = [] then Inl ''missing X-RATLS-Browser-HPKE header''
      else
        (case b64_decode RawURLEncoding browserPubB64u of
           Inl _ \<Rightarrow> Inl ''bad X-RATLS-Browser-HPKE: must be 32-byte base64url''
         | Inr browserPubBytes \<Rightarrow>
             (if length browserPubBytes \<noteq> 32
              then Inl ''bad X-RATLS-Browser-HPKE: must be 32-byte base64url''
              else Inr browserPubBytes)))"

definition HandleSubmit :: "env \<Rightarrow> server_state handler" where
  "HandleSubmit E r ws =
     (let (w, s) = ws in
      case browser_key r of
        Inl msg \<Rightarrow> (http_error msg 400 w, s)
      | Inr browserPubBytes \<Rightarrow>
     (case decode_encrypted (rq_body r) of
        Inl msg \<Rightarrow> (http_error msg 400 w, s)
      | Inr (encBytes, ct, aad) \<Rightarrow>
          (let (hpkePriv, hpkePub) = HPKEKeys (sv_builder s);
               info = ContextInfo hpkePub browserPubBytes
           in case OpenFromBrowser (e_hpke E) hpkePriv encBytes info aad ct of
                Inl _ \<Rightarrow> (http_error ''decryption failed'' 400 w, s)
              | Inr plaintext \<Rightarrow>
                  (let rawKeycloakToken = bearer_token r;
                       keycloakSub = extractKeycloakSub rawKeycloakToken;
                       (response, s') = processJob E plaintext keycloakSub rawKeycloakToken s;
                       respAAD = bytes_of (resp_aad E (rq_get r ''X-Request-Id''))
                   in case SealToBrowser (e_hpke E) browserPubBytes info respAAD response of
                        Inl _ \<Rightarrow> (http_error ''encryption failed'' 500 w, s')
                      | Inr sealed \<Rightarrow>
                          (w_write (EncryptedRequest_json (encrypted_response sealed respAAD) @ [CHR 0x0A])
                             (w_set ''Content-Type'' ''application/json'' w), s')))))"

section \<open>PUT /v1/upload/\<close>

definition upload_put :: "string \<Rightarrow> bytes \<Rightarrow> out_request" where
  "upload_put url data =
     \<lparr>or_method = ''PUT'', or_url = url,
      or_header = header_set ''Content-Type'' ''application/octet-stream'' [], or_body = data\<rparr>"

text \<open>
  \<open>WriteHeader\<close> panics on a code that has not three digits or starts with a zero; the client accepts any
  three digits.  \<open>io.Copy(w, resp.Body)\<close> passes on what can be read; its error is dropped.
\<close>

definition relay :: "peer_response \<Rightarrow> resp_writer \<Rightarrow> resp_writer" where
  "relay resp w =
     (let w' = w_set ''Content-Type'' ''application/json'' w in
      if pr_status resp < 100 \<or> 999 < pr_status resp then w'\<lparr>rw_aborted := True\<rparr>
      else w_write (string_of (st_data (pr_body resp))) (write_header (pr_status resp) w'))"

definition proxyPlaintextUpload ::
  "env \<Rightarrow> string \<Rightarrow> bytes \<Rightarrow> resp_writer \<times> server_state \<Rightarrow> resp_writer \<times> server_state" where
  "proxyPlaintextUpload E url data ws =
     (let (w, s) = ws in
      if \<not> e_url_ok E url then (http_error ''proxy error'' 500 w, s)
      else
        (case http_do E (upload_put url data) s of
           (Inl _, s') \<Rightarrow> (http_error ''buffer manager unavailable'' 502 w, s')
         | (Inr resp, s') \<Rightarrow> (relay resp w, s')))"

definition handle_upload :: "env \<Rightarrow> string \<Rightarrow> string \<Rightarrow> server_state handler" where
  "handle_upload E jobID kind r ws =
     (let (w, s) = ws in
      case decryptChunkedUpload E (sv_builder s) (rq_body r) (rq_get r ''X-RATLS-Browser-HPKE'') of
        Inl err \<Rightarrow> (http_error (''decryption failed: '' @ err_text (e_lib_text E) err) 400 w, s)
      | Inr plaintext \<Rightarrow>
          proxyPlaintextUpload E (bufferManagerURL @ ''/buffer/jobs/'' @ jobID @ ''/'' @ kind) plaintext (w, s))"

definition HandleUploadModel :: "env \<Rightarrow> string \<Rightarrow> server_state handler" where
  "HandleUploadModel E jobID = handle_upload E jobID ''model''"

definition HandleUploadWeights :: "env \<Rightarrow> string \<Rightarrow> server_state handler" where
  "HandleUploadWeights E jobID = handle_upload E jobID ''weights''"

definition HandleUploadPreprocessing :: "env \<Rightarrow> string \<Rightarrow> server_state handler" where
  "HandleUploadPreprocessing E jobID = handle_upload E jobID ''preprocessing''"

end
