(* ===== verification/Submit_Spec.thy ===== *)
theory Submit_Spec
  imports Submit
begin

text \<open>
  What job submission guarantees: what reaches the buffer manager and when, that the answer opens
  at the browser under the same context, and what the JSON texts built on the way parse to.
\<close>

section \<open>Texts that the server builds\<close>

lemma utf8_fix_simple [simp]:
  "utf8_fix ''status'' = ''status''" "utf8_fix ''message'' = ''message''" "utf8_fix ''error'' = ''error''"
  "utf8_fix ''dataset_id'' = ''dataset_id''" "utf8_fix ''model_sha256'' = ''model_sha256''"
  "utf8_fix ''weights_sha256'' = ''weights_sha256''" "utf8_fix ''submitted_by'' = ''submitted_by''"
  "utf8_fix ''keycloak_token'' = ''keycloak_token''"
  "utf8_fix ''preprocessing_sha256'' = ''preprocessing_sha256''"
  "utf8_fix ''enc'' = ''enc''" "utf8_fix ''ciphertext'' = ''ciphertext''" "utf8_fix ''aad'' = ''aad''"
  by (rule utf8_fix_ascii, simp add: is_ascii_def)+

lemma jsonErr_parse:
  "json_parse (string_of (jsonErr msg)) =
     Some (JObj [(''message'', JStr (utf8_fix msg)), (''status'', JStr ''error'')])"
  using json_parse_object [of "[(''message'', json_string msg, JStr (utf8_fix msg)),
      (''status'', json_string ''error'', JStr ''error'')]"]
    encodes_string [of msg] encodes_string [of "''error''"]
  by (simp add: jsonErr_def json_map_def)

definition flask_members :: "JobRequest \<Rightarrow> string \<Rightarrow> string \<Rightarrow> (string \<times> json) list" where
  "flask_members jr sub tok =
     [(''dataset_id'', JNum (show_int (jr_DatasetID jr))),
      (''keycloak_token'', JStr (utf8_fix tok)),
      (''model_sha256'', JStr (utf8_fix (jr_ModelSHA256 jr)))] @
     (if jr_PreprocessingSHA256 jr \<noteq> []
      then [(''preprocessing_sha256'', JStr (utf8_fix (jr_PreprocessingSHA256 jr)))] else []) @
     [(''submitted_by'', JStr (utf8_fix sub)),
      (''weights_sha256'', JStr (utf8_fix (jr_WeightsSHA256 jr)))]"

lemma flask_payload_parse:
  "json_parse (flask_payload jr sub tok) = Some (JObj (flask_members jr sub tok))"
  using json_parse_object [of "[(''dataset_id'', show_int (jr_DatasetID jr), JNum (show_int (jr_DatasetID jr))),
      (''keycloak_token'', json_string tok, JStr (utf8_fix tok)),
      (''model_sha256'', json_string (jr_ModelSHA256 jr), JStr (utf8_fix (jr_ModelSHA256 jr)))] @
     (if jr_PreprocessingSHA256 jr \<noteq> []
      then [(''preprocessing_sha256'', json_string (jr_PreprocessingSHA256 jr),
             JStr (utf8_fix (jr_PreprocessingSHA256 jr)))] else []) @
     [(''submitted_by'', json_string sub, JStr (utf8_fix sub)),
      (''weights_sha256'', json_string (jr_WeightsSHA256 jr), JStr (utf8_fix (jr_WeightsSHA256 jr)))]"]
  by (auto simp: flask_payload_def json_map_def flask_members_def encodes_simps)

lemma parse_encrypted_json:
  assumes "valid_utf8 (er_Enc q)" and "valid_utf8 (er_Ciphertext q)" and "valid_utf8 (er_AAD q)"
  shows "json_unmarshal (decode_struct EncryptedRequest_fields) EncryptedRequest_zero
           (bytes_of (EncryptedRequest_json q)) = Inr q"
proof -
  have "json_parse (EncryptedRequest_json q) =
      Some (JObj [(''enc'', JStr (er_Enc q)), (''ciphertext'', JStr (er_Ciphertext q)),
                  (''aad'', JStr (er_AAD q))])"
    using json_parse_object [of "[(''enc'', json_string (er_Enc q), JStr (utf8_fix (er_Enc q))),
        (''ciphertext'', json_string (er_Ciphertext q), JStr (utf8_fix (er_Ciphertext q))),
        (''aad'', json_string (er_AAD q), JStr (utf8_fix (er_AAD q)))]"] assms
    by (simp add: EncryptedRequest_json_def encodes_simps encodes_valid valid_utf8_def)
  then show ?thesis
    by (simp add: json_unmarshal_def setter_defs find_field_def EncryptedRequest_fields_def
        EncryptedRequest_zero_def)
qed

section \<open>What a submission does\<close>

lemma processJob_cases:
  assumes "processJob E pt sub tok s = (out, s')"
  obtains (refused) msg where "s' = s" "out = jsonErr msg"
  | (forwarded) jr where "parse_job_request pt = Inr jr" "1 \<le> jr_DatasetID jr" "jr_DatasetID jr \<le> 3"
      "s' = s\<lparr>sv_sent := sv_sent s @ [job_post (flask_payload jr sub tok)]\<rparr>"
      "out = (case e_net E (job_post (flask_payload jr sub tok)) of
                Inl err \<Rightarrow> jsonErr (''buffer manager unavailable: '' @ err_text (e_lib_text E) err)
              | Inr resp \<Rightarrow> manager_answer resp)"
  using assms
  by (auto simp: processJob_def http_do_def not_less split: sum.splits if_splits)

text \<open>What the browser and the enclave agree on when a submission is opened.\<close>

definition submission_opens ::
  "env \<Rightarrow> server_state \<Rightarrow> http_request \<Rightarrow> bytes \<Rightarrow> bytes \<Rightarrow> bytes \<Rightarrow> bool" where
  "submission_opens E s r pub info pt \<longleftrightarrow>
     browser_key r = Inr pub \<and> info = ContextInfo (ek_HPKEPub (bu_keys (sv_builder s))) pub \<and>
     (\<exists>enc ct aad. decode_encrypted (rq_body r) = Inr (enc, ct, aad) \<and>
        OpenFromBrowser (e_hpke E) (ek_HPKEPriv (bu_keys (sv_builder s))) enc info aad ct = Inr pt)"

lemma HandleSubmit_cases:
  assumes "HandleSubmit E r (w, s) = (w', s')"
  obtains (blocked) msg where "w' = http_error msg 400 w" "s' = s"
      "\<nexists>pub info pt. submission_opens E s r pub info pt"
  | (processed) pub info pt out where "submission_opens E s r pub info pt"
      "processJob E pt (extractKeycloakSub (bearer_token r)) (bearer_token r) s = (out, s')"
      "w' = (let respAAD = bytes_of (resp_aad E (rq_get r ''X-Request-Id'')) in
             case SealToBrowser (e_hpke E) pub info respAAD out of
               Inl _ \<Rightarrow> http_error ''encryption failed'' 500 w
             | Inr sealed \<Rightarrow>
                 w_write (EncryptedRequest_json (encrypted_response sealed respAAD) @ [CHR 0x0A])
                   (w_set ''Content-Type'' ''application/json'' w))"
  using assms
  by (auto simp: HandleSubmit_def HPKEKeys_def submission_opens_def Let_def
      split: sum.splits prod.splits)

lemma sealed_key_length: "browser_key r = Inr pub \<Longrightarrow> length pub = 32"
  by (auto simp: browser_key_def Let_def split: sum.splits if_splits)

text \<open>The request that the documented browser makes.\<close>

definition submission_body :: "ResponseSeal \<Rightarrow> bytes \<Rightarrow> bytes" where
  "submission_body seal aad = bytes_of (EncryptedRequest_json (encrypted_response seal aad))"

lemma decode_submission:
  assumes "length (submission_body seal aad) < 2 ^ 20"
  shows "decode_encrypted \<lparr>st_data = submission_body seal aad, st_end = EOF\<rparr> =
           Inr (rs_Enc seal, rs_Ciphertext seal, aad)"
  using assms parse_encrypted_json [of "encrypted_response seal aad"]
  by (simp add: decode_encrypted_def read_limited_def read_all_def submission_body_def
      encrypted_response_def valid_utf8_b64 std.dec_enc)

lemma browser_key_header:
  assumes "rq_get r ''X-RATLS-Browser-HPKE'' = b64_encode RawURLEncoding pub" and "length pub = 32"
  shows "browser_key r = Inr pub"
proof -
  have "b64_encode RawURLEncoding pub \<noteq> []"
    using assms(2) rawurl_length [of pub] by auto
  then show ?thesis
    using assms by (simp add: browser_key_def rawurl.dec_enc)
qed

lemma submission_opened:
  assumes "hpke_correct (e_hpke E) (ek_HPKEPriv (bu_keys (sv_builder s))) epub"
    and "epub = ek_HPKEPub (bu_keys (sv_builder s))"
    and "SealToBrowser (e_hpke E) epub (ContextInfo epub pub) aad pt = Inr seal"
    and "rq_get r ''X-RATLS-Browser-HPKE'' = b64_encode RawURLEncoding pub" and "length pub = 32"
    and "rq_body r = \<lparr>st_data = submission_body seal aad, st_end = EOF\<rparr>"
    and "length (submission_body seal aad) < 2 ^ 20"
  shows "submission_opens E s r pub (ContextInfo epub pub) pt"
  using open_seal [OF assms(1,3)] decode_submission [OF assms(7)] browser_key_header [OF assms(4,5)]
    assms(2,6)
  by (simp add: submission_opens_def)

lemma HandleSubmit_processed:
  assumes "submission_opens E s r pub info pt"
    and "processJob E pt (extractKeycloakSub (bearer_token r)) (bearer_token r) s = (out, s')"
    and "SealToBrowser (e_hpke E) pub info (bytes_of (resp_aad E (rq_get r ''X-Request-Id''))) out = Inr seal"
  shows "HandleSubmit E r (w, s) =
     (w_write (EncryptedRequest_json
         (encrypted_response seal (bytes_of (resp_aad E (rq_get r ''X-Request-Id'')))) @ [CHR 0x0A])
       (w_set ''Content-Type'' ''application/json'' w), s')"
  using assms by (auto simp: HandleSubmit_def HPKEKeys_def submission_opens_def Let_def)

text \<open>A submission that opens is processed; one sealed under another info string is not.\<close>

lemma HandleSubmit_answers:
  assumes "submission_opens E s r pub info pt"
  shows "snd (HandleSubmit E r (new_writer, s)) =
      snd (processJob E pt (extractKeycloakSub (bearer_token r)) (bearer_token r) s) \<and>
    rw_status (fst (HandleSubmit E r (new_writer, s))) \<noteq> Some 400"
  using assms
  by (auto simp: HandleSubmit_def HPKEKeys_def submission_opens_def Let_def http_simps new_writer_def
      split: prod.splits sum.splits)

lemma HandleSubmit_wrong_info:
  assumes "hpke_binds_info (e_hpke E) (ek_HPKEPriv (bu_keys (sv_builder s))) epub"
    and "SealToBrowser (e_hpke E) epub info0 aad pt = Inr seal"
    and "info0 \<noteq> ContextInfo (ek_HPKEPub (bu_keys (sv_builder s))) pub"
    and "browser_key r = Inr pub"
    and "decode_encrypted (rq_body r) = Inr (rs_Enc seal, rs_Ciphertext seal, aad')"
  shows "HandleSubmit E r (w, s) = (http_error ''decryption failed'' 400 w, s)"
proof -
  have "OpenFromBrowser (e_hpke E) (ek_HPKEPriv (bu_keys (sv_builder s))) (rs_Enc seal)
      (ContextInfo (ek_HPKEPub (bu_keys (sv_builder s))) pub) aad' (rs_Ciphertext seal) \<noteq> Inr x" for x
    using open_binds [OF assms(1,2)] assms(3) by blast
  then obtain err where "OpenFromBrowser (e_hpke E) (ek_HPKEPriv (bu_keys (sv_builder s))) (rs_Enc seal)
      (ContextInfo (ek_HPKEPub (bu_keys (sv_builder s))) pub) aad' (rs_Ciphertext seal) = Inl err"
    by (meson sum.exhaust)
  then show ?thesis
    using assms(4,5) by (simp add: HandleSubmit_def HPKEKeys_def Let_def)
qed

section \<open>The additional data of the answer\<close>

lemma resp_aad_object:
  "resp_aad E rid = json_object [(''rid'', go_quote (e_is_print E) rid),
     (''ts'', show_int (unix_seconds (e_clock E ResponseStamp)))]"
proof -
  have "json_string ''rid'' = [CHR 0x22] @ ''rid'' @ [CHR 0x22]"
    "json_string ''ts'' = [CHR 0x22] @ ''ts'' @ [CHR 0x22]"
    by (simp_all add: json_string_plain plain_char_def)
  then show ?thesis
    by (simp add: resp_aad_def json_object_def json_pair_def)
qed

lemma resp_aad_nonempty: "resp_aad E rid \<noteq> []"
  by (simp add: resp_aad_def)

lemma resp_aad_json:
  assumes "list_all printable_ascii rid"
  shows "json_parse (resp_aad E rid) =
     Some (JObj [(''rid'', JStr rid), (''ts'', JNum (show_int (unix_seconds (e_clock E ResponseStamp))))])"
proof -
  let ?ts = "show_int (unix_seconds (e_clock E ResponseStamp))"
  have "resp_aad E rid = json_object [(''rid'', go_quote (e_is_print E) rid), (''ts'', ?ts)]"
    by (rule resp_aad_object)
  moreover have "utf8_fix ''rid'' = ''rid''" "utf8_fix ''ts'' = ''ts''"
    by (rule utf8_fix_ascii, simp add: is_ascii_def)+
  ultimately show ?thesis
    using json_parse_object [of "[(''rid'', go_quote (e_is_print E) rid, JStr rid), (''ts'', ?ts, JNum ?ts)]"]
      encodes_quote [OF assms, of "e_is_print E"]
    by (simp add: encodes_simps)
qed

text \<open>It is JSON exactly when \<open>%q\<close> quotes the request id as JSON would.\<close>

lemma resp_aad_quotable:
  assumes "json_quotable (e_is_print E) rid"
  shows "\<exists>v. json_parse (resp_aad E rid) = Some v"
proof -
  let ?q = "go_quote (e_is_print E) rid"
  let ?ts = "show_int (unix_seconds (e_clock E ResponseStamp))"
  have "jvalue f (?q @ t) = Some (JStr (unquote (quote_body (e_is_print E) rid)), t)" if f: "1 \<le> f" for f t
  proof -
    obtain g where "f = Suc g"
      using f by (cases f) auto
    then show ?thesis
      using assms by (simp add: go_quote_def scan_quote)
  qed
  then have "encodes 1 ?q (JStr (unquote (quote_body (e_is_print E) rid)))"
    by (simp add: encodes_def go_quote_def skip_ws_def is_ws_def)
  then have "json_parse (json_object [(''rid'', ?q), (''ts'', ?ts)]) \<noteq> None"
    using json_parse_object [of "[(''rid'', ?q, JStr (unquote (quote_body (e_is_print E) rid))),
        (''ts'', ?ts, JNum ?ts)]"]
    by (simp add: encodes_simps)
  then show ?thesis
    by (simp add: resp_aad_object)
qed

lemma resp_aad_unquotable:
  assumes "\<not> json_quotable (e_is_print E) rid"
  shows "json_parse (resp_aad E rid) = None"
proof -
  obtain f where f: "2 * length (resp_aad E rid) + 2 = Suc (Suc (Suc f))"
    by (metis add_2_eq_Suc' not0_implies_Suc mult_is_0 length_0_conv resp_aad_nonempty zero_neq_numeral)
  show ?thesis
    using assms scan_quote [of "e_is_print E" rid]
    unfolding json_parse_def f
    by (simp add: resp_aad_def go_quote_def skip_ws_def is_ws_def)
qed

section \<open>A concrete submission\<close>

definition toy_state :: server_state where
  "toy_state = \<lparr>sv_builder = toy_builder [], sv_jwks = empty_cache, sv_sent = []\<rparr>"

definition toy_manager :: net where
  "toy_manager rq = Inr \<lparr>pr_status = 202, pr_body = \<lparr>st_data = bytes_of ''ok'', st_end = EOF\<rparr>\<rparr>"

definition toy_job :: bytes where
  "toy_job = bytes_of (json_object [(''dataset_id'', show_int 1)])"

definition toy_submission :: "bytes \<Rightarrow> ResponseSeal" where
  "toy_submission info = \<lparr>rs_Enc = replicate 32 1, rs_Ciphertext = toy_tag info [] @ toy_job\<rparr>"

definition toy_request :: "bytes \<Rightarrow> http_request" where
  "toy_request info =
     \<lparr>rq_method = ''POST'', rq_path = ''/v1/submit'', rq_escaped = ''/v1/submit'',
      rq_header = header_set ''X-RATLS-Browser-HPKE'' (b64_encode RawURLEncoding (replicate 32 2)) [],
      rq_body = \<lparr>st_data = submission_body (toy_submission info) [], st_end = EOF\<rparr>\<rparr>"

definition toy_info :: bytes where
  "toy_info = ContextInfo (replicate 32 1) (replicate 32 2)"

lemma toy_submission_seal:
  "SealToBrowser toy_hpke (replicate 32 1) info [] toy_job = Inr (toy_submission info)"
  by (simp add: SealToBrowser_def toy_hpke_def toy_submission_def)

lemma toy_header: "rq_get (toy_request info) ''X-RATLS-Browser-HPKE'' = b64_encode RawURLEncoding (replicate 32 2)"
  by (simp add: rq_get_def toy_request_def header_get_set)

lemma toy_request_body:
  "rq_body (toy_request info) = \<lparr>st_data = submission_body (toy_submission info) [], st_end = EOF\<rparr>"
  by (simp add: toy_request_def)

lemma toy_body_length: "length info \<le> 76 \<Longrightarrow> length (submission_body (toy_submission info) []) < 2 ^ 20"
proof -
  assume "length info \<le> 76"
  then have "length (rs_Ciphertext (toy_submission info)) \<le> 154 + length toy_job"
    by (simp add: toy_submission_def toy_tag_def)
  moreover have "length toy_job = 16"
    by (simp add: toy_job_def json_object_def json_pair_def json_string_plain plain_char_def show_int_def
        show_nat.simps)
  moreover have "length (json_string (b64_encode StdEncoding bs)) \<le> 2 * length bs + 6" for bs
    using length_std [of bs] by (simp add: json_string_plain b64_encode_plain)
  from this [of "rs_Enc (toy_submission info)"] this [of "rs_Ciphertext (toy_submission info)"]
    this [of "[]"]
  have "length (json_string (b64_encode StdEncoding (rs_Enc (toy_submission info)))) \<le> 70"
    "length (json_string (b64_encode StdEncoding (rs_Ciphertext (toy_submission info)))) \<le>
       2 * length (rs_Ciphertext (toy_submission info)) + 6"
    "length (json_string []) \<le> 6"
    by (simp_all add: toy_submission_def)
  moreover have "length (json_string ''enc'') + length (json_string ''ciphertext'') +
      length (json_string ''aad'') = 22"
    by (simp add: json_string_plain plain_char_def)
  ultimately show ?thesis
    by (simp add: submission_body_def EncryptedRequest_json_def encrypted_response_def json_object_def
        json_pair_def)
qed

lemma toy_info_length: "length toy_info \<le> 76"
  by (simp add: toy_info_def length_ContextInfo)

lemma toy_builder_keys:
  "ek_HPKEPriv (bu_keys (toy_builder t)) = replicate 32 1"
  "ek_HPKEPub (bu_keys (toy_builder t)) = replicate 32 1"
  by (simp_all add: toy_builder_def)

lemma toy_opened:
  assumes "e_hpke E = toy_hpke"
  shows "submission_opens E toy_state (toy_request toy_info) (replicate 32 2) toy_info toy_job"
proof -
  have "submission_opens E toy_state (toy_request toy_info) (replicate 32 2)
      (ContextInfo (replicate 32 1) (replicate 32 2)) toy_job"
  proof (rule submission_opened [where seal = "toy_submission toy_info" and aad = "[]"])
    show "length (submission_body (toy_submission toy_info) []) < 2 ^ 20"
      using toy_info_length by (rule toy_body_length)
  qed (use assms in \<open>simp_all add: toy_state_def toy_builder_keys toy_hpke_correct toy_header
         toy_submission_seal toy_info_def toy_request_body\<close>)
  then show ?thesis by (simp add: toy_info_def)
qed

lemma toy_job_parse:
  "parse_job_request toy_job =
     Inr \<lparr>jr_DatasetID = 1, jr_ModelSHA256 = [], jr_WeightsSHA256 = [], jr_PreprocessingSHA256 = []\<rparr>"
proof -
  have "json_parse (json_object [(''dataset_id'', show_int 1)]) =
      Some (JObj [(''dataset_id'', JNum (show_int 1))])"
    using json_parse_object [of "[(''dataset_id'', show_int 1, JNum (show_int 1))]"] encodes_simps by simp
  moreover have "parse_int64 (show_int 1) = Some 1"
    by (rule parse_int64_show) simp_all
  ultimately show ?thesis
    by (simp add: parse_job_request_def toy_job_def json_unmarshal_def setter_defs find_field_def
        JobRequest_fields_def JobRequest_zero_def)
qed

lemma toy_processed:
  "processJob (toy_env toy_manager 0) toy_job sub tok toy_state =
     (bytes_of ''ok'', toy_state\<lparr>sv_sent := [job_post (flask_payload
        \<lparr>jr_DatasetID = 1, jr_ModelSHA256 = [], jr_WeightsSHA256 = [], jr_PreprocessingSHA256 = []\<rparr> sub tok)]\<rparr>)"
  by (simp add: processJob_def toy_job_parse http_do_def toy_manager_def manager_answer_def toy_state_def)

lemma toy_response_seal:
  "SealToBrowser toy_hpke (replicate 32 2) info aad pt =
     Inr \<lparr>rs_Enc = replicate 32 2, rs_Ciphertext = toy_tag info aad @ pt\<rparr>"
  by (simp add: SealToBrowser_def toy_hpke_def)

lemma toy_handled:
  "sv_sent (snd (HandleSubmit (toy_env toy_manager 0) (toy_request toy_info) (w, toy_state))) \<noteq> []"
proof -
  have o: "submission_opens (toy_env toy_manager 0) toy_state (toy_request toy_info) (replicate 32 2)
      toy_info toy_job"
    by (rule toy_opened) simp
  have "SealToBrowser (e_hpke (toy_env toy_manager 0)) (replicate 32 2) info aad pt =
      Inr \<lparr>rs_Enc = replicate 32 2, rs_Ciphertext = toy_tag info aad @ pt\<rparr>" for info aad pt
    by (simp add: toy_response_seal)
  from HandleSubmit_processed [OF o toy_processed this] show ?thesis
    by simp
qed

section \<open>The properties\<close>

text \<open>
  C6: what a submission may forward.  If \<open>HandleSubmit\<close> hands anything to the HTTP client,
  then the body opened under the enclave's key and the context of both HPKE keys, the plaintext is
  a job with a dataset id from 1 to 3, and exactly one request was sent: the POST to the buffer
  manager whose body is a JSON object with exactly the fields of the job, the subject and the
  token of the caller.
\<close>

theorem submit_forwards:
  assumes "HandleSubmit E r (w, s) = (w', s')" and "sv_sent s' \<noteq> sv_sent s"
  shows "\<exists>pub info pt jr. submission_opens E s r pub info pt \<and> parse_job_request pt = Inr jr \<and>
     1 \<le> jr_DatasetID jr \<and> jr_DatasetID jr \<le> 3 \<and>
     (let tok = bearer_token r; sub = extractKeycloakSub tok; p = flask_payload jr sub tok in
      s' = s\<lparr>sv_sent := sv_sent s @ [job_post p]\<rparr> \<and>
      json_parse p = Some (JObj (flask_members jr sub tok)))"
  using assms(1)
proof (cases rule: HandleSubmit_cases)
  case (blocked msg)
  with assms(2) show ?thesis by simp
next
  case (processed pub info pt out)
  from processed(2) show ?thesis
  proof (cases rule: processJob_cases)
    case (refused msg)
    with assms(2) show ?thesis by simp
  next
    case (forwarded jr)
    then show ?thesis
      using processed(1) flask_payload_parse unfolding Let_def by blast
  qed
qed

lemma submit_forwards_witness:
  "\<exists>jr. parse_job_request toy_job = Inr jr \<and> 1 \<le> jr_DatasetID jr \<and> jr_DatasetID jr \<le> 3"
proof -
  let ?E = "toy_env toy_manager 0"
  obtain w' s' where h: "HandleSubmit ?E (toy_request toy_info) (new_writer, toy_state) = (w', s')"
    by fastforce
  have o: "submission_opens ?E toy_state (toy_request toy_info) (replicate 32 2) toy_info toy_job"
    by (rule toy_opened) simp
  have "sv_sent s' \<noteq> sv_sent toy_state"
    using toy_handled [of new_writer] h by (simp add: toy_state_def)
  from submit_forwards [OF h this] o show ?thesis
    by (auto simp: submission_opens_def)
qed

text \<open>
  C10: a submission makes the round trip.  A browser that seals a job to the enclave's HPKE key
  under the context of both keys and sends it as documented gets a 200 whose JSON body decodes to
  three fields that open, under the browser's own key and the same context, to exactly what
  \<open>processJob\<close> answered.
\<close>

theorem submit_roundtrip:
  assumes "hpke_correct (e_hpke E) (ek_HPKEPriv (bu_keys (sv_builder s))) epub"
    and "epub = ek_HPKEPub (bu_keys (sv_builder s))" and "hpke_correct (e_hpke E) bpriv bpub"
    and "SealToBrowser (e_hpke E) epub (ContextInfo epub bpub) aad pt = Inr seal"
    and "rq_get r ''X-RATLS-Browser-HPKE'' = b64_encode RawURLEncoding bpub" and "length bpub = 32"
    and "rq_body r = \<lparr>st_data = submission_body seal aad, st_end = EOF\<rparr>"
    and "length (submission_body seal aad) < 2 ^ 20"
    and "processJob E pt (extractKeycloakSub (bearer_token r)) (bearer_token r) s = (out, s')"
    and "respAAD = bytes_of (resp_aad E (rq_get r ''X-Request-Id''))"
    and "result_ok (SealToBrowser (e_hpke E) bpub (ContextInfo epub bpub) respAAD out)"
  shows "\<exists>w' resp enc ct. HandleSubmit E r (new_writer, s) = (w', s') \<and> rw_status w' = Some 200 \<and>
     rw_body w' = EncryptedRequest_json resp @ [CHR 0x0A] \<and>
     json_unmarshal (decode_struct EncryptedRequest_fields) EncryptedRequest_zero
       (bytes_of (EncryptedRequest_json resp)) = Inr resp \<and>
     b64_decode StdEncoding (er_Enc resp) = Inr enc \<and> b64_decode StdEncoding (er_Ciphertext resp) = Inr ct \<and>
     b64_decode StdEncoding (er_AAD resp) = Inr respAAD \<and>
     OpenFromBrowser (e_hpke E) bpriv enc (ContextInfo epub bpub) respAAD ct = Inr out"
proof -
  obtain seal' where seal': "SealToBrowser (e_hpke E) bpub (ContextInfo epub bpub) respAAD out = Inr seal'"
    using assms(11) by (auto simp: result_ok_iff)
  let ?resp = "encrypted_response seal' respAAD"
  have "submission_opens E s r bpub (ContextInfo epub bpub) pt"
    using assms(1,2,4-8) by (rule submission_opened)
  then have "HandleSubmit E r (new_writer, s) =
      (w_write (EncryptedRequest_json ?resp @ [CHR 0x0A])
        (w_set ''Content-Type'' ''application/json'' new_writer), s')"
    using HandleSubmit_processed assms(9,10) seal' by blast
  moreover have "json_unmarshal (decode_struct EncryptedRequest_fields) EncryptedRequest_zero
      (bytes_of (EncryptedRequest_json ?resp)) = Inr ?resp"
    by (rule parse_encrypted_json) (simp_all add: encrypted_response_def valid_utf8_b64)
  moreover have "OpenFromBrowser (e_hpke E) bpriv (rs_Enc seal') (ContextInfo epub bpub) respAAD
      (rs_Ciphertext seal') = Inr out"
    using assms(3) seal' by (rule open_seal)
  ultimately show ?thesis
    by (intro exI [of _ "w_write (EncryptedRequest_json ?resp @ [CHR 0x0A])
          (w_set ''Content-Type'' ''application/json'' new_writer)"] exI [of _ ?resp]
        exI [of _ "rs_Enc seal'"] exI [of _ "rs_Ciphertext seal'"])
      (simp add: http_simps new_writer_def encrypted_response_def std.dec_enc)
qed

lemma submit_roundtrip_witness:
  "\<exists>w' s'. HandleSubmit (toy_env toy_manager 0) (toy_request toy_info) (new_writer, toy_state) = (w', s') \<and>
     rw_status w' = Some 200"
proof -
  let ?E = "toy_env toy_manager 0"
  let ?r = "toy_request toy_info"
  have "length (submission_body (toy_submission toy_info) []) < 2 ^ 20"
    using toy_info_length by (rule toy_body_length)
  then show ?thesis
    using submit_roundtrip [of ?E toy_state "replicate 32 1" "replicate 32 2" "replicate 32 2" "[]" toy_job
        "toy_submission toy_info" ?r, OF _ _ _ _ toy_header _ toy_request_body _ toy_processed refl]
    by (fastforce simp: toy_hpke_correct toy_state_def toy_builder_keys toy_info_def [symmetric]
        toy_submission_seal toy_response_seal)
qed

text \<open>
  A submission is bound to the two HPKE keys.  With a cipher that opens only under the info
  string it was sealed with, what was sealed to the enclave under any other info string (for
  example the context of another browser key) is answered with 400, and nothing is forwarded.
\<close>

theorem submit_bound_to_context:
  assumes "hpke_binds_info (e_hpke E) (ek_HPKEPriv (bu_keys (sv_builder s))) epub"
    and "SealToBrowser (e_hpke E) epub info0 aad pt = Inr seal"
    and "info0 \<noteq> ContextInfo (ek_HPKEPub (bu_keys (sv_builder s))) pub"
    and "browser_key r = Inr pub"
    and "decode_encrypted (rq_body r) = Inr (rs_Enc seal, rs_Ciphertext seal, aad')"
  shows "HandleSubmit E r (w, s) = (http_error ''decryption failed'' 400 w, s)"
  using assms by (rule HandleSubmit_wrong_info)

lemma submit_bound_witness:
  "HandleSubmit (toy_env toy_manager 0) (toy_request [5]) (new_writer, toy_state) =
     (http_error ''decryption failed'' 400 new_writer, toy_state)"
proof (rule submit_bound_to_context [where epub = "replicate 32 1" and ?info0.0 = "[5]" and aad = "[]"
      and pt = toy_job and seal = "toy_submission [5]" and pub = "replicate 32 2" and aad' = "[]"])
  have "length (ContextInfo e p) \<noteq> length [5 :: byte]" for e p
    by (simp add: length_ContextInfo)
  then show "[5] \<noteq> ContextInfo (ek_HPKEPub (bu_keys (sv_builder toy_state))) (replicate 32 2)"
    by metis
  show "browser_key (toy_request [5]) = Inr (replicate 32 2)"
    using toy_header by (rule browser_key_header) simp
  show "decode_encrypted (rq_body (toy_request [5])) =
      Inr (rs_Enc (toy_submission [5]), rs_Ciphertext (toy_submission [5]), [])"
    unfolding toy_request_body by (rule decode_submission, rule toy_body_length) simp
qed (simp_all add: toy_state_def toy_builder_keys toy_hpke_binds_info toy_submission_seal)

text \<open>
  C38: the error answers of \<open>processJob\<close> are JSON.  Whatever text goes into the message (also the
  raw body of a failing buffer manager), the answer parses to an object with status \<open>error\<close> and
  that message, invalid UTF-8 replaced.
\<close>

theorem json_err_parses:
  "json_parse (string_of (jsonErr msg)) =
     Some (JObj [(''message'', JStr (utf8_fix msg)), (''status'', JStr ''error'')])"
  by (rule jsonErr_parse)

text \<open>
  The additional data of the answer is the JSON object it is meant to be when the request id
  is printable ASCII: \<open>%q\<close> and JSON quote such strings alike.
\<close>

theorem resp_aad_is_json:
  assumes "list_all printable_ascii rid"
  shows "json_parse (resp_aad E rid) =
     Some (JObj [(''rid'', JStr rid), (''ts'', JNum (show_int (unix_seconds (e_clock E ResponseStamp))))])"
  using assms by (rule resp_aad_json)

lemma resp_aad_is_json_witness:
  "json_parse (resp_aad (toy_env toy_manager 5000000000) ''a-1'') =
     Some (JObj [(''rid'', JStr ''a-1''), (''ts'', JNum ''5'')])"
  using resp_aad_is_json [of "''a-1''" "toy_env toy_manager 5000000000"]
  by (simp add: printable_ascii_def unix_seconds_def show_int_def show_nat.simps digit_char_def char_eq_code)

text \<open>
  C39: when the additional data of the answer is JSON.  Whatever the time, it parses exactly when the
  request id is valid UTF-8 without DEL, without control characters other than the five that have an
  escape of one letter in both languages, and without unprintable runes from U+10000 on: \<open>%q\<close> writes all
  of these with escapes of Go (a backslash with a, v, x or U) that JSON does not have.  \<open>net/http\<close> lets bytes
  from 80 to FF through in a header, so a request can bring such an id.
\<close>

theorem resp_aad_go_escape:
  "(\<exists>v. json_parse (resp_aad E rid) = Some v) \<longleftrightarrow> json_quotable (e_is_print E) rid"
  by (cases "json_quotable (e_is_print E) rid") (simp_all add: resp_aad_quotable resp_aad_unquotable)

end
