(* ===== verification/Router.thy ===== *)
theory Router
  imports Env
begin

text \<open>
  What \<open>internal/server/server.go\<close> uses of \<open>http.ServeMux\<close> (the patterns of Go 1.22): path cleaning
  with its redirect, matching on the escaped path segment by segment, \<open>HEAD\<close> served by \<open>GET\<close>
  patterns, 405 with the allowed methods, 404.  The patterns have no host, no trailing slash and
  no multi-segment wildcard, and no two of one method overlap, so the precedence rules of the
  pattern tree do not come into play and the first match is the only one.

  Code, location and body of a redirect are arguments (\<open>e_redirect_code\<close>, which is 301 or 307 depending on
  the release of Go, \<open>e_redirect_url\<close>, \<open>e_redirect_body\<close>).
\<close>

section \<open>Unescaping\<close>

text \<open>\<open>url.PathUnescape\<close>; the pattern matcher keeps a segment that does not unescape.\<close>

fun pct_decode :: "string \<Rightarrow> string option" where
  "pct_decode [] = Some []"
| "pct_decode (c # cs) =
     (if c = CHR ''%'' then
        (case cs of
           a # b # r \<Rightarrow>
             (if is_hex a \<and> is_hex b
              then map_option (\<lambda>t. char_of (16 * hex_digit_val a + hex_digit_val b) # t) (pct_decode r)
              else None)
         | _ \<Rightarrow> None)
      else map_option (\<lambda>t. c # t) (pct_decode cs))"

definition path_unescape :: "string \<Rightarrow> string" where
  "path_unescape s = (case pct_decode s of None \<Rightarrow> s | Some t \<Rightarrow> t)"

section \<open>Segments\<close>

definition slash :: char where
  "slash = CHR ''/''"

definition first_segment :: "string \<Rightarrow> string \<times> string" where
  "first_segment p =
     (if p = [slash] then ([slash], [])
      else (path_unescape (takeWhile (\<lambda>c. c \<noteq> slash) (drop 1 p)), dropWhile (\<lambda>c. c \<noteq> slash) (drop 1 p)))"

function path_segments :: "string \<Rightarrow> string list" where
  "path_segments p =
     (if p = [] then [] else fst (first_segment p) # path_segments (snd (first_segment p)))"
  by pat_completeness auto
termination
proof (relation "measure length")
  fix p :: string
  assume "p \<noteq> []"
  then have "length (dropWhile (\<lambda>c. c \<noteq> slash) (drop 1 p)) < length p"
    using length_dropWhile_le [of "\<lambda>c. c \<noteq> slash" "drop 1 p"] by (cases p) auto
  then show "(snd (first_segment p), p) \<in> measure length"
    using \<open>p \<noteq> []\<close> by (simp add: first_segment_def)
qed simp

declare path_segments.simps [simp del]

section \<open>Cleaning\<close>

text \<open>\<open>path.Clean\<close> of a rooted path: empty and dot segments vanish, a double dot takes one away.\<close>

fun clean_parts :: "string list \<Rightarrow> string list \<Rightarrow> string list" where
  "clean_parts done [] = rev done"
| "clean_parts done (p # ps) =
     (if p = [] \<or> p = ''.'' then clean_parts done ps
      else if p = ''..'' then clean_parts (drop 1 done) ps
      else clean_parts (p # done) ps)"

definition path_clean :: "string \<Rightarrow> string" where
  "path_clean p = slash # join_on slash (clean_parts [] (split_on slash p))"

definition cleanPath :: "string \<Rightarrow> string" where
  "cleanPath p =
     (if p = [] then [slash]
      else
        (let p' = (if hd p \<noteq> slash then slash # p else p); np = path_clean p' in
         if last p' = slash \<and> np \<noteq> [slash] then np @ [slash] else np))"

section \<open>Patterns\<close>

datatype pat_seg = Lit string | Wild string

datatype endpoint =
    Attest | Submit | UploadModel | UploadWeights | UploadPreprocessing | Status | Queue | Results
  | Healthz

record route =
  rt_method :: string
  rt_pattern :: "pat_seg list"
  rt_endpoint :: endpoint

text \<open>The bindings of the wildcards; a segment that unescapes to a slash matches no wildcard.\<close>

fun match_segs :: "pat_seg list \<Rightarrow> string list \<Rightarrow> (string \<times> string) list option" where
  "match_segs [] [] = Some []"
| "match_segs (Lit l # ps) (s # ss) = (if s = l then match_segs ps ss else None)"
| "match_segs (Wild n # ps) (s # ss) =
     (if s = [slash] then None else map_option (\<lambda>bs. (n, s) # bs) (match_segs ps ss))"
| "match_segs _ _ = None"

fun find_route ::
  "route list \<Rightarrow> string \<Rightarrow> string list \<Rightarrow> (endpoint \<times> (string \<times> string) list) option" where
  "find_route [] m ss = None"
| "find_route (rt # rts) m ss =
     (if rt_method rt = m
      then
        (case match_segs (rt_pattern rt) ss of
           Some bs \<Rightarrow> Some (rt_endpoint rt, bs)
         | None \<Rightarrow> find_route rts m ss)
      else find_route rts m ss)"

definition mux_match ::
  "route list \<Rightarrow> string \<Rightarrow> string \<Rightarrow> (endpoint \<times> (string \<times> string) list) option" where
  "mux_match rts m p =
     (case find_route rts m (path_segments p) of
        Some x \<Rightarrow> Some x
      | None \<Rightarrow> if m = ''HEAD'' then find_route rts ''GET'' (path_segments p) else None)"

definition allowed_methods :: "route list \<Rightarrow> string \<Rightarrow> string list" where
  "allowed_methods rts p =
     (let hit = (\<lambda>m. find_route rts m (path_segments p) \<noteq> None) in
      filter (\<lambda>m. hit m \<or> m = ''HEAD'' \<and> hit ''GET'') [''GET'', ''HEAD'', ''POST'', ''PUT''])"

fun join_comma :: "string list \<Rightarrow> string" where
  "join_comma [] = []"
| "join_comma [p] = p"
| "join_comma (p # q # ps) = p @ '', '' @ join_comma (q # ps)"

section \<open>The decision of the multiplexer\<close>

datatype mux_result =
    BadRequest
  | Redirect string
  | MethodNotAllowed "string list"
  | NotFound
  | Run endpoint "(string \<times> string) list"

definition mux_find :: "route list \<Rightarrow> http_request \<Rightarrow> mux_result" where
  "mux_find rts r =
     (if rq_escaped r = ''*'' then BadRequest
      else
        (let p = (if rq_method r = ''CONNECT'' then rq_escaped r else cleanPath (rq_escaped r)) in
         if p \<noteq> rq_escaped r then Redirect p
         else
           (case mux_match rts (rq_method r) p of
              Some (ep, bs) \<Rightarrow> Run ep bs
            | None \<Rightarrow>
                (if allowed_methods rts p \<noteq> [] then MethodNotAllowed (allowed_methods rts p)
                 else NotFound))))"

definition redirect_to :: "env \<Rightarrow> http_request \<Rightarrow> string \<Rightarrow> resp_writer \<Rightarrow> resp_writer" where
  "redirect_to E r p w =
     (let w1 = w_set ''Location'' (e_redirect_url E r p) w;
          w2 = (if rq_method r = ''GET'' \<or> rq_method r = ''HEAD''
                then w_set ''Content-Type'' ''text/html; charset=utf-8'' w1 else w1);
          w3 = write_header (e_redirect_code E) w2
      in if rq_method r = ''GET'' then w_write (e_redirect_body E r p) w3 else w3)"

text \<open>\<open>ServeMux.ServeHTTP\<close> over a table of handlers; \<open>"*"\<close> is a bad request outside \<open>OPTIONS\<close>.\<close>

definition serve_mux ::
  "env \<Rightarrow> route list \<Rightarrow> (endpoint \<Rightarrow> (string \<times> string) list \<Rightarrow> server_state handler) \<Rightarrow>
   server_state handler" where
  "serve_mux E rts handlers r ws =
     (case mux_find rts r of
        BadRequest \<Rightarrow> (write_header 400 (w_set ''Connection'' ''close'' (fst ws)), snd ws)
      | Redirect p \<Rightarrow> (redirect_to E r p (fst ws), snd ws)
      | MethodNotAllowed ms \<Rightarrow>
          (http_error ''Method Not Allowed'' 405 (w_set ''Allow'' (join_comma ms) (fst ws)), snd ws)
      | NotFound \<Rightarrow> (http_error ''404 page not found'' 404 (fst ws), snd ws)
      | Run ep bs \<Rightarrow> handlers ep bs r ws)"

text \<open>\<open>r.PathValue(name)\<close>\<close>

definition path_value :: "string \<Rightarrow> (string \<times> string) list \<Rightarrow> string" where
  "path_value n bs = (case map_of bs n of None \<Rightarrow> [] | Some v \<Rightarrow> v)"

section \<open>Facts\<close>

lemma find_route_Some:
  "find_route rts m ss = Some (ep, bs) \<Longrightarrow>
     \<exists>rt \<in> set rts. rt_method rt = m \<and> rt_endpoint rt = ep \<and> match_segs (rt_pattern rt) ss = Some bs"
  by (induction rts) (auto split: if_splits option.splits)

lemma match_segs_Some:
  "match_segs [] ss = Some bs \<longleftrightarrow> ss = [] \<and> bs = []"
  "match_segs (Lit l # ps) ss = Some bs \<longleftrightarrow> (\<exists>ss'. ss = l # ss' \<and> match_segs ps ss' = Some bs)"
  "match_segs (Wild n # ps) ss = Some bs \<longleftrightarrow>
     (\<exists>s ss' bs'. ss = s # ss' \<and> s \<noteq> [slash] \<and> match_segs ps ss' = Some bs' \<and> bs = (n, s) # bs')"
  by (cases ss; auto)+

lemma mux_find_Run:
  assumes "mux_find rts r = Run ep bs"
  shows "\<exists>rt \<in> set rts. rt_endpoint rt = ep \<and>
           (rt_method rt = rq_method r \<or> rt_method rt = ''GET'' \<and> rq_method r = ''HEAD'') \<and>
           match_segs (rt_pattern rt) (path_segments (rq_escaped r)) = Some bs"
  using assms
  by (auto simp: mux_find_def mux_match_def Let_def split: if_splits option.splits
      dest!: find_route_Some)

lemma serve_mux_state:
  "(\<And>ep bs. mux_find rts r \<noteq> Run ep bs) \<Longrightarrow> snd (serve_mux E rts h r ws) = snd ws"
  by (simp add: serve_mux_def split: mux_result.split)

text \<open>Unescaping commutes with appending when both parts unescape.\<close>

lemma pct_decode_append:
  "pct_decode a = Some x \<Longrightarrow> pct_decode (a @ b) = map_option (\<lambda>y. x @ y) (pct_decode b)"
proof (induction a arbitrary: x rule: pct_decode.induct)
  case 1
  then show ?case by (simp add: option.map_ident)
next
  case (2 c cs)
  show ?case
  proof (cases "c = CHR ''%''")
    case True
    then obtain p q r t where "cs = p # q # r" "is_hex p" "is_hex q" "pct_decode r = Some t"
        "x = char_of (16 * hex_digit_val p + hex_digit_val q) # t"
      using 2(3) by (auto split: list.splits if_splits)
    then show ?thesis
      using 2(1) True by (auto simp: option.map_comp comp_def)
  next
    case False
    then show ?thesis
      using 2(2,3) by (auto simp: option.map_comp comp_def)
  qed
qed

text \<open>A path that unescapes as a whole unescapes up to any slash: no escape spans a slash.\<close>

lemma pct_decode_upto_slash:
  "pct_decode p = Some x \<Longrightarrow> \<exists>y. pct_decode (takeWhile (\<lambda>c. c \<noteq> slash) p) = Some y"
proof (induction p arbitrary: x rule: pct_decode.induct)
  case 1
  then show ?case by simp
next
  case (2 c cs)
  have hex_slash: "\<not> is_hex slash"
    by (simp add: is_hex_def is_digit_def slash_def)
  show ?case
  proof (cases "c = CHR ''%''")
    case True
    then obtain p q r t where cs: "cs = p # q # r" "is_hex p" "is_hex q" "pct_decode r = Some t"
      using 2(3) by (auto split: list.splits if_splits)
    then have "p \<noteq> slash" "q \<noteq> slash"
      using hex_slash by auto
    moreover obtain y where "pct_decode (takeWhile (\<lambda>c. c \<noteq> slash) r) = Some y"
      using 2(1) True cs by blast
    ultimately show ?thesis
      using True cs by (simp add: slash_def)
  next
    case False
    then obtain t where "pct_decode cs = Some t"
      using 2(3) by auto
    with 2(2) False show ?thesis by auto
  qed
qed

text \<open>The first segment of a path is what its unescaped form starts with.\<close>

lemma first_segment_prefix:
  assumes "pct_decode (slash # p) = Some x" and "p \<noteq> []"
  shows "\<exists>t. x = slash # fst (first_segment (slash # p)) @ t"
proof -
  let ?a = "takeWhile (\<lambda>c. c \<noteq> slash) p"
  have "slash \<noteq> CHR ''%''"
    by (simp add: slash_def)
  then obtain x' where x': "x = slash # x'" "pct_decode p = Some x'"
    using assms(1) by auto
  obtain y where y: "pct_decode ?a = Some y"
    using pct_decode_upto_slash [OF x'(2)] by blast
  then have "pct_decode p = map_option (\<lambda>z. y @ z) (pct_decode (dropWhile (\<lambda>c. c \<noteq> slash) p))"
    using pct_decode_append [of ?a y "dropWhile (\<lambda>c. c \<noteq> slash) p"] by simp
  then obtain z where "x' = y @ z"
    using x'(2) by (cases "pct_decode (dropWhile (\<lambda>c. c \<noteq> slash) p)") auto
  then show ?thesis
    using x' y assms(2) by (simp add: first_segment_def path_unescape_def)
qed

end
