(* ===== verification/Server.thy ===== *)
theory Server
  imports Submit_Spec Router
begin

text \<open>
  \<open>internal/server/server.go\<close> and \<open>attest.go\<close>: the route table, the handlers that proxy to the
  buffer manager, the attestation endpoint, the CORS middleware, and the composed handler.
\<close>

section \<open>GET /v1/attest\<close>

definition HandleAttest :: "server_state handler" where
  "HandleAttest r ws =
     (let (w, s) = ws; nonceB64u = rq_get r ''X-RATLS-Nonce'' in
      if nonceB64u = [] then (http_error ''missing X-RATLS-Nonce header'' 400 w, s)
      else
        (case b64_decode RawURLEncoding nonceB64u of
           Inl _ \<Rightarrow> (http_error ''bad X-RATLS-Nonce encoding'' 400 w, s)
         | Inr nonce \<Rightarrow>
             (if length nonce \<noteq> 32
              then (http_error ''X-RATLS-Nonce must be exactly 32 bytes'' 400 w, s)
              else
                (case Build (sv_builder s) nonce of
                   Inl _ \<Rightarrow> (http_error ''failed to build attestation bundle'' 500 w, s)
                 | Inr bndl \<Rightarrow>
                     (w_write (AttestBundle_json bndl @ [CHR 0x0A])
                        (w_set ''Cache-Control'' ''no-store''
                          (w_set ''Content-Type'' ''application/json'' w)), s)))))"

section \<open>Proxies to the buffer manager\<close>

definition proxyGet ::
  "env \<Rightarrow> string \<Rightarrow> resp_writer \<times> server_state \<Rightarrow> resp_writer \<times> server_state" where
  "proxyGet E url ws =
     (case http_do E (get_request url) (snd ws) of
        (Inl _, s') \<Rightarrow> (http_error ''buffer manager unavailable'' 502 (fst ws), s')
      | (Inr resp, s') \<Rightarrow> (relay resp (fst ws), s'))"

definition HandleStatus :: "env \<Rightarrow> string \<Rightarrow> server_state handler" where
  "HandleStatus E jobID r = proxyGet E (bufferManagerURL @ ''/buffer/jobs/'' @ jobID)"

definition HandleQueue :: "env \<Rightarrow> server_state handler" where
  "HandleQueue E r = proxyGet E (bufferManagerURL @ ''/buffer/jobs'')"

definition HandleResults :: "env \<Rightarrow> string \<Rightarrow> server_state handler" where
  "HandleResults E jobID r = proxyGet E (bufferManagerURL @ ''/buffer/jobs/'' @ jobID @ ''/results'')"

section \<open>Routes\<close>

definition server_routes :: "route list" where
  "server_routes =
     [\<lparr>rt_method = ''GET'', rt_pattern = [Lit ''v1'', Lit ''attest''], rt_endpoint = Attest\<rparr>,
      \<lparr>rt_method = ''POST'', rt_pattern = [Lit ''v1'', Lit ''submit''], rt_endpoint = Submit\<rparr>,
      \<lparr>rt_method = ''PUT'', rt_pattern = [Lit ''v1'', Lit ''upload'', Wild ''job_id'', Lit ''model''],
       rt_endpoint = UploadModel\<rparr>,
      \<lparr>rt_method = ''PUT'', rt_pattern = [Lit ''v1'', Lit ''upload'', Wild ''job_id'', Lit ''weights''],
       rt_endpoint = UploadWeights\<rparr>,
      \<lparr>rt_method = ''PUT'',
       rt_pattern = [Lit ''v1'', Lit ''upload'', Wild ''job_id'', Lit ''preprocessing''],
       rt_endpoint = UploadPreprocessing\<rparr>,
      \<lparr>rt_method = ''GET'', rt_pattern = [Lit ''v1'', Lit ''status'', Wild ''job_id''],
       rt_endpoint = Status\<rparr>,
      \<lparr>rt_method = ''GET'', rt_pattern = [Lit ''v1'', Lit ''queue''], rt_endpoint = Queue\<rparr>,
      \<lparr>rt_method = ''GET'', rt_pattern = [Lit ''v1'', Lit ''results'', Wild ''job_id''],
       rt_endpoint = Results\<rparr>,
      \<lparr>rt_method = ''GET'', rt_pattern = [Lit ''healthz''], rt_endpoint = Healthz\<rparr>]"

fun run_endpoint :: "env \<Rightarrow> endpoint \<Rightarrow> (string \<times> string) list \<Rightarrow> server_state handler" where
  "run_endpoint E Attest bs = HandleAttest"
| "run_endpoint E Submit bs = HandleSubmit E"
| "run_endpoint E UploadModel bs = HandleUploadModel E (path_value ''job_id'' bs)"
| "run_endpoint E UploadWeights bs = HandleUploadWeights E (path_value ''job_id'' bs)"
| "run_endpoint E UploadPreprocessing bs = HandleUploadPreprocessing E (path_value ''job_id'' bs)"
| "run_endpoint E Status bs = HandleStatus E (path_value ''job_id'' bs)"
| "run_endpoint E Queue bs = requireRole ''org_admin'' (HandleQueue E)"
| "run_endpoint E Results bs = HandleResults E (path_value ''job_id'' bs)"
| "run_endpoint E Healthz bs = (\<lambda>r ws. (write_header 200 (fst ws), snd ws))"

definition server_mux :: "env \<Rightarrow> server_state handler" where
  "server_mux E = serve_mux E server_routes (run_endpoint E)"

section \<open>The composed handler\<close>

definition cors_headers :: "resp_writer \<Rightarrow> resp_writer" where
  "cors_headers w =
     w_set ''Access-Control-Max-Age'' ''86400''
       (w_set ''Access-Control-Allow-Headers''
          ''X-RATLS-Nonce, X-RATLS-Browser-HPKE, Content-Type, Authorization''
         (w_set ''Access-Control-Allow-Methods'' ''GET, POST, PUT, OPTIONS''
           (w_set ''Access-Control-Allow-Origin'' ''*'' w)))"

definition corsMiddleware :: "server_state handler \<Rightarrow> server_state handler" where
  "corsMiddleware next r ws =
     (let w = cors_headers (fst ws) in
      if rq_method r = ''OPTIONS'' then (write_header 204 w, snd ws) else next r (w, snd ws))"

definition Handler :: "env \<Rightarrow> AuthConfig \<Rightarrow> server_state handler" where
  "Handler E auth =
     (if ac_JWKSUrl auth = [] then corsMiddleware (server_mux E)
      else keycloakAuthMiddleware E (ac_JWKSUrl auth) (ac_Issuer auth) (corsMiddleware (server_mux E)))"

section \<open>The middlewares as guards\<close>

definition cors_passes :: "http_request \<Rightarrow> resp_writer \<times> server_state \<Rightarrow> bool" where
  "cors_passes r ws \<longleftrightarrow> rq_method r \<noteq> ''OPTIONS''"

definition cors_enter :: "server_state handler" where
  "cors_enter r ws = (cors_headers (fst ws), snd ws)"

definition cors_deny :: "server_state handler" where
  "cors_deny r ws = (write_header 204 (cors_headers (fst ws)), snd ws)"

interpretation cors: guard corsMiddleware cors_passes cors_enter cors_deny
  by unfold_locales (simp_all add: corsMiddleware_def cors_passes_def cors_enter_def cors_deny_def Let_def)

interpretation stack: guard_pair "keycloakAuthMiddleware E url issuer" "auth_passes E url issuer"
    "auth_enter E url issuer" "auth_deny E url issuer" corsMiddleware cors_passes cors_enter cors_deny
  by unfold_locales

section \<open>What an endpoint may do\<close>

text \<open>A request that stays inside the machine: to the buffer manager's job interface.\<close>

definition local_request :: "out_request \<Rightarrow> bool" where
  "local_request rq \<longleftrightarrow> has_prefix (or_url rq) (bufferManagerURL @ ''/buffer/jobs'')"

definition endpoint_effect :: "server_state \<Rightarrow> server_state \<Rightarrow> bool" where
  "endpoint_effect s s' \<longleftrightarrow>
     s' = s \<or> (\<exists>rq. local_request rq \<and> s' = s\<lparr>sv_sent := sv_sent s @ [rq]\<rparr>)"

lemma local_request_url [simp]:
  "or_url rq = bufferManagerURL @ ''/buffer/jobs'' @ t \<Longrightarrow> local_request rq"
  by (auto simp: local_request_def has_prefix_iff)

lemma endpoint_effect_refl [simp]: "endpoint_effect s s"
  by (simp add: endpoint_effect_def)

lemma endpoint_effect_sent: "local_request rq \<Longrightarrow> endpoint_effect s (s\<lparr>sv_sent := sv_sent s @ [rq]\<rparr>)"
  unfolding endpoint_effect_def by blast

lemma endpoint_effect_send:
  "local_request rq \<Longrightarrow> endpoint_effect s (snd (http_do E rq s))"
  by (auto simp: endpoint_effect_def http_do_def)

lemma HandleAttest_state [simp]: "snd (HandleAttest r ws) = snd ws"
  by (simp add: HandleAttest_def Let_def split: prod.splits sum.splits)

lemma proxyGet_effect:
  "endpoint_effect (snd ws) (snd (proxyGet E (bufferManagerURL @ ''/buffer/jobs'' @ t) ws))"
proof -
  let ?rq = "get_request (bufferManagerURL @ ''/buffer/jobs'' @ t)"
  have "local_request ?rq"
    by (rule local_request_url [of _ t]) (simp add: get_request_def)
  then show ?thesis
    by (auto simp: proxyGet_def http_do_def endpoint_effect_def split: sum.splits)
qed

lemma handle_upload_effect: "endpoint_effect (snd ws) (snd (handle_upload E jobID kind r ws))"
proof -
  have "local_request (upload_put (bufferManagerURL @ ''/buffer/jobs/'' @ t) d)" for t d
    by (rule local_request_url [of _ "slash # t"]) (simp add: upload_put_def slash_def)
  then show ?thesis
    by (auto simp: handle_upload_def proxyPlaintextUpload_def http_do_def endpoint_effect_def
        split: prod.splits sum.splits)
qed

lemma HandleSubmit_effect: "endpoint_effect (snd ws) (snd (HandleSubmit E r ws))"
proof -
  obtain w s w' s' where ws: "ws = (w, s)" "HandleSubmit E r (w, s) = (w', s')"
    by (metis surj_pair)
  have loc: "local_request (job_post p)" for p
    by (rule local_request_url [of _ "[]"]) (simp add: job_post_def)
  from ws(2) have "endpoint_effect s s'"
  proof (cases rule: HandleSubmit_cases)
    case (blocked msg)
    then show ?thesis by (simp add: endpoint_effect_def)
  next
    case (processed pub info pt out)
    from processed(2) show ?thesis
      by (cases rule: processJob_cases) (simp_all add: endpoint_effect_sent loc)
  qed
  with ws show ?thesis by simp
qed

lemma run_endpoint_effect: "endpoint_effect (snd ws) (snd (run_endpoint E ep bs r ws))"
proof (cases ep)
  case Submit
  then show ?thesis by (simp add: HandleSubmit_effect)
next
  case Status
  then show ?thesis
    using proxyGet_effect [of ws E "slash # path_value ''job_id'' bs"]
    by (simp add: HandleStatus_def slash_def)
next
  case Results
  then show ?thesis
    using proxyGet_effect [of ws E "slash # path_value ''job_id'' bs @ ''/results''"]
    by (simp add: HandleResults_def slash_def)
next
  case Queue
  then show ?thesis
    using proxyGet_effect [of ws E "[]"]
    by (auto simp: requireRole_def HandleQueue_def endpoint_effect_def)
qed (auto simp: endpoint_effect_def HandleUploadModel_def HandleUploadWeights_def
      HandleUploadPreprocessing_def handle_upload_effect [unfolded endpoint_effect_def])

lemma server_mux_effect: "endpoint_effect (snd ws) (snd (server_mux E r ws))"
  using run_endpoint_effect
  by (auto simp: server_mux_def serve_mux_def endpoint_effect_def split: mux_result.split)

lemma cors_effect:
  assumes "\<And>ws. endpoint_effect (snd ws) (snd (h r ws))"
  shows "endpoint_effect (snd ws) (snd (corsMiddleware h r ws))"
  using assms [of "(cors_headers (fst ws), snd ws)"] by (simp add: corsMiddleware_def Let_def)

end
