(* ===== verification/Client.thy ===== *)
theory Client
  imports Http
begin

text \<open>
  What one call of an \<open>http.Client\<close> puts on the wire.  The programs call \<open>http.Get\<close>, \<open>http.Post\<close> and
  \<open>Client.Do\<close> with the default policy, so a call may consist of several exchanges: the client follows
  redirects, for at most ten requests in all.  \<open>client_net\<close> gives the results of the calls, the type \<open>net\<close>
  of the models, from the exchanges; \<open>wire\<close> gives the requests of a call.

  Arguments are the exchanges (an answer comes with its \<open>Location\<close> header, empty if it has none), the
  resolution of a reference against a URL, and the \<open>Referer\<close> for a pair of URLs.  The requests of the
  programs can be repeated (their bodies are byte slices) and carry none of the headers that the client
  drops when the host changes.
\<close>

record http_client =
  cl_exchange :: "out_request \<Rightarrow> (peer_response \<times> string) result"
  cl_resolve :: "string \<Rightarrow> string \<Rightarrow> string result"
  cl_referer :: "string \<Rightarrow> string \<Rightarrow> string"

definition drops_body :: "nat \<Rightarrow> bool" where
  "drops_body n \<longleftrightarrow> n \<in> {301, 302, 303}"

definition keeps_body :: "nat \<Rightarrow> bool" where
  "keeps_body n \<longleftrightarrow> n \<in> {307, 308}"

definition redirects :: "peer_response \<Rightarrow> string \<Rightarrow> bool" where
  "redirects resp loc \<longleftrightarrow> (drops_body (pr_status resp) \<or> keeps_body (pr_status resp)) \<and> loc \<noteq> []"

definition body_header :: "string \<Rightarrow> bool" where
  "body_header k \<longleftrightarrow>
     k \<in> {''Content-Encoding'', ''Content-Language'', ''Content-Location'', ''Content-Type''}"

text \<open>
  The request after an answer: \<open>ireq\<close> is the first of the call, \<open>rq\<close> the one that was answered.  Once a
  hop has dropped the body it is not sent again.
\<close>

definition next_request ::
  "http_client \<Rightarrow> out_request \<Rightarrow> bool \<Rightarrow> out_request \<Rightarrow> nat \<Rightarrow> string \<Rightarrow> out_request" where
  "next_request C ireq includeBody rq status u =
     (let hdr = (if includeBody then or_header ireq else filter (\<lambda>f. \<not> body_header (fst f)) (or_header ireq));
          ref = cl_referer C (or_url rq) u
      in \<lparr>or_method = (if drops_body status \<and> or_method rq \<noteq> ''GET'' \<and> or_method rq \<noteq> ''HEAD'' then ''GET''
                       else or_method rq),
          or_url = u,
          or_header = (if ref \<noteq> [] then header_set ''Referer'' ref hdr else hdr),
          or_body = (if includeBody then or_body ireq else [])\<rparr>)"

fun client_hops ::
  "http_client \<Rightarrow> out_request \<Rightarrow> nat \<Rightarrow> bool \<Rightarrow> out_request \<Rightarrow> peer_response result \<times> out_request list" where
  "client_hops C ireq n includeBody rq =
     (case cl_exchange C rq of
        Inl err \<Rightarrow> (Inl err, [rq])
      | Inr (resp, loc) \<Rightarrow>
          (if \<not> redirects resp loc then (Inr resp, [rq])
           else
             (case cl_resolve C (or_url rq) loc of
                Inl err \<Rightarrow> (Inl (Wrapf ''failed to parse Location header'' err), [rq])
              | Inr u \<Rightarrow>
                  (case n of
                     0 \<Rightarrow> (Inl (Lib (LibError ''stopped after 10 redirects'')), [rq])
                   | Suc m \<Rightarrow>
                       (let incl = (includeBody \<and> keeps_body (pr_status resp));
                            (res, rqs) = client_hops C ireq m incl
                              (next_request C ireq incl rq (pr_status resp) u)
                        in (res, rq # rqs))))))"

declare client_hops.simps [simp del]

definition client_do :: "http_client \<Rightarrow> out_request \<Rightarrow> peer_response result \<times> out_request list" where
  "client_do C rq = client_hops C rq 9 True rq"

definition client_net :: "http_client \<Rightarrow> net" where
  "client_net C rq = fst (client_do C rq)"

definition wire :: "http_client \<Rightarrow> out_request \<Rightarrow> out_request list" where
  "wire C rq = snd (client_do C rq)"

section \<open>What is on the wire\<close>

text \<open>A redirect answer to \<open>p\<close> names the URL of \<open>q\<close>.\<close>

definition named_by :: "http_client \<Rightarrow> out_request \<Rightarrow> out_request \<Rightarrow> bool" where
  "named_by C p q \<longleftrightarrow>
     (\<exists>resp loc. cl_exchange C p = Inr (resp, loc) \<and> redirects resp loc \<and>
        cl_resolve C (or_url p) loc = Inr (or_url q))"

text \<open>A request of a call repeats its first one, or has lost its method or its body.\<close>

definition hop_of :: "out_request \<Rightarrow> out_request \<Rightarrow> bool" where
  "hop_of ireq q \<longleftrightarrow> or_method q \<in> {or_method ireq, ''GET''} \<and> or_body q \<in> {or_body ireq, []}"

lemma next_request_hop:
  "hop_of ireq rq \<Longrightarrow> hop_of ireq (next_request C ireq incl rq status u)"
  by (auto simp: hop_of_def next_request_def Let_def)

lemma next_request_url [simp]: "or_url (next_request C ireq incl rq status u) = u"
  by (simp add: next_request_def Let_def)

lemma hops_first: "\<exists>rqs. snd (client_hops C ireq n incl rq) = rq # rqs"
  by (subst client_hops.simps) (auto simp: Let_def split: sum.split prod.split nat.split)

lemma hops_length: "length (snd (client_hops C ireq n incl rq)) \<le> Suc n"
proof (induction n arbitrary: incl rq)
  case 0
  show ?case by (subst client_hops.simps) (auto split: sum.split)
next
  case (Suc n)
  show ?case
    by (subst client_hops.simps) (auto simp: Let_def split: sum.split prod.split, metis Suc.IH snd_conv)
qed

lemma hops_named:
  assumes "q \<in> set (snd (client_hops C ireq n incl rq))" and "hop_of ireq rq"
  shows "hop_of ireq q \<and> (q = rq \<or> (\<exists>p \<in> set (snd (client_hops C ireq n incl rq)). named_by C p q))"
  using assms
proof (induction n arbitrary: incl rq)
  case 0
  then have "q = rq"
    by (subst (asm) client_hops.simps) (auto split: sum.splits if_splits)
  with 0 show ?case by simp
next
  case (Suc n)
  show ?case
  proof (cases "q = rq")
    case True
    with Suc.prems show ?thesis by simp
  next
    case False
    obtain resp loc u where h: "cl_exchange C rq = Inr (resp, loc)" "redirects resp loc"
        "cl_resolve C (or_url rq) loc = Inr u"
      using Suc.prems(1) False
      by (subst (asm) client_hops.simps) (auto split: sum.splits if_splits)
    define i where "i = (incl \<and> keeps_body (pr_status resp))"
    define rq' where "rq' = next_request C ireq i rq (pr_status resp) u"
    have rest: "snd (client_hops C ireq (Suc n) incl rq) = rq # snd (client_hops C ireq n i rq')"
      by (subst client_hops.simps) (simp add: h i_def rq'_def Let_def split: prod.split)
    then have q: "q \<in> set (snd (client_hops C ireq n i rq'))"
      using Suc.prems(1) False by simp
    have "hop_of ireq rq'"
      unfolding rq'_def using Suc.prems(2) by (rule next_request_hop)
    from Suc.IH [OF q this] have "hop_of ireq q"
      and "q = rq' \<or> (\<exists>p \<in> set (snd (client_hops C ireq n i rq')). named_by C p q)"
      by blast+
    moreover have "named_by C rq rq'"
      unfolding named_by_def using h by (auto simp: rq'_def)
    ultimately show ?thesis
      unfolding rest by auto
  qed
qed

lemma wire_facts:
  "hd (wire C rq) = rq" "length (wire C rq) \<le> 10"
  "q \<in> set (wire C rq) \<Longrightarrow> hop_of rq q \<and> (q = rq \<or> (\<exists>p \<in> set (wire C rq). named_by C p q))"
proof -
  show "hd (wire C rq) = rq"
    using hops_first [of C rq 9 True rq] by (auto simp: wire_def client_do_def)
  show "length (wire C rq) \<le> 10"
    using hops_length [of C rq 9 True rq] by (simp add: wire_def client_do_def)
  show "hop_of rq q \<and> (q = rq \<or> (\<exists>p \<in> set (wire C rq). named_by C p q))" if "q \<in> set (wire C rq)"
    using hops_named [of q C rq 9 True rq] that by (simp add: wire_def client_do_def hop_of_def)
qed

text \<open>Without redirects a call is one exchange.\<close>

lemma wire_single:
  assumes "\<And>resp loc. cl_exchange C rq = Inr (resp, loc) \<Longrightarrow> \<not> redirects resp loc"
  shows "wire C rq = [rq]" and "client_net C rq = (case cl_exchange C rq of Inl e \<Rightarrow> Inl e | Inr x \<Rightarrow> Inr (fst x))"
  using assms by (auto simp: wire_def client_net_def client_do_def client_hops.simps [of C rq] split: sum.split)

end
