(* ===== verification/Toy_Provider.thy ===== *)
theory Toy_Provider
  imports Auth Upload_Spec
begin

text \<open>
  A concrete identity provider for witnesses: a key set with one RSA key, and a token signed by it
  in the sense of \<open>toy_env\<close>, where a signature is valid when it repeats the digest.
\<close>

definition toy_auth :: AuthConfig where
  "toy_auth = \<lparr>ac_JWKSUrl = ''https://idp/certs'', ac_Issuer = ''https://idp''\<rparr>"

definition toy_n :: string where
  "toy_n = b64_encode RawURLEncoding [3]"

definition toy_e :: string where
  "toy_e = b64_encode RawURLEncoding [1, 0, 1]"

definition toy_key :: rsa_key where
  "toy_key = \<lparr>rsa_N = 3, rsa_E = 65537\<rparr>"

definition toy_key_json :: string where
  "toy_key_json =
     json_object
       [(''kid'', json_string ''k1''), (''kty'', json_string ''RSA''), (''n'', json_string toy_n),
        (''e'', json_string toy_e)]"

definition toy_jwks_json :: string where
  "toy_jwks_json = json_object [(''keys'', json_array [toy_key_json])]"

definition toy_idp :: net where
  "toy_idp rq = Inr \<lparr>pr_status = 200, pr_body = \<lparr>st_data = bytes_of toy_jwks_json, st_end = EOF\<rparr>\<rparr>"

definition toy_head :: string where
  "toy_head = b64_encode RawURLEncoding
     (bytes_of (json_object [(''alg'', json_string ''RS256''), (''kid'', json_string ''k1'')]))"

definition toy_claims :: string where
  "toy_claims = b64_encode RawURLEncoding
     (bytes_of (json_object [(''exp'', show_int 100), (''iss'', json_string ''https://idp'')]))"

definition toy_token :: string where
  "toy_token = toy_head @ ''.'' @ toy_claims @ ''.'' @
     b64_encode RawURLEncoding (sha256 (bytes_of (toy_head @ ''.'' @ toy_claims)))"

section \<open>The key set\<close>

definition toy_key_value :: json where
  "toy_key_value = JObj [(''kid'', JStr ''k1''), (''kty'', JStr ''RSA''), (''n'', JStr toy_n), (''e'', JStr toy_e)]"

lemma toy_names:
  "utf8_fix ''kid'' = ''kid''" "utf8_fix ''kty'' = ''kty''" "utf8_fix ''n'' = ''n''"
  "utf8_fix ''e'' = ''e''" "utf8_fix ''keys'' = ''keys''" "utf8_fix ''alg'' = ''alg''"
  "utf8_fix ''exp'' = ''exp''" "utf8_fix ''iss'' = ''iss''"
  by (rule utf8_fix_ascii, simp add: is_ascii_def)+

lemma toy_numbers:
  "valid_utf8 toy_n" "valid_utf8 toy_e" "length toy_n = 2" "length toy_e = 4"
  "list_all plain_char toy_n" "list_all plain_char toy_e"
  "b64_decode RawURLEncoding toy_n = Inr [3]" "b64_decode RawURLEncoding toy_e = Inr [1, 0, 1]"
  using rawurl_length [of "[3]"] rawurl_length [of "[1, 0, 1]"]
  by (simp_all add: toy_n_def toy_e_def valid_utf8_b64 b64_encode_plain rawurl.dec_enc del: b64_encode.simps)

lemma toy_key_encodes: "encodes 6 toy_key_json toy_key_value"
proof -
  let ?ms = "[(''kid'', json_string ''k1'', JStr ''k1''), (''kty'', json_string ''RSA'', JStr ''RSA''),
    (''n'', json_string toy_n, JStr toy_n), (''e'', json_string toy_e, JStr toy_e)]"
  have "encodes (Suc (1 + length ?ms)) (json_object (map (\<lambda>(k, e, v). (k, e)) ?ms))
      (JObj (map (\<lambda>(k, e, v). (utf8_fix k, v)) ?ms))"
    by (rule encodes_object)
      (simp_all add: encodes_ascii is_ascii_def encodes_valid toy_numbers)
  then show ?thesis
    by (simp add: toy_key_json_def toy_key_value_def toy_names eval_nat_numeral)
qed

lemma toy_jwks_parse: "json_parse toy_jwks_json = Some (JObj [(''keys'', JArr [toy_key_value])])"
proof (rule encodes_json_parse)
  have "hd toy_key_json = CHR ''{''"
    by (simp add: toy_key_json_def json_object_def)
  then have "encodes 8 (json_array [toy_key_json]) (JArr [toy_key_value])"
    using encodes_array [of "[(toy_key_json, toy_key_value)]" 6] toy_key_encodes
    by (simp add: eval_nat_numeral)
  then show "encodes 10 toy_jwks_json (JObj [(''keys'', JArr [toy_key_value])])"
    using encodes_object [of "[(''keys'', json_array [toy_key_json], JArr [toy_key_value])]" 8]
    by (simp add: toy_jwks_json_def toy_names eval_nat_numeral)
  show "10 \<le> 2 * length toy_jwks_json + 2"
    by (simp add: toy_jwks_json_def json_object_def json_pair_def json_string_def json_array_def
        toy_key_json_def)
qed (simp add: max_nesting_depth_def toy_key_value_def)

lemma toy_jwks_length: "length toy_jwks_json < 2 ^ 20"
  by (simp add: toy_jwks_json_def toy_key_json_def json_object_def json_pair_def json_array_def
      json_string_plain toy_numbers plain_char_def)

lemma toy_jwks_response:
  "jwks_of_response \<lparr>pr_status = 200, pr_body = \<lparr>st_data = bytes_of toy_jwks_json, st_end = EOF\<rparr>\<rparr> =
     Inr [''k1'' \<mapsto> toy_key]"
proof -
  have "exponent_of [1, 0, 1] = 65537"
    by (simp add: exponent_of_value be_value_def)
  then have "rsaPubKeyFromJWK \<lparr>jk_Kid = ''k1'', jk_Kty = ''RSA'', jk_N = toy_n, jk_E = toy_e\<rparr> = Inr toy_key"
    by (simp add: rsaPubKeyFromJWK_def toy_numbers toy_key_def be_value_def)
  then show ?thesis
    using toy_jwks_length
    by (simp add: jwks_of_response_def read_limited_def read_all_def json_unmarshal_def toy_jwks_parse
        setter_defs find_field_def jwksDocument_fields_def jwksKey_fields_def jwksKey_zero_def
        toy_key_value_def)
qed

section \<open>The token\<close>

lemma toy_head_parse:
  "parse_jwt_header (bytes_of (json_object [(''alg'', json_string ''RS256''), (''kid'', json_string ''k1'')])) =
     Inr \<lparr>jh_Alg = ''RS256'', jh_Kid = ''k1''\<rparr>"
proof -
  have "json_parse (json_object [(''alg'', json_string ''RS256''), (''kid'', json_string ''k1'')]) =
      Some (JObj [(''alg'', JStr ''RS256''), (''kid'', JStr ''k1'')])"
    using json_parse_object [of "[(''alg'', json_string ''RS256'', JStr ''RS256''),
        (''kid'', json_string ''k1'', JStr ''k1'')]"]
    by (simp add: encodes_ascii is_ascii_def toy_names)
  then show ?thesis
    by (simp add: parse_jwt_header_def json_unmarshal_def setter_defs find_field_def jwt_header_fields_def)
qed

lemma toy_claims_parse:
  "parse_jwt_payload (bytes_of (json_object [(''exp'', show_int 100), (''iss'', json_string ''https://idp'')])) =
     Inr \<lparr>jp_Exp = 100, jp_Iss = ''https://idp''\<rparr>"
proof -
  have "json_parse (json_object [(''exp'', show_int 100), (''iss'', json_string ''https://idp'')]) =
      Some (JObj [(''exp'', JNum (show_int 100)), (''iss'', JStr ''https://idp'')])"
    using json_parse_object [of "[(''exp'', show_int 100, JNum (show_int 100)),
        (''iss'', json_string ''https://idp'', JStr ''https://idp'')]"]
    by (simp add: encodes_ascii encodes_simps is_ascii_def toy_names)
  moreover have "parse_int64 (show_int 100) = Some 100"
    by (rule parse_int64_show) simp_all
  ultimately show ?thesis
    by (simp add: parse_jwt_payload_def json_unmarshal_def setter_defs find_field_def jwt_payload_fields_def)
qed

lemma toy_token_valid:
  assumes "unix_seconds now \<le> 100"
  shows "token_valid (toy_env net now) ''https://idp'' ''k1'' key toy_token"
proof -
  have dots: "CHR ''.'' \<notin> set (toy_head @ toy_claims @
      b64_encode RawURLEncoding (sha256 (bytes_of (toy_head @ ''.'' @ toy_claims))))"
    by (simp add: toy_head_def toy_claims_def b64_encode_no_dot)
  have "check_claims (toy_env net now) toy_claims ''https://idp'' = Inr ()"
    using assms by (simp add: check_claims_Inr toy_claims_def rawurl.dec_enc toy_claims_parse)
  moreover have "b64_decode RawURLEncoding toy_head = Inr (bytes_of (json_object
      [(''alg'', json_string ''RS256''), (''kid'', json_string ''k1'')]))"
    by (simp add: toy_head_def rawurl.dec_enc)
  ultimately show ?thesis
    using token_validI [OF dots _ toy_head_parse] rawurl.dec_enc by (simp add: toy_token_def)
qed

lemma toy_fetch:
  "getPublicKey (toy_env toy_idp 0) url ''k1'' (s\<lparr>sv_jwks := empty_cache\<rparr>) =
     (Inr toy_key, s\<lparr>sv_jwks := \<lparr>jc_keys = [''k1'' \<mapsto> toy_key], jc_fetchedAt = 0\<rparr>,
                       sv_sent := sv_sent s @ [get_request url]\<rparr>)"
  by (simp add: getPublicKey_def jwks_fast_def jwks_slow_def cache_lookup_def empty_cache_def
      fetchJWKS_def http_do_def toy_idp_def toy_jwks_response Let_def)

end
