(* ===== verification/Auth_Spec.thy ===== *)
theory Auth_Spec
  imports Toy_Provider
begin

text \<open>
  The properties of the key cache and of the token check, with the witnesses that apply them to the
  concrete provider of \<open>Toy_Provider\<close>.
\<close>

section \<open>Keys\<close>

text \<open>
  C34: the RSA key of a JWK.  \<open>rsaPubKeyFromJWK\<close> succeeds exactly when both numbers are
  unpadded base64url and the exponent is not a multiple of \<open>2 ^ 64\<close>; the modulus is the big-endian
  value of its bytes, and the exponent is the big-endian value modulo \<open>2 ^ 64\<close> (the shift loop on
  a 64-bit \<open>int\<close> drops higher bytes silently).
\<close>

theorem jwk_key_value:
  "rsaPubKeyFromJWK k = Inr pub \<longleftrightarrow>
     (\<exists>n e. b64_decode RawURLEncoding (jk_N k) = Inr n \<and> b64_decode RawURLEncoding (jk_E k) = Inr e \<and>
        be_value e mod 2 ^ 64 \<noteq> 0 \<and> rsa_N pub = be_value n \<and>
        unat (rsa_E pub) = be_value e mod 2 ^ 64)"
proof -
  have "(of_nat m :: 64 word) = 0 \<longleftrightarrow> m mod 2 ^ 64 = 0" for m
    by (simp add: word_unat_eq_iff unat_of_nat)
  moreover have "pub = \<lparr>rsa_N = a, rsa_E = of_nat m\<rparr> \<longleftrightarrow> rsa_N pub = a \<and> unat (rsa_E pub) = m mod 2 ^ 64"
    for a m
    by (cases pub) (auto simp: word_unat_eq_iff unat_of_nat)
  ultimately show ?thesis
    by (simp only: rsaPubKey_Inr)
qed

text \<open>
  Of a key set, the last usable key of a kid counts.  Entries that are not RSA, that have
  no kid or that do not parse are skipped and hide no earlier key.
\<close>

theorem jwks_last_usable: "jwks_result ks (\<lambda>_. None) kid = jwks_find ks kid"
  by (simp add: jwks_result_find split: option.split)

section \<open>The cache\<close>

text \<open>
  Keys come from the provider, under any interleaving.  If the handlers' goroutines start
  with a cache of published keys (at the start it is empty), then after any interleaving of their
  fast and slow sections, with any clock and any answers, a lookup that returned a key for a kid
  returned one that an answer of the provider at the configured URL carried under that kid.
\<close>

theorem concurrent_keys_published:
  assumes "jc_reachable envs url w0 w" and "sv_jwks (jw_state w0) = empty_cache"
    and "\<forall>i. \<exists>kid. jw_pcs w0 i = JStart kid" and "jw_pcs w i = JDone kid (Inr k)"
  shows "published envs url kid k"
proof -
  have "jw_pcs w0 i \<noteq> JDone kid (Inr k)" for i kid k
    using assms(3) by (metis jc_pc.distinct(3))
  then have "jc_sound envs url w0"
    using assms(2) by (auto simp: jc_sound_def cache_published_def empty_cache_def)
  then show ?thesis
    using jc_reachable_sound [OF assms(1)] assms(4) by (auto simp: jc_sound_def)
qed

definition toy_world :: jc_world where
  "toy_world = \<lparr>jw_state = \<lparr>sv_builder = toy_builder [], sv_jwks = empty_cache, sv_sent = []\<rparr>,
                 jw_pcs = (\<lambda>_. JStart ''k1'')\<rparr>"

lemma toy_world_run:
  assumes "envs (toy_env toy_idp 0)"
  shows "\<exists>w. jc_reachable envs url toy_world w \<and> jw_pcs w 0 = JDone ''k1'' (Inr toy_key) \<and>
           sv_sent (jw_state w) = [get_request url]"
proof -
  have "getPublicKey (toy_env toy_idp 0) url ''k1'' (jw_state toy_world) =
      (Inr toy_key, (jw_state toy_world)\<lparr>sv_jwks := \<lparr>jc_keys = [''k1'' \<mapsto> toy_key], jc_fetchedAt = 0\<rparr>,
         sv_sent := [get_request url]\<rparr>)"
    using toy_fetch [of url "jw_state toy_world"] by (simp add: toy_world_def)
  then obtain w where "jc_reachable envs url toy_world w" "jw_pcs w 0 = JDone ''k1'' (Inr toy_key)"
      "sv_sent (jw_state w) = [get_request url]"
    using sequential_run [of envs, OF assms, of toy_world 0 "''k1''" url] by (auto simp: toy_world_def)
  then show ?thesis by blast
qed

lemma concurrent_keys_published_witness: "published (\<lambda>E. E = toy_env toy_idp 0) ''u'' ''k1'' toy_key"
proof -
  obtain w where w: "jc_reachable (\<lambda>E. E = toy_env toy_idp 0) ''u'' toy_world w"
      "jw_pcs w 0 = JDone ''k1'' (Inr toy_key)"
    using toy_world_run [of "\<lambda>E. E = toy_env toy_idp 0" "''u''"] by auto
  then show ?thesis
    using concurrent_keys_published [OF w(1) _ _ w(2)] by (simp add: toy_world_def)
qed

text \<open>
  C18: goroutines that miss together cause one fetch.  While all clock readings lie within one
  lifetime of the cache and the provider's answers name the kids that are asked for, any number of
  goroutines in any interleaving send at most one request: the re-check under the write lock
  finds what the first one stored.
\<close>

theorem concurrent_one_fetch:
  assumes "jc_reachable (good_window t url kids) url w0 w"
    and "\<forall>i. \<exists>kid \<in> kids. jw_pcs w0 i = JStart kid"
  shows "sv_sent (jw_state w) = sv_sent (jw_state w0) \<or>
         sv_sent (jw_state w) = sv_sent (jw_state w0) @ [get_request url]"
proof -
  have "pc_kid (jw_pcs w0 i) \<in> kids" for i
    using assms(2) by (auto simp: pc_kid_def dest!: spec [of _ i])
  then have "one_fetch_inv t kids (sv_sent (jw_state w0)) url w0"
    by (simp add: one_fetch_inv_def)
  then show ?thesis
    using jc_reachable_one_fetch [OF assms(1)] by (auto simp: one_fetch_inv_def)
qed

lemma toy_window: "good_window 0 url {''k1''} (toy_env toy_idp 0)"
  by (simp add: good_window_def toy_idp_def toy_jwks_response jwksCacheTTL_def hour_def minute_def
      second_def)

lemma concurrent_one_fetch_witness:
  "\<exists>w. jc_reachable (good_window 0 ''u'' {''k1''}) ''u'' toy_world w \<and> length (sv_sent (jw_state w)) \<le> 1"
proof -
  obtain w where w: "jc_reachable (good_window 0 ''u'' {''k1''}) ''u'' toy_world w"
    using toy_world_run [of "good_window 0 ''u'' {''k1''}"] toy_window by blast
  then have "sv_sent (jw_state w) = [] \<or> sv_sent (jw_state w) = [get_request ''u'']"
    using concurrent_one_fetch [OF w] by (simp add: toy_world_def)
  with w show ?thesis by auto
qed

text \<open>
  C36: when a lookup asks the provider.  A kid that the cache does not hold causes a request on
  every lookup, however fresh the cache is (the fast and the slow section both miss); a kid that it
  holds causes none while the cache is fresh, whatever URL is configured, because the cache does not
  record where its keys came from.
\<close>

theorem lookup_requests:
  assumes "jc_keys (sv_jwks s) unknown = None" and "jc_keys (sv_jwks s) known = Some k"
    and "cache_fresh (e_clock E FastPath) (sv_jwks s)"
  shows "sends s (snd (getPublicKey E url unknown s)) [get_request url] \<and>
         getPublicKey E url known s = (Inr k, s)"
proof
  show "sends s (snd (getPublicKey E url unknown s)) [get_request url]"
    using assms(1)
    by (auto simp: getPublicKey_def jwks_fast_def jwks_slow_def fetchJWKS_def http_do_def Let_def
        cache_lookup_def sends_def split: sum.splits option.splits)
  show "getPublicKey E url known s = (Inr k, s)"
    using assms(2,3) by (simp add: getPublicKey_def jwks_fast_def cache_lookup_def)
qed

definition toy_cached :: server_state where
  "toy_cached = \<lparr>sv_builder = toy_builder [],
     sv_jwks = \<lparr>jc_keys = [''k1'' \<mapsto> toy_key], jc_fetchedAt = 0\<rparr>, sv_sent = []\<rparr>"

lemma lookup_requests_witness:
  "sv_sent (snd (getPublicKey (toy_env toy_idp 0) ''u'' ''k2'' toy_cached)) = [get_request ''u''] \<and>
   getPublicKey (toy_env toy_idp 0) ''u'' ''k1'' toy_cached = (Inr toy_key, toy_cached)"
  using lookup_requests [of toy_cached "''k2''" "''k1''" toy_key "toy_env toy_idp 0" "''u''"]
  by (simp add: toy_cached_def sends_def cache_fresh_def time_since_def jwksCacheTTL_def hour_def
      minute_def second_def)

section \<open>Tokens\<close>

text \<open>
  C9: \<open>validateKeycloakJWT\<close> accepts exactly the valid tokens: three parts, header with RS256 and
  a kid, a signature over the first two parts that verifies under the key the lookup returns for
  that kid, an expiry that is set and not past, and the configured issuer.
\<close>

theorem validate_accepts_iff:
  "result_ok (fst (validateKeycloakJWT E token url issuer s)) \<longleftrightarrow>
     (\<exists>kid key. fst (getPublicKey E url kid s) = Inr key \<and> token_valid E issuer kid key token)"
  by (simp add: result_ok_iff validate_Inr)

text \<open>
  The content type of a JSON error.  The middlewares set \<open>application/json\<close> and then call
  \<open>http.Error\<close>, which replaces it: the 401 and 403 answers carry a JSON body as plain text.
\<close>

theorem json_error_content_type:
  "rw_get (json_error msg n w) ''Content-Type'' = ''text/plain; charset=utf-8''"
  by (simp add: http_simps)

end
