(* ===== verification/Bundle_Spec.thy ===== *)
theory Bundle_Spec
  imports Rotation Hpke
begin

text \<open>
  The properties of the attestation side: the check that ties the OIDC token to the keys, the start
  with an honest launcher, the rotation loop in sequence and in its lock-protected steps, and the
  HPKE info string.
\<close>

section \<open>Tokens and keys\<close>

lemma token_nonces_Some:
  "token_nonces token = Some ns \<longleftrightarrow>
     (\<exists>h p s payload v.
        split_on (CHR ''.'') token = [h, p, s] \<and> b64_decode RawURLEncoding p = Inr payload \<and>
        json_unmarshal (decode_struct eat_nonce_fields) JNull payload = Inr v \<and>
        toStringSlice v = Inr ns)"
  by (auto simp: token_nonces_def split: list.splits sum.splits)

text \<open>
  C12: \<open>verifyEatNonce\<close> accepts exactly the tokens that bind the key pair: a JWT of three parts
  whose payload is base64url of a JSON object with an \<open>eat_nonce\<close> of at least two strings, the first
  the fingerprint of the binding key and the second the encoding of the HPKE key.
\<close>

theorem verify_accepts_iff:
  "result_ok (verifyEatNonce pr token k) \<longleftrightarrow>
     (\<exists>h p s payload v fp hp rest.
        split_on (CHR ''.'') token = [h, p, s] \<and> b64_decode RawURLEncoding p = Inr payload \<and>
        json_unmarshal (decode_struct eat_nonce_fields) JNull payload = Inr v \<and>
        toStringSlice v = Inr (fp # hp # rest) \<and>
        fp = ek_BindingFingerprintB64URL k \<and> hp = ek_HPKEPubB64URL k)"
proof -
  have "result_ok (verifyEatNonce pr token k) \<longleftrightarrow> token_binds token k"
    by (simp add: result_ok_iff)
  also have "\<dots> \<longleftrightarrow> (\<exists>rest. token_nonces token =
      Some (ek_BindingFingerprintB64URL k # ek_HPKEPubB64URL k # rest))"
    by (auto simp: token_binds_def split: option.splits list.splits)
  also have "\<dots> \<longleftrightarrow> (\<exists>h p s payload v fp hp rest.
        split_on (CHR ''.'') token = [h, p, s] \<and> b64_decode RawURLEncoding p = Inr payload \<and>
        json_unmarshal (decode_struct eat_nonce_fields) JNull payload = Inr v \<and>
        toStringSlice v = Inr (fp # hp # rest) \<and>
        fp = ek_BindingFingerprintB64URL k \<and> hp = ek_HPKEPubB64URL k)"
    unfolding token_nonces_Some by blast
  finally show ?thesis .
qed

text \<open>
  A token is found in both answers of the launcher.  Whether the launcher answers with the
  bare token or with the envelope \<open>{"oidc_token": "..."}\<close>, \<open>extractToken\<close> returns the token.
\<close>

theorem extract_both_forms:
  assumes "has_prefix token ''eyJ''" and "list_all is_jwt_char token"
  shows "extractToken (bytes_of token) = token \<and>
         extractToken (bytes_of (json_object [(''oidc_token'', json_string token)])) = token"
proof
  show "extractToken (bytes_of token) = token"
    using assms by (rule extract_honest)
  have "list_all is_ascii token"
    using assms(2) by (auto simp: list_all_iff is_jwt_char_def is_ascii_def)
  moreover have "utf8_fix ''oidc_token'' = ''oidc_token''"
    by (rule utf8_fix_ascii) (simp add: is_ascii_def)
  ultimately have "json_parse (json_object [(''oidc_token'', json_string token)]) =
      Some (JObj [(''oidc_token'', JStr token)])"
    using json_parse_object [of "[(''oidc_token'', json_string token, JStr token)]"]
    by (simp add: encodes_ascii)
  moreover have "token \<noteq> []"
    using assms(1) by (auto simp: has_prefix_iff)
  ultimately show "extractToken (bytes_of (json_object [(''oidc_token'', json_string token)])) = token"
    using trim_space_jwt [OF assms(2)]
    by (simp add: extractToken_def json_unmarshal_def setter_defs find_field_def envelope_fields_def)
qed

lemma extract_both_forms_witness:
  "extractToken (bytes_of (json_object [(''oidc_token'', json_string ''eyJx.y.z'')])) = ''eyJx.y.z''"
  using extract_both_forms [of "''eyJx.y.z''"] by (simp add: has_prefix_def is_jwt_char_def)

text \<open>
  With an honest launcher the start succeeds.  If the launcher answers with a token whose
  nonces are the two strings it was asked to put in, \<open>NewBuilder\<close> returns a builder with the
  generated keys and that token.
\<close>

theorem honest_start:
  assumes "keys_documented k"
    and "token = honest_token (jwt_head @ hdr) (ek_BindingFingerprintB64URL k) (ek_HPKEPubB64URL k) sig"
    and "length token < 2 ^ 20"
  shows "NewBuilder pr (Inr k) (honest_tee token) now aud =
           Inr \<lparr>bu_audience = aud, bu_keys = k, bu_oidcToken = token, bu_issuedAt = now\<rparr>"
  using assms by (rule honest_NewBuilder)

definition documented_keys :: enclave_keys where
  "documented_keys =
     \<lparr>ek_BindingSPKI = [4], ek_HPKEPriv = [1], ek_HPKEPub = [2], ek_HPKEPubBytes = [2],
      ek_BindingFingerprintB64URL = b64_encode RawURLEncoding (sha256 [4]),
      ek_HPKEPubB64URL = b64_encode RawURLEncoding [2], ek_SignNonce = Inr\<rparr>"

lemma documented: "keys_documented documented_keys"
  by (simp add: keys_documented_def documented_keys_def)

definition documented_token :: string where
  "documented_token =
     honest_token jwt_head (ek_BindingFingerprintB64URL documented_keys) (ek_HPKEPubB64URL documented_keys) []"

definition documented_builder :: builder where
  "documented_builder =
     \<lparr>bu_audience = ''aud'', bu_keys = documented_keys, bu_oidcToken = documented_token, bu_issuedAt = 0\<rparr>"

lemma documented_builder_ok: "builder_ok documented_builder"
  using honest_binds [of documented_keys jwt_head "[]"] documented
  by (simp add: builder_ok_def documented_builder_def documented_token_def keys_documented_def valid_utf8_b64)

lemma documented_token_length: "length documented_token < 2 ^ 20"
proof -
  have "length (json_string (b64_encode e bs)) = length (b64_encode e bs) + 2" for e bs
    by (simp add: json_string_plain b64_encode_plain)
  moreover have "length (json_string ''eat_nonce'') = 11"
    by (simp add: json_string_plain plain_char_def)
  ultimately have "length (nonce_claims (ek_BindingFingerprintB64URL documented_keys) (ek_HPKEPubB64URL documented_keys)) < 200"
    by (simp add: nonce_claims_def json_object_def json_pair_def json_array_def documented_keys_def
        rawurl_length del: b64_encode.simps)
  then show ?thesis
    by (simp add: documented_token_def length_honest_token jwt_head_def)
qed

lemma honest_start_witness:
  "result_ok (NewBuilder (\<lambda>_. True) (Inr documented_keys) (honest_tee documented_token) 7 ''aud'')"
  using honest_start [OF documented, of documented_token "[]" "[]" "\<lambda>_. True" 7 "''aud''"] documented_token_length
  by (simp add: documented_token_def)

section \<open>Rotation\<close>

text \<open>
  C13: after any run of the rotator, with any events, any answers of the token server and any
  results of the key generation, the builder's token binds the builder's keys.
\<close>

theorem rotation_binds:
  assumes "builder_ok b"
  shows "builder_ok (fst (snd (Start pr lt (NewRotator b cfg) evs)))"
  using assms store.run_good [of b pr "calls_of evs"] by (simp add: Start_builder NewRotator_def)

lemma rotation_binds_witness:
  "builder_ok (fst (snd (Start (\<lambda>_. True) (\<lambda>_. []) (NewRotator documented_builder DefaultConfig)
     [OidcTick (honest_tee documented_token) 5, FullTick (Inl (Lib EOF)) (honest_tee []) 6, CtxDone])))"
  using documented_builder_ok by (rule rotation_binds)

text \<open>
  C33: what failed calls leave behind.  A run of the rotator that logged no successful rotation ends
  with the keys it began with, and one that logged no success at all ends with the builder it began
  with, so that it keeps serving the last good bundle, whatever the calls failed of.
\<close>

theorem rotation_keeps:
  assumes "Start pr lt (NewRotator b cfg) evs = (outcome, b', log)"
    and "''rotation: full key rotation complete'' \<notin> set log"
  shows "bu_keys b' = bu_keys b \<and> (''rotation: OIDC token refreshed'' \<in> set log \<or> b' = b)"
  using assms rot_loop_keys [of pr lt evs b "[]"] rot_loop_unchanged [of pr lt evs b "[]"]
  by (auto simp: Start_def NewRotator_def split: if_splits)

text \<open>A refresh refused for its nonces and a failed key generation.\<close>

lemma refused_refresh:
  "\<exists>err. RefreshOIDC pr (honest_tee ''eyJ'') now documented_builder = (Inl err, documented_builder)"
proof -
  have f: "FetchOIDC pr k aud (honest_tee ''eyJ'') = Inr ''eyJ''" for k aud
    by (rule honest_fetch) (simp_all add: has_prefix_def is_jwt_char_def)
  have nb: "\<not> token_binds ''eyJ'' k" for k
    by (simp add: token_binds_def token_nonces_def)
  then have "\<exists>err. verifyEatNonce pr ''eyJ'' k = Inl err" for k
    using verify_Inr [of pr "''eyJ''" k] by (metis sum.exhaust)
  then show ?thesis
    using f nb by (auto simp: RefreshOIDC_def refresh_fetch_def Let_def split: sum.splits)
qed

lemma rotation_keeps_witness:
  "fst (snd (Start (\<lambda>_. True) (\<lambda>_. []) (NewRotator documented_builder DefaultConfig)
     [OidcTick (honest_tee ''eyJ'') 5, FullTick (Inl (Lib EOF)) (honest_tee []) 6])) = documented_builder"
proof -
  let ?run = "Start (\<lambda>_. True) (\<lambda>_. []) (NewRotator documented_builder DefaultConfig)
     [OidcTick (honest_tee ''eyJ'') 5, FullTick (Inl (Lib EOF)) (honest_tee []) 6]"
  obtain err where "RefreshOIDC (\<lambda>_. True) (honest_tee ''eyJ'') 5 documented_builder = (Inl err, documented_builder)"
    using refused_refresh by blast
  then have "''rotation: full key rotation complete'' \<notin> set (snd (snd ?run))"
    "''rotation: OIDC token refreshed'' \<notin> set (snd (snd ?run))"
    by (simp_all add: Start_def NewRotator_def DefaultConfig_def minute_def hour_def second_def
        FullRotate_def rotate_fetch_def)
  then show ?thesis
    using rotation_keeps [of "\<lambda>_. True" "\<lambda>_. []" documented_builder DefaultConfig
        "[OidcTick (honest_tee ''eyJ'') 5, FullTick (Inl (Lib EOF)) (honest_tee []) 6]"]
    by (metis prod.collapse)
qed

text \<open>
  With the one rotation goroutine that \<open>main\<close> starts, handlers that build bundles between
  any two of its lock-protected steps only ever serve bundles whose token binds the keys they were
  built from.
\<close>

theorem single_rotator_serves_bound:
  assumes "rot_reachable pr {g} b w" and "builder_ok b" and "(ab, k) \<in> set (rw_served w)"
  shows "token_binds (ab_OIDCToken ab) k"
  using rot_reachable_inv [OF assms(1,2)] assms(3) by (auto simp: rot_inv_def)

lemma single_rotator_witness:
  "token_binds documented_token documented_keys"
proof -
  obtain ab where ab: "Build documented_builder [1] = Inr ab" "ab_OIDCToken ab = documented_token"
    by (auto simp: Build_def documented_builder_def documented_keys_def)
  have "rot_reachable (\<lambda>_. True) {0} documented_builder (rot_init documented_builder)"
    by (rule rot_reachable.rot_start)
  moreover have "rot_step (\<lambda>_. True) {0} (rot_init documented_builder)
      ((rot_init documented_builder)\<lparr>rw_served := [(ab, documented_keys)]\<rparr>)"
    using rot_step.serve [of "rot_init documented_builder" "[1]" ab "\<lambda>_. True" "{0}"] ab(1)
    by (simp add: rot_init_def documented_builder_def)
  ultimately have "rot_reachable (\<lambda>_. True) {0} documented_builder
      ((rot_init documented_builder)\<lparr>rw_served := [(ab, documented_keys)]\<rparr>)"
    by (rule rot_reachable.rot_next)
  from single_rotator_serves_bound [OF this documented_builder_ok, of ab documented_keys]
  show ?thesis
    by (simp add: ab(2))
qed

text \<open>
  C37: the refresh relies on that single goroutine.  With two, a refresh that read the keys before
  a rotation stores its token after it, and the builder serves a token for keys that are gone:
  \<open>RefreshOIDC\<close> does not compare the keys again when it takes the write lock.
\<close>

theorem two_rotators_break_binding:
  "\<exists>w. rot_reachable pr {0, 1} race_builder w \<and> builder_ok race_builder \<and> \<not> builder_ok (rw_builder w)"
  using two_rotators_race race_binds [of "''old''" "''old''"] race_valid
  by (simp add: builder_ok_def race_builder_def)

section \<open>The HPKE context\<close>

text \<open>
  \<open>ContextInfo\<close> is the prefix \<open>ratls-cs-v1|\<close> followed by the SHA-256 digests of the enclave's
  and the browser's public key, 76 bytes in all, and equal contexts mean equal digests in this
  order.
\<close>

theorem context_info_layout:
  "ContextInfo e b = bytes_of ''ratls-cs-v1|'' @ sha256 e @ sha256 b \<and> length (ContextInfo e b) = 76 \<and>
   (ContextInfo e b = ContextInfo e' b' \<longleftrightarrow> sha256 e = sha256 e' \<and> sha256 b = sha256 b')"
  by (simp add: ContextInfo_inject length_ContextInfo) (simp add: ContextInfo_append hpke_prefix_def)

end
