(* ===== verification/Server_Spec.thy ===== *)
theory Server_Spec
  imports Server Client Auth_Spec Bundle_Spec
begin

text \<open>
  What the composed handler guarantees: no endpoint runs without a valid token, the exemptions
  open no way around the check, the queue needs its role, requests stay inside the machine, and
  the attestation endpoint serves bundles that the browser's check accepts.
\<close>

section \<open>The gate\<close>

lemma Handler_on:
  "ac_JWKSUrl auth \<noteq> [] \<Longrightarrow>
   Handler E auth = keycloakAuthMiddleware E (ac_JWKSUrl auth) (ac_Issuer auth) (corsMiddleware (server_mux E))"
  by (simp add: Handler_def)

lemma Handler_pass:
  assumes "ac_JWKSUrl auth \<noteq> []" and "\<not> auth_exempt r"
    and "auth_passes E (ac_JWKSUrl auth) (ac_Issuer auth) r (w, s)"
  shows "Handler E auth r (w, s) =
     server_mux E r (cors_headers w,
       snd (validateKeycloakJWT E (bearer_token r) (ac_JWKSUrl auth) (ac_Issuer auth) s))"
proof -
  have "rq_method r \<noteq> ''OPTIONS''"
    using assms(2) by (simp add: auth_exempt_def)
  then have "cors_passes r ws" for ws
    by (simp add: cors_passes_def)
  with stack.stack_pass [of E "ac_JWKSUrl auth" "ac_Issuer auth" r "(w, s)" "server_mux E", OF assms(3)]
  show ?thesis
    using assms(1,2) by (simp add: Handler_on auth_enter_def cors_enter_def)
qed

lemma Handler_deny:
  assumes "ac_JWKSUrl auth \<noteq> []"
    and "\<not> auth_passes E (ac_JWKSUrl auth) (ac_Issuer auth) r (w, s)"
  shows "Handler E auth r (w, s) = auth_deny E (ac_JWKSUrl auth) (ac_Issuer auth) r (w, s)"
  using stack.stack_deny_outer [OF assms(2)] assms(1) by (simp add: Handler_on)

lemma auth_deny_effect:
  "auth_deny E url issuer r (new_writer, s) = (w', s') \<Longrightarrow>
     rw_status w' = Some 401 \<and> (sends s s' [] \<or> sends s s' [get_request url])"
  using validate_sends [of s E "bearer_token r" url issuer]
  by (auto simp: auth_deny_def http_simps new_writer_def split: if_splits)

lemma auth_passes_valid:
  "\<not> auth_exempt r \<Longrightarrow> auth_passes E url issuer r (w, s) \<longleftrightarrow>
     has_prefix (rq_get r ''Authorization'') ''Bearer '' \<and>
     (\<exists>kid key. fst (getPublicKey E url kid s) = Inr key \<and> token_valid E issuer kid key (bearer_token r))"
  by (auto simp: auth_passes_def result_ok_iff validate_Inr)

section \<open>The exemptions\<close>

lemma cleanPath_rooted: "\<exists>t. cleanPath p = slash # t"
  by (simp add: cleanPath_def path_clean_def Let_def)

lemma healthz_route:
  assumes "mux_find server_routes r = Run ep bs" and "pct_decode (rq_escaped r) = Some ''/healthz''"
  shows "ep = Healthz"
proof (rule ccontr)
  assume ne: "ep \<noteq> Healthz"
  obtain rt where rt: "rt \<in> set server_routes" "rt_endpoint rt = ep"
      "rt_method rt = rq_method r \<or> rt_method rt = ''GET'' \<and> rq_method r = ''HEAD''"
      "match_segs (rt_pattern rt) (path_segments (rq_escaped r)) = Some bs"
    using mux_find_Run [OF assms(1)] by blast
  then obtain ps where "rt_pattern rt = Lit ''v1'' # ps"
    using ne by (auto simp: server_routes_def)
  then have segs: "path_segments (rq_escaped r) \<noteq> []" "hd (path_segments (rq_escaped r)) = ''v1''"
    using rt(4) by (cases "path_segments (rq_escaped r)"; auto split: if_splits)+
  have "rq_method r \<noteq> ''CONNECT''"
    using rt(1,3) by (auto simp: server_routes_def)
  then have "cleanPath (rq_escaped r) = rq_escaped r"
    using assms(1) by (auto simp: mux_find_def Let_def split: if_splits)
  then obtain p where p: "rq_escaped r = slash # p"
    using cleanPath_rooted by metis
  then have v1: "fst (first_segment (slash # p)) = ''v1''"
    using segs by (simp add: path_segments.simps [of "slash # p"])
  moreover have "p \<noteq> []"
    using v1 by (auto simp: first_segment_def)
  ultimately show False
    using first_segment_prefix [of p "''/healthz''"] assms(2) p by simp
qed

lemma exempt_state:
  assumes "pct_decode (rq_escaped r) = Some (rq_path r)" and "auth_exempt r"
  shows "snd (Handler E auth r (w, s)) = s"
proof -
  have "Handler E auth r (w, s) = corsMiddleware (server_mux E) r (w, s)"
    using assms(2) by (auto simp: Handler_def keycloakAuthMiddleware_def auth_exempt_def)
  moreover have "snd (corsMiddleware (server_mux E) r (w, s)) = s"
  proof (cases "rq_method r = ''OPTIONS''")
    case True
    then show ?thesis by (simp add: corsMiddleware_def Let_def)
  next
    case False
    then have "pct_decode (rq_escaped r) = Some ''/healthz''"
      using assms by (simp add: auth_exempt_def)
    then show ?thesis
      using False healthz_route [of r]
      by (auto simp: corsMiddleware_def Let_def server_mux_def serve_mux_def split: mux_result.split)
  qed
  ultimately show ?thesis by simp
qed

section \<open>What leaves the machine\<close>

lemma Handler_sends:
  assumes "Handler E auth r (w, s) = (w', s')"
  shows "\<exists>rqs. sv_sent s' = sv_sent s @ rqs \<and> sv_builder s' = sv_builder s \<and> length rqs \<le> 2 \<and>
     (\<forall>rq \<in> set rqs. local_request rq \<or> ac_JWKSUrl auth \<noteq> [] \<and> rq = get_request (ac_JWKSUrl auth))"
proof -
  have eff: "endpoint_effect t (snd (corsMiddleware (server_mux E) r (v, t)))" for v t
    using cors_effect [of "server_mux E" r "(v, t)"] server_mux_effect by simp
  have one: "\<exists>rqs. sv_sent t' = sv_sent t @ rqs \<and> sv_builder t' = sv_builder t \<and> length rqs \<le> 1 \<and>
      (\<forall>rq \<in> set rqs. local_request rq)" if "endpoint_effect t t'" for t t'
  proof -
    from that consider "t' = t" | rq where "local_request rq" "t' = t\<lparr>sv_sent := sv_sent t @ [rq]\<rparr>"
      by (auto simp: endpoint_effect_def)
    then show ?thesis
      by cases (auto intro: exI [of _ "[]"] exI [of _ "[_]"])
  qed
  show ?thesis
  proof (cases "ac_JWKSUrl auth = []")
    case True
    then have "endpoint_effect s s'"
      using eff [of s w] assms by (simp add: Handler_def)
    with one show ?thesis by fastforce
  next
    case False
    define url where "url = ac_JWKSUrl auth"
    obtain t where t: "sends s t [] \<or> sends s t [get_request url]"
        "s' = t \<or> endpoint_effect t s'"
    proof (cases "auth_passes E url (ac_Issuer auth) r (w, s)")
      case True
      let ?t = "snd (auth_enter E url (ac_Issuer auth) r (w, s))"
      have "sends s ?t [] \<or> sends s ?t [get_request url]"
        using validate_sends by (auto simp: auth_enter_def)
      moreover have "Handler E auth r (w, s) = corsMiddleware (server_mux E) r (w, ?t)"
        using False auth.pass [OF True, of "corsMiddleware (server_mux E)"]
        by (simp add: Handler_on url_def auth_enter_def)
      then have "endpoint_effect ?t s'"
        using eff [of ?t w] assms by (metis snd_conv)
      ultimately show thesis by (blast intro: that)
    next
      case blocked: False
      have "s' = snd (auth_deny E url (ac_Issuer auth) r (w, s))"
        using Handler_deny [OF False] blocked assms by (simp add: url_def)
      then have "sends s s' [] \<or> sends s s' [get_request url]"
        using validate_sends by (auto simp: auth_deny_def)
      then show thesis by (blast intro: that)
    qed
    have "\<exists>rqs. sv_sent s' = sv_sent t @ rqs \<and> sv_builder s' = sv_builder t \<and> length rqs \<le> 1 \<and>
        (\<forall>rq \<in> set rqs. local_request rq)"
      using t(2) one by (metis endpoint_effect_refl)
    then obtain rqs where "sv_sent s' = sv_sent t @ rqs" "sv_builder s' = sv_builder t"
        "length rqs \<le> 1" "\<forall>rq \<in> set rqs. local_request rq"
      by blast
    note rqs = this
    from t(1) show ?thesis
    proof
      assume "sends s t []"
      with rqs False show ?thesis
        by (intro exI [of _ rqs]) (auto simp: sends_def)
    next
      assume "sends s t [get_request url]"
      with rqs False show ?thesis
        by (intro exI [of _ "get_request url # rqs"]) (auto simp: sends_def url_def)
    qed
  qed
qed

section \<open>Attestation\<close>

lemma HandleAttest_served:
  assumes "rq_get r ''X-RATLS-Nonce'' = b64_encode RawURLEncoding nonce" and "length nonce = 32"
    and "Build (sv_builder s) nonce = Inr ab"
  shows "HandleAttest r (w, s) =
    (w_write (AttestBundle_json ab @ [CHR 0x0A])
       (w_set ''Cache-Control'' ''no-store'' (w_set ''Content-Type'' ''application/json'' w)), s)"
proof -
  have "b64_encode RawURLEncoding nonce \<noteq> []"
    using assms(2) rawurl_length [of nonce] by auto
  then show ?thesis
    using assms by (simp add: HandleAttest_def rawurl.dec_enc)
qed

section \<open>Uploads\<close>

lemma handle_upload_sends:
  assumes "handle_upload E jobID kind r (w, s) = (w', s')" and "sv_sent s' \<noteq> sv_sent s"
  obtains out where
    "decryptChunkedUpload E (sv_builder s) (rq_body r) (rq_get r ''X-RATLS-Browser-HPKE'') = Inr out"
    "s' = s\<lparr>sv_sent := sv_sent s @
             [upload_put (bufferManagerURL @ ''/buffer/jobs/'' @ jobID @ ''/'' @ kind) out]\<rparr>"
  using assms
  by (fastforce simp: handle_upload_def proxyPlaintextUpload_def http_do_def Let_def
      split: sum.splits if_splits)

lemma upload_route:
  assumes "mux_find server_routes r = Run ep bs" and "rq_method r = ''PUT''"
  shows "\<exists>kind \<in> {''model'', ''weights'', ''preprocessing''}. \<exists>job.
    match_segs [Lit ''v1'', Lit ''upload'', Wild ''job_id'', Lit kind] (path_segments (rq_escaped r)) =
      Some [(''job_id'', job)] \<and>
    run_endpoint E ep bs = handle_upload E job kind"
proof -
  obtain rt where "rt \<in> set server_routes" "rt_endpoint rt = ep" "rt_method rt = ''PUT''"
      "match_segs (rt_pattern rt) (path_segments (rq_escaped r)) = Some bs"
    using mux_find_Run [OF assms(1)] assms(2) by auto
  then show ?thesis
    by (auto simp: server_routes_def match_segs_Some HandleUploadModel_def HandleUploadWeights_def
        HandleUploadPreprocessing_def path_value_def)
qed

section \<open>Requests for witnesses\<close>

definition plain_request :: "string \<Rightarrow> string \<Rightarrow> header \<Rightarrow> http_request" where
  "plain_request m p h =
     \<lparr>rq_method = m, rq_path = p, rq_escaped = p, rq_header = h,
      rq_body = \<lparr>st_data = [], st_end = EOF\<rparr>\<rparr>"

lemma plain_request_simps [simp]:
  "rq_method (plain_request m p h) = m" "rq_path (plain_request m p h) = p"
  "rq_escaped (plain_request m p h) = p" "rq_header (plain_request m p h) = h"
  by (simp_all add: plain_request_def)

lemmas route_eval =
  mux_find_def mux_match_def server_routes_def path_segments.simps first_segment_def
  path_unescape_def slash_def cleanPath_def path_clean_def Let_def is_hex_def is_digit_def
  hex_digit_val_def allowed_methods_def

definition bearer :: "string \<Rightarrow> header" where
  "bearer token = header_set ''Authorization'' (''Bearer '' @ token) []"

lemma bearer_simps [simp]:
  "rq_get (plain_request m p (bearer token)) ''Authorization'' = ''Bearer '' @ token"
  "bearer_token (plain_request m p (bearer token)) = token"
  by (simp_all add: rq_get_def bearer_def header_get_set bearer_token_def trim_prefix_def has_prefix_def)

section \<open>The properties\<close>

text \<open>
  C1: no endpoint runs without a valid token.  With authentication configured, a request that
  is neither a preflight nor the health check is either answered with 401, having caused at most
  one request for the provider's keys, or its token is valid under a key that the provider published
  for its kid, and the answer is that of the multiplexer.
\<close>

theorem auth_gate:
  assumes "ac_JWKSUrl auth \<noteq> []" and "rq_method r \<noteq> ''OPTIONS''" and "rq_path r \<noteq> ''/healthz''"
    and "envs E" and "cache_published envs (ac_JWKSUrl auth) s"
    and "Handler E auth r (new_writer, s) = (w', s')"
  shows "(rw_status w' = Some 401 \<and> (sends s s' [] \<or> sends s s' [get_request (ac_JWKSUrl auth)])) \<or>
    (\<exists>kid key s1. published envs (ac_JWKSUrl auth) kid key \<and>
       token_valid E (ac_Issuer auth) kid key (bearer_token r) \<and>
       (sends s s1 [] \<or> sends s s1 [get_request (ac_JWKSUrl auth)]) \<and>
       server_mux E r (cors_headers new_writer, s1) = (w', s'))"
proof (cases "auth_passes E (ac_JWKSUrl auth) (ac_Issuer auth) r (new_writer, s)")
  case False
  then have "auth_deny E (ac_JWKSUrl auth) (ac_Issuer auth) r (new_writer, s) = (w', s')"
    using Handler_deny [OF assms(1)] assms(6) by simp
  then show ?thesis
    using auth_deny_effect by blast
next
  case True
  have ex: "\<not> auth_exempt r"
    using assms(2,3) by (simp add: auth_exempt_def)
  obtain kid key where k: "fst (getPublicKey E (ac_JWKSUrl auth) kid s) = Inr key"
      "token_valid E (ac_Issuer auth) kid key (bearer_token r)"
    using True auth_passes_valid [OF ex] by blast
  obtain s2 where "getPublicKey E (ac_JWKSUrl auth) kid s = (Inr key, s2)"
    using k(1) by (metis prod.collapse)
  then have "published envs (ac_JWKSUrl auth) kid key"
    using getPublicKey_published assms(4,5) by blast
  moreover have "sends s (snd (validateKeycloakJWT E (bearer_token r) (ac_JWKSUrl auth) (ac_Issuer auth) s)) [] \<or>
      sends s (snd (validateKeycloakJWT E (bearer_token r) (ac_JWKSUrl auth) (ac_Issuer auth) s))
        [get_request (ac_JWKSUrl auth)]"
    by (rule validate_sends)
  ultimately show ?thesis
    using Handler_pass [OF assms(1) ex True] assms(6) k(2) by (metis (no_types, lifting))
qed

lemma auth_gate_witness:
  "rw_status (fst (Handler (toy_env toy_idp 0) toy_auth (plain_request ''GET'' ''/v1/queue'' [])
     (new_writer, toy_state))) = Some 401"
proof -
  obtain w' s' where h: "Handler (toy_env toy_idp 0) toy_auth (plain_request ''GET'' ''/v1/queue'' [])
      (new_writer, toy_state) = (w', s')"
    by fastforce
  have "\<not> token_valid E issuer kid key (bearer_token (plain_request ''GET'' ''/v1/queue'' []))" for E issuer kid key
    by (simp add: token_valid_def bearer_token_def rq_get_def header_get_def trim_prefix_def has_prefix_def)
  moreover have "cache_published (\<lambda>_. True) url toy_state" for url
    by (simp add: cache_published_def toy_state_def empty_cache_def)
  ultimately show ?thesis
    using auth_gate [OF _ _ _ _ _ h, of "\<lambda>_. True"] h by (simp add: toy_auth_def)
qed

text \<open>
  A valid token is let through.  With authentication configured, a request with a valid
  bearer token gets exactly the answer of the multiplexer, with the CORS headers set.
\<close>

theorem valid_token_passes:
  assumes "ac_JWKSUrl auth \<noteq> []" and "rq_method r \<noteq> ''OPTIONS''" and "rq_path r \<noteq> ''/healthz''"
    and "has_prefix (rq_get r ''Authorization'') ''Bearer ''"
    and "fst (getPublicKey E (ac_JWKSUrl auth) kid s) = Inr key"
    and "token_valid E (ac_Issuer auth) kid key (bearer_token r)"
  shows "Handler E auth r (w, s) = server_mux E r (cors_headers w,
           snd (validateKeycloakJWT E (bearer_token r) (ac_JWKSUrl auth) (ac_Issuer auth) s))"
proof -
  have "\<not> auth_exempt r"
    using assms(2,3) by (simp add: auth_exempt_def)
  then show ?thesis
    using auth_passes_valid assms by (intro Handler_pass) blast+
qed

lemma valid_token_passes_witness:
  "\<exists>s'. Handler (toy_env toy_idp 0) toy_auth (plain_request ''GET'' ''/v1/queue'' (bearer toy_token))
     (new_writer, toy_state) =
   server_mux (toy_env toy_idp 0) (plain_request ''GET'' ''/v1/queue'' (bearer toy_token))
     (cors_headers new_writer, s')"
proof -
  have "fst (getPublicKey (toy_env toy_idp 0) (ac_JWKSUrl toy_auth) ''k1'' toy_state) = Inr toy_key"
    using toy_fetch [of "ac_JWKSUrl toy_auth" toy_state] by (simp add: toy_state_def)
  moreover have "token_valid (toy_env toy_idp 0) (ac_Issuer toy_auth) ''k1'' toy_key toy_token"
    using toy_token_valid [of 0] by (simp add: toy_auth_def unix_seconds_def)
  ultimately show ?thesis
    using valid_token_passes [of toy_auth "plain_request ''GET'' ''/v1/queue'' (bearer toy_token)"
        "toy_env toy_idp 0" "''k1''" toy_state toy_key new_writer]
    by (auto simp: toy_auth_def has_prefix_def)
qed

text \<open>What a PUT may cause behind the gate.\<close>

lemma mux_upload_forwards:
  assumes "gcm_documented E seal" and "rq_method r = ''PUT''"
    and "server_mux E r (w, s) = (w', s')" and "sv_sent s' \<noteq> sv_sent s"
  shows "\<exists>kind job pub out. kind \<in> {''model'', ''weights'', ''preprocessing''} \<and>
    match_segs [Lit ''v1'', Lit ''upload'', Wild ''job_id'', Lit kind] (path_segments (rq_escaped r)) =
      Some [(''job_id'', job)] \<and>
    b64_decode RawURLEncoding (rq_get r ''X-RATLS-Browser-HPKE'') = Inr pub \<and> length pub = 32 \<and>
    valid_upload E seal (sv_builder s) pub (st_data (rq_body r)) out \<and>
    s' = s\<lparr>sv_sent := sv_sent s @
             [upload_put (bufferManagerURL @ ''/buffer/jobs/'' @ job @ ''/'' @ kind) out]\<rparr>"
proof -
  obtain ep bs where f: "mux_find server_routes r = Run ep bs"
    using serve_mux_state [of server_routes r E "run_endpoint E" "(w, s)"] assms(3,4)
    by (auto simp: server_mux_def)
  obtain kind job where k: "kind \<in> {''model'', ''weights'', ''preprocessing''}"
      "match_segs [Lit ''v1'', Lit ''upload'', Wild ''job_id'', Lit kind] (path_segments (rq_escaped r)) =
         Some [(''job_id'', job)]"
      "run_endpoint E ep bs = handle_upload E job kind"
    using upload_route [OF f assms(2), of E] by blast
  have "handle_upload E job kind r (w, s) = (w', s')"
    using assms(3) f k(3) by (simp add: server_mux_def serve_mux_def)
  then obtain out where o:
      "decryptChunkedUpload E (sv_builder s) (rq_body r) (rq_get r ''X-RATLS-Browser-HPKE'') = Inr out"
      "s' = s\<lparr>sv_sent := sv_sent s @
              [upload_put (bufferManagerURL @ ''/buffer/jobs/'' @ job @ ''/'' @ kind) out]\<rparr>"
    using assms(4) by (rule handle_upload_sends)
  obtain pub where p: "b64_decode RawURLEncoding (rq_get r ''X-RATLS-Browser-HPKE'') = Inr pub" "length pub = 32"
    using o(1) by (auto simp: decrypt_iff)
  have "valid_upload E seal (sv_builder s) pub (st_data (rq_body r)) out"
    using o(1) decrypt_valid_upload [OF assms(1) p] by simp
  then show ?thesis
    using k(1,2) p o(2) by blast
qed

lemma upload_gate:
  assumes "rq_method r = ''PUT''" and "pct_decode (rq_escaped r) = Some (rq_path r)"
    and "Handler E auth r (w, s) = (w', s')"
  shows "(\<exists>ks. (ks = [] \<or> ac_JWKSUrl auth \<noteq> [] \<and> ks = [get_request (ac_JWKSUrl auth)]) \<and>
        sv_sent s' = sv_sent s @ ks) \<or>
      (\<exists>ks s1. (ks = [] \<or> ac_JWKSUrl auth \<noteq> [] \<and> ks = [get_request (ac_JWKSUrl auth)]) \<and>
         sv_sent s1 = sv_sent s @ ks \<and> sv_builder s1 = sv_builder s \<and>
         (ac_JWKSUrl auth = [] \<or>
          (\<exists>kid key. token_valid E (ac_Issuer auth) kid key (bearer_token r) \<and>
             fst (getPublicKey E (ac_JWKSUrl auth) kid s) = Inr key)) \<and>
         server_mux E r (cors_headers w, s1) = (w', s'))"
    (is "?quiet \<or> ?served")
proof (cases "ac_JWKSUrl auth = []")
  case True
  then have "server_mux E r (cors_headers w, s) = (w', s')"
    using assms(1,3) by (simp add: Handler_def corsMiddleware_def)
  with True show ?thesis by (intro disjI2 exI [of _ "[]"] exI [of _ s]) simp
next
  case on: False
  let ?url = "ac_JWKSUrl auth" and ?iss = "ac_Issuer auth"
  let ?s1 = "snd (validateKeycloakJWT E (bearer_token r) ?url ?iss s)"
  have "sends s ?s1 [] \<or> sends s ?s1 [get_request ?url]"
    by (rule validate_sends)
  then obtain ks where ks: "ks = [] \<or> ks = [get_request ?url]" "sv_sent ?s1 = sv_sent s @ ks"
      "sv_builder ?s1 = sv_builder s"
    by (auto simp: sends_def)
  consider "auth_exempt r" | "\<not> auth_passes E ?url ?iss r (w, s)"
    | "\<not> auth_exempt r" "auth_passes E ?url ?iss r (w, s)"
    by blast
  then show ?thesis
  proof cases
    case 1
    then show ?thesis
      using exempt_state [OF assms(2) 1, of E auth w s] assms(3) by simp
  next
    case 2
    then have "s' = ?s1 \<or> s' = s"
      using Handler_deny [OF on 2] assms(3) by (auto simp: auth_deny_def split: if_splits)
    then show ?thesis
      using ks on by auto
  next
    case 3
    then have "server_mux E r (cors_headers w, ?s1) = (w', s')"
      using Handler_pass [OF on 3] assms(3) by simp
    moreover have "\<exists>kid key. token_valid E ?iss kid key (bearer_token r) \<and> fst (getPublicKey E ?url kid s) = Inr key"
      using 3(2) auth_passes_valid [OF 3(1)] by blast
    ultimately show ?thesis
      using ks on by (intro disjI2 exI [of _ ks] exI [of _ ?s1]) simp
  qed
qed

text \<open>
  C7: what an upload may forward.  With a cipher that opens what sealing produces and nothing
  else, a PUT request makes the server call nothing but, at most once, the configured key set URL, and
  then, only if its token is valid (where authentication is configured), its escaped path is that of
  one of the three upload routes and its body is a valid upload for this enclave and the browser key
  in the header, one PUT to the same file of the same job at the buffer manager with the decrypted file
  as its body.
\<close>

theorem upload_forwards:
  assumes "gcm_documented E seal" and "rq_method r = ''PUT''"
    and "pct_decode (rq_escaped r) = Some (rq_path r)"
    and "Handler E auth r (w, s) = (w', s')"
  shows "\<exists>ks. (ks = [] \<or> ac_JWKSUrl auth \<noteq> [] \<and> ks = [get_request (ac_JWKSUrl auth)]) \<and>
    (sv_sent s' = sv_sent s @ ks \<or>
     (\<exists>kind job pub out. kind \<in> {''model'', ''weights'', ''preprocessing''} \<and>
       (ac_JWKSUrl auth = [] \<or>
        (\<exists>kid key. token_valid E (ac_Issuer auth) kid key (bearer_token r) \<and>
           fst (getPublicKey E (ac_JWKSUrl auth) kid s) = Inr key)) \<and>
       match_segs [Lit ''v1'', Lit ''upload'', Wild ''job_id'', Lit kind] (path_segments (rq_escaped r)) =
         Some [(''job_id'', job)] \<and>
       b64_decode RawURLEncoding (rq_get r ''X-RATLS-Browser-HPKE'') = Inr pub \<and> length pub = 32 \<and>
       valid_upload E seal (sv_builder s) pub (st_data (rq_body r)) out \<and>
       sv_sent s' = sv_sent s @ ks @
         [upload_put (bufferManagerURL @ ''/buffer/jobs/'' @ job @ ''/'' @ kind) out]))"
proof -
  let ?url = "ac_JWKSUrl auth" and ?iss = "ac_Issuer auth"
  let ?valid = "?url = [] \<or> (\<exists>kid key. token_valid E ?iss kid key (bearer_token r) \<and>
      fst (getPublicKey E ?url kid s) = Inr key)"
  consider (quiet) ks where "ks = [] \<or> ?url \<noteq> [] \<and> ks = [get_request ?url]" "sv_sent s' = sv_sent s @ ks"
    | (served) ks s1 where "ks = [] \<or> ?url \<noteq> [] \<and> ks = [get_request ?url]" "sv_sent s1 = sv_sent s @ ks"
        "sv_builder s1 = sv_builder s" ?valid "server_mux E r (cors_headers w, s1) = (w', s')"
    using upload_gate [OF assms(2-4)] by blast
  then show ?thesis
  proof cases
    case quiet
    then show ?thesis by blast
  next
    case (served ks s1)
    show ?thesis
    proof (cases "sv_sent s' = sv_sent s1")
      case True
      with served(2) have "sv_sent s' = sv_sent s @ ks" by simp
      with served(1) show ?thesis by blast
    next
      case False
      obtain kind job pub out where u: "kind \<in> {''model'', ''weights'', ''preprocessing''}"
          "match_segs [Lit ''v1'', Lit ''upload'', Wild ''job_id'', Lit kind] (path_segments (rq_escaped r)) =
             Some [(''job_id'', job)]"
          "b64_decode RawURLEncoding (rq_get r ''X-RATLS-Browser-HPKE'') = Inr pub" "length pub = 32"
          "valid_upload E seal (sv_builder s1) pub (st_data (rq_body r)) out"
          "s' = s1\<lparr>sv_sent := sv_sent s1 @
             [upload_put (bufferManagerURL @ ''/buffer/jobs/'' @ job @ ''/'' @ kind) out]\<rparr>"
        using mux_upload_forwards [OF assms(1,2) served(5) False] by (elim exE conjE) (rule that)
      have sent: "sv_sent s' = sv_sent s @ ks @
          [upload_put (bufferManagerURL @ ''/buffer/jobs/'' @ job @ ''/'' @ kind) out]"
        by (simp add: u(6) served(2))
      show ?thesis
        by (rule exI [of _ ks], rule conjI [OF served(1)], rule disjI2)
          (intro exI conjI, (rule u(1) served(4) u(2) u(3) u(4) u(5) [unfolded served(3)] sent)+)
    qed
  qed
qed

definition toy_put :: http_request where
  "toy_put = (plain_request ''PUT'' ''/v1/upload/j1/weights''
     (header_set ''X-RATLS-Browser-HPKE'' (b64_encode RawURLEncoding (replicate 32 2)) []))
     \<lparr>rq_body := \<lparr>st_data = toy_body @ [9], st_end = EOF\<rparr>\<rparr>"

lemma toy_put_simps:
  "rq_method toy_put = ''PUT''" "rq_escaped toy_put = ''/v1/upload/j1/weights''"
  "rq_body toy_put = \<lparr>st_data = toy_body @ [9], st_end = EOF\<rparr>"
  "rq_get toy_put ''X-RATLS-Browser-HPKE'' = b64_encode RawURLEncoding (replicate 32 2)"
  by (simp_all add: toy_put_def rq_get_def header_get_set)

lemma upload_forwards_witness:
  "\<exists>kind job out. sv_sent (snd (Handler (toy_env toy_manager 0) \<lparr>ac_JWKSUrl = [], ac_Issuer = []\<rparr> toy_put
       (new_writer, toy_state))) = [upload_put (bufferManagerURL @ ''/buffer/jobs/'' @ job @ ''/'' @ kind) out]"
proof -
  let ?E = "toy_env toy_manager 0"
  let ?h = "Handler ?E \<lparr>ac_JWKSUrl = [], ac_Issuer = []\<rparr> toy_put (new_writer, toy_state)"
  have g: "gcm_documented ?E (\<lambda>_. toy_seal)"
    by (simp add: gcm_documented_def toy_exact)
  have "mux_find server_routes toy_put = Run UploadWeights [(''job_id'', ''j1'')]"
    by (simp add: toy_put_simps route_eval)
  moreover have "decryptChunkedUpload ?E (sv_builder toy_state) (rq_body toy_put)
      (rq_get toy_put ''X-RATLS-Browser-HPKE'') = Inr [1, 2, 3]"
    using toy_decrypts [of ?E "\<lambda>b. replicate 32 7" toy_open "[9]" EOF "[]"] toy_loop
    by (simp add: toy_put_simps toy_state_def)
  ultimately have "sv_sent (snd ?h) \<noteq> []"
    by (simp add: Handler_def corsMiddleware_def toy_put_simps server_mux_def serve_mux_def
        HandleUploadWeights_def handle_upload_def proxyPlaintextUpload_def http_do_def toy_state_def
        toy_manager_def toy_env_def Let_def)
  moreover have "pct_decode (rq_escaped toy_put) = Some (rq_path toy_put)"
    by (simp add: toy_put_def)
  moreover have "sv_sent toy_state = []"
    by (simp add: toy_state_def)
  ultimately show ?thesis
    using upload_forwards [OF g toy_put_simps(1) _ prod.collapse [symmetric],
        of "\<lparr>ac_JWKSUrl = [], ac_Issuer = []\<rparr>" new_writer toy_state]
    by auto
qed

text \<open>
  C17: the exemptions open no way around the check.  The gate looks at the decoded path and the
  multiplexer at the escaped one; whenever the two belong together, a request that the gate exempts
  (preflight, or decoded path \<open>/healthz\<close>) reaches no endpoint but the health check and changes nothing.
\<close>

theorem exempt_harmless:
  assumes "pct_decode (rq_escaped r) = Some (rq_path r)"
    and "rq_method r = ''OPTIONS'' \<or> rq_path r = ''/healthz''"
  shows "snd (Handler E auth r (w, s)) = s \<and>
    (\<forall>ep bs. rq_method r \<noteq> ''OPTIONS'' \<and> mux_find server_routes r = Run ep bs \<longrightarrow> ep = Healthz)"
  using exempt_state [of r E auth w s] healthz_route [of r] assms by (auto simp: auth_exempt_def)

lemma exempt_harmless_witness:
  "snd (Handler (toy_env toy_idp 0) toy_auth
     ((plain_request ''GET'' ''/healthz'' [])\<lparr>rq_escaped := ''/%68ealthz''\<rparr>) (new_writer, toy_state)) = toy_state"
proof -
  have "pct_decode ''/%68ealthz'' = Some ''/healthz''"
    by (simp add: is_hex_def is_digit_def hex_digit_val_def char_eq_code)
  then show ?thesis
    using exempt_harmless [of "(plain_request ''GET'' ''/healthz'' [])\<lparr>rq_escaped := ''/%68ealthz''\<rparr>"]
    by simp
qed

text \<open>
  C23: the queue needs its role.  Whether authentication is configured or not, a request that is
  routed to the queue is answered by the queue handler if its token lists the realm role
  \<open>org_admin\<close>, and with 403 and no request to the buffer manager otherwise.  Without configured
  authentication the token is not verified, so the role is whatever the caller writes, and callers
  without one do not pass through.
\<close>

theorem queue_role:
  assumes "mux_find server_routes r = Run Queue bs"
  shows "server_mux E r (w, s) =
    (if ''org_admin'' \<in> set (jwtRealmRoles (bearer_token r)) then HandleQueue E r (w, s)
     else (json_error (error_body ''forbidden'') 403 w, s)) \<and>
    (ac_JWKSUrl auth = [] \<and> rq_method r \<noteq> ''OPTIONS'' \<longrightarrow>
       Handler E auth r (w, s) = server_mux E r (cors_headers w, s))"
  using assms role.split_cases [of "''org_admin''" "HandleQueue E" r "(w, s)"]
  by (simp add: server_mux_def serve_mux_def role_passes_def role_deny_def Handler_def corsMiddleware_def)

lemma queue_route: "mux_find server_routes (plain_request ''GET'' ''/v1/queue'' h) = Run Queue []"
  by (simp add: route_eval)

lemma queue_role_witness:
  "server_mux (toy_env toy_idp 0) (plain_request ''GET'' ''/v1/queue'' []) (new_writer, toy_state) =
     (json_error (error_body ''forbidden'') 403 new_writer, toy_state)"
proof -
  have "jwtRealmRoles (bearer_token (plain_request ''GET'' ''/v1/queue'' [])) = []"
    by (simp add: bearer_token_def rq_get_def header_get_def trim_prefix_def has_prefix_def jwtRealmRoles_def)
  then show ?thesis
    using queue_role [OF queue_route, of "toy_env toy_idp 0" "[]" new_writer toy_state toy_auth] by simp
qed

text \<open>
  The attestation endpoint needs a token too.  With authentication configured, a
  \<open>GET /v1/attest\<close> without an \<open>Authorization\<close> header is answered with 401, whatever nonce it brings.
\<close>

theorem attest_needs_token:
  assumes "ac_JWKSUrl auth \<noteq> []" and "rq_method r = ''GET''" and "rq_path r = ''/v1/attest''"
    and "rq_get r ''Authorization'' = []"
  shows "Handler E auth r (w, s) =
    (json_error (error_body ''missing Authorization header'') 401 w, s)"
  using assms by (simp add: Handler_def keycloakAuthMiddleware_def has_prefix_def)

lemma attest_needs_token_witness:
  "rw_status (fst (Handler (toy_env toy_idp 0) toy_auth (plain_request ''GET'' ''/v1/attest'' [])
     (new_writer, toy_state))) = Some 401"
  using attest_needs_token [of toy_auth "plain_request ''GET'' ''/v1/attest'' []"]
  by (simp add: toy_auth_def rq_get_def header_get_def http_simps new_writer_def)

text \<open>
  C22: what a request can make the server send.  Whatever the request and the answers, the handler
  leaves the builder alone and makes at most two calls of the HTTP client: to the configured key set
  URL (only if one is configured), and to URLs that start with the buffer manager's job interface.  On
  the wire these are at most twenty requests, and each of them is one of the calls or goes to a URL that
  an answer with a redirect named, with method \<open>GET\<close> or that of its call and with the body of its call or none.
\<close>

theorem handler_requests:
  assumes "Handler E auth r (w, s) = (w', s')" and "e_net E = client_net C"
  shows "\<exists>calls. sv_sent s' = sv_sent s @ calls \<and> sv_builder s' = sv_builder s \<and> length calls \<le> 2 \<and>
     (\<forall>rq \<in> set calls. local_request rq \<or> ac_JWKSUrl auth \<noteq> [] \<and> rq = get_request (ac_JWKSUrl auth)) \<and>
     (let sent = concat (map (wire C) calls) in
      length sent \<le> 20 \<and>
      (\<forall>q \<in> set sent. (q \<in> set calls \<or> (\<exists>p \<in> set sent. named_by C p q)) \<and>
         (\<exists>rq \<in> set calls. hop_of rq q)))"
proof -
  obtain calls where c: "sv_sent s' = sv_sent s @ calls" "sv_builder s' = sv_builder s" "length calls \<le> 2"
      "\<forall>rq \<in> set calls. local_request rq \<or> ac_JWKSUrl auth \<noteq> [] \<and> rq = get_request (ac_JWKSUrl auth)"
    using Handler_sends [OF assms(1)] by blast
  have "length (concat (map (wire C) calls)) \<le> length calls * 10"
    using wire_facts(2) [of C] by (induction calls) (auto intro: add_mono)
  moreover have "(q \<in> set calls \<or> (\<exists>p \<in> set (concat (map (wire C) calls)). named_by C p q)) \<and>
      (\<exists>rq \<in> set calls. hop_of rq q)" if "q \<in> set (concat (map (wire C) calls))" for q
    using that wire_facts(3) [of q C] by fastforce
  ultimately show ?thesis
    using c by (intro exI [of _ calls]) (simp add: Let_def)
qed

text \<open>A manager that redirects a status request to another host.\<close>

definition toy_redirector :: http_client where
  "toy_redirector =
     \<lparr>cl_exchange = (\<lambda>rq. Inr (\<lparr>pr_status = (if local_request rq then 302 else 200),
          pr_body = \<lparr>st_data = [], st_end = EOF\<rparr>\<rparr>, ''http://h/'')),
      cl_resolve = (\<lambda>base loc. Inr loc), cl_referer = (\<lambda>a b. [])\<rparr>"

lemma handler_requests_witness:
  "\<exists>calls. sv_sent (snd (Handler (toy_env (client_net toy_redirector) 0) \<lparr>ac_JWKSUrl = [], ac_Issuer = []\<rparr>
       (plain_request ''GET'' ''/v1/status/j1'' []) (new_writer, toy_state))) = calls \<and>
     length (concat (map (wire toy_redirector) calls)) \<le> 20"
  using handler_requests [of "toy_env (client_net toy_redirector) 0" "\<lparr>ac_JWKSUrl = [], ac_Issuer = []\<rparr>"
      "plain_request ''GET'' ''/v1/status/j1'' []" new_writer toy_state, OF prod.collapse [symmetric]]
  by (auto simp: toy_state_def toy_env_def Let_def)

section \<open>Identifiers in paths\<close>

text \<open>A segment that the path cleaning keeps.\<close>

definition kept_segment :: "string \<Rightarrow> bool" where
  "kept_segment s \<longleftrightarrow> slash \<notin> set s \<and> s \<noteq> [] \<and> s \<noteq> ''.'' \<and> s \<noteq> ''..''"

lemma path_segments_step:
  assumes "kept_segment a"
  shows "path_segments (slash # a @ slash # p) = path_unescape a # path_segments (slash # p)"
    and "path_segments (slash # a) = [path_unescape a]"
proof -
  have a: "takeWhile (\<lambda>c. c \<noteq> slash) (a @ slash # q) = a" "dropWhile (\<lambda>c. c \<noteq> slash) (a @ slash # q) = slash # q"
      "takeWhile (\<lambda>c. c \<noteq> slash) a = a" "dropWhile (\<lambda>c. c \<noteq> slash) a = []" "a \<noteq> []" for q
    using assms by (auto simp: kept_segment_def takeWhile_append dropWhile_append)
  show "path_segments (slash # a @ slash # p) = path_unescape a # path_segments (slash # p)"
    by (subst path_segments.simps) (simp add: first_segment_def a)
  show "path_segments (slash # a) = [path_unescape a]"
    by (subst path_segments.simps) (simp add: first_segment_def a path_segments.simps [of "[]"])
qed

lemma kept_path:
  assumes "kept_segment a" and "kept_segment b" and "kept_segment c"
  shows "cleanPath (slash # a @ slash # b @ slash # c) = slash # a @ slash # b @ slash # c"
    and "path_segments (slash # a @ slash # b @ slash # c) = [path_unescape a, path_unescape b, path_unescape c]"
proof -
  have "split_on slash (slash # a @ slash # b @ slash # c) = [[], a, b, c]"
    using assms by (simp add: kept_segment_def split_on_append split_on_none)
  moreover have "last c \<noteq> slash"
    using assms(3) last_in_set [of c] unfolding kept_segment_def by metis
  ultimately show "cleanPath (slash # a @ slash # b @ slash # c) = slash # a @ slash # b @ slash # c"
    using assms by (simp add: cleanPath_def path_clean_def kept_segment_def Let_def)
  show "path_segments (slash # a @ slash # b @ slash # c) = [path_unescape a, path_unescape b, path_unescape c]"
    using assms by (simp add: path_segments_step)
qed

text \<open>The routes with one identifier at the end.\<close>

lemma identifier_route:
  assumes "kept_segment s" and "path_unescape s \<noteq> [slash]" and "rq_method r = ''GET''"
  shows "rq_escaped r = ''/v1/status/'' @ s \<Longrightarrow>
      server_mux E r ws = proxyGet E (bufferManagerURL @ ''/buffer/jobs/'' @ path_unescape s) ws"
    and "rq_escaped r = ''/v1/results/'' @ s \<Longrightarrow>
      server_mux E r ws = proxyGet E (bufferManagerURL @ ''/buffer/jobs/'' @ path_unescape s @ ''/results'') ws"
proof -
  have plain: "kept_segment ''v1''" "kept_segment ''status''" "kept_segment ''results''"
    "path_unescape ''v1'' = ''v1''" "path_unescape ''status'' = ''status''" "path_unescape ''results'' = ''results''"
    by (simp_all add: kept_segment_def slash_def path_unescape_def)
  show "server_mux E r ws = proxyGet E (bufferManagerURL @ ''/buffer/jobs/'' @ path_unescape s) ws"
    if "rq_escaped r = ''/v1/status/'' @ s"
  proof -
    have "rq_escaped r = slash # ''v1'' @ slash # ''status'' @ slash # s"
      using that by (simp add: slash_def)
    then have "cleanPath (rq_escaped r) = rq_escaped r"
        "path_segments (rq_escaped r) = [''v1'', ''status'', path_unescape s]"
      using kept_path [OF plain(1,2) assms(1)] plain by simp_all
    moreover have "rq_escaped r \<noteq> ''*''"
      using that by simp
    ultimately have "mux_find server_routes r = Run Status [(''job_id'', path_unescape s)]"
      using assms(2,3) by (simp add: mux_find_def mux_match_def server_routes_def)
    then show ?thesis
      by (simp add: server_mux_def serve_mux_def HandleStatus_def path_value_def)
  qed
  show "server_mux E r ws = proxyGet E (bufferManagerURL @ ''/buffer/jobs/'' @ path_unescape s @ ''/results'') ws"
    if "rq_escaped r = ''/v1/results/'' @ s"
  proof -
    have "rq_escaped r = slash # ''v1'' @ slash # ''results'' @ slash # s"
      using that by (simp add: slash_def)
    then have "cleanPath (rq_escaped r) = rq_escaped r"
        "path_segments (rq_escaped r) = [''v1'', ''results'', path_unescape s]"
      using kept_path [OF plain(1,3) assms(1)] plain by simp_all
    moreover have "rq_escaped r \<noteq> ''*''"
      using that by simp
    ultimately have "mux_find server_routes r = Run Results [(''job_id'', path_unescape s)]"
      using assms(2,3) by (simp add: mux_find_def mux_match_def server_routes_def)
    then show ?thesis
      by (simp add: server_mux_def serve_mux_def HandleResults_def path_value_def)
  qed
qed

text \<open>
  C40: the job id is not escaped again on its way to the buffer manager.  Take any identifier as it
  stands in a path, one segment with its escapes, for the id \<open>x\<close> (other than a lone slash).  A status
  request for that identifier with \<open>%2Fresults\<close> after it is answered exactly like a results request
  for the identifier: both call the manager at \<open>/buffer/jobs/x/results\<close>.
\<close>

theorem status_reaches_results:
  assumes "kept_segment j" and "pct_decode j = Some x" and "x \<noteq> [slash]"
    and "rq_method r = ''GET''" and "rq_escaped r = ''/v1/status/'' @ j @ ''%2Fresults''"
    and "rq_method r' = ''GET''" and "rq_escaped r' = ''/v1/results/'' @ j"
  shows "server_mux E r ws = server_mux E r' ws \<and>
    server_mux E r ws = proxyGet E (bufferManagerURL @ ''/buffer/jobs/'' @ x @ ''/results'') ws"
proof -
  have "pct_decode ''%2Fresults'' = Some ''/results''"
    by (simp add: is_hex_def is_digit_def hex_digit_val_def char_eq_code)
  then have x: "path_unescape j = x" "path_unescape (j @ ''%2Fresults'') = x @ ''/results''"
    using pct_decode_append [OF assms(2), of "''%2Fresults''"] assms(2) by (simp_all add: path_unescape_def)
  have "kept_segment (j @ ''%2Fresults'')"
    using assms(1) by (auto simp: kept_segment_def slash_def append_eq_Cons_conv)
  moreover have "path_unescape (j @ ''%2Fresults'') \<noteq> [slash]"
    by (simp add: x append_eq_Cons_conv)
  ultimately show ?thesis
    using identifier_route(1) [of "j @ ''%2Fresults''" r E ws] identifier_route(2) [of j r' E ws] assms x
    by simp
qed

lemma status_reaches_results_witness:
  "server_mux (toy_env toy_manager 0) (plain_request ''GET'' ''/v1/status/a%20b%2Fresults'' []) (new_writer, toy_state) =
     proxyGet (toy_env toy_manager 0) (bufferManagerURL @ ''/buffer/jobs/a b/results'') (new_writer, toy_state)"
proof -
  have "kept_segment ''a%20b''" "pct_decode ''a%20b'' = Some ''a b''" "''a b'' \<noteq> [slash]"
    by (simp_all add: kept_segment_def slash_def is_hex_def is_digit_def hex_digit_val_def char_eq_code)
  then show ?thesis
    using status_reaches_results [of "''a%20b''" "''a b''" "plain_request ''GET'' ''/v1/status/a%20b%2Fresults'' []"
        "plain_request ''GET'' ''/v1/results/a%20b'' []" "toy_env toy_manager 0" "(new_writer, toy_state)"]
    by (simp only: plain_request_simps append.simps simp_thms True_implies_equals) (elim conjE, rule trans [OF sym])
qed

text \<open>
  C21: an attestation request is answered with a bundle that the browser's check accepts.  If
  the token of the builder binds its keys and the keys are as documented, a request with a 32-byte
  nonce gets a 200, not to be stored, with a bundle whose token names exactly the two public
  keys in it and whose signature is the one the binding key makes over that nonce.
\<close>

theorem attest_serves_bundle:
  assumes "builder_ok (sv_builder s)" and "keys_documented (bu_keys (sv_builder s))"
    and "rq_get r ''X-RATLS-Nonce'' = b64_encode RawURLEncoding nonce" and "length nonce = 32"
    and "ek_SignNonce (bu_keys (sv_builder s)) nonce = Inr sig"
  shows "\<exists>w' ab. HandleAttest r (new_writer, s) = (w', s) \<and> rw_status w' = Some 200 \<and>
    rw_get w' ''Cache-Control'' = ''no-store'' \<and> rw_body w' = AttestBundle_json ab @ [CHR 0x0A] \<and>
    browser_binding_check ab \<and> b64_decode StdEncoding (ab_NonceSigB64 ab) = Inr sig"
proof -
  obtain ab where ab: "Build (sv_builder s) nonce = Inr ab"
      "ab_NonceSigB64 ab = b64_encode StdEncoding sig"
    using assms(5) by (auto simp: Build_def)
  have "browser_binding_check ab"
    using assms(1,2) ab(1) by (rule build_passes_browser)
  then show ?thesis
    using HandleAttest_served [OF assms(3,4) ab(1), of new_writer] ab(2)
    by (auto simp: http_simps new_writer_def canonical_key_def to_upper_def to_lower_def std.dec_enc)
qed

lemma attest_serves_bundle_witness:
  "\<exists>w' ab. HandleAttest (plain_request ''GET'' ''/v1/attest''
       (header_set ''X-RATLS-Nonce'' (b64_encode RawURLEncoding (replicate 32 9)) []))
     (new_writer, toy_state\<lparr>sv_builder := documented_builder\<rparr>) =
       (w', toy_state\<lparr>sv_builder := documented_builder\<rparr>) \<and>
     rw_status w' = Some 200 \<and> browser_binding_check ab"
proof -
  let ?r = "plain_request ''GET'' ''/v1/attest''
    (header_set ''X-RATLS-Nonce'' (b64_encode RawURLEncoding (replicate 32 9)) [])"
  have "rq_get ?r ''X-RATLS-Nonce'' = b64_encode RawURLEncoding (replicate 32 9)"
    by (simp add: rq_get_def header_get_set)
  from attest_serves_bundle [of "toy_state\<lparr>sv_builder := documented_builder\<rparr>", OF _ _ this, of "replicate 32 9"]
  show ?thesis
    using documented documented_builder_ok by (fastforce simp: documented_builder_def documented_keys_def)
qed

end
