(* ===== verification/Server_Main.thy ===== *)
theory Server_Main
  imports Server_Spec
begin

text \<open>
  \<open>enclave/cmd/buffer-tee/main.go\<close>: the start of the server, and the system it starts: handlers
  that answer requests and one goroutine that rotates keys and tokens, over one builder.
  \<open>sys_step\<close> lets whole requests, refreshes and rotations take turns in any order with any answers
  from outside.  The interleaving of their locked sections is in theory \<open>Concurrent\<close>, the listener and
  the shutdown in \<open>Lifecycle\<close>.
\<close>

section \<open>The start\<close>

definition mustEnv :: "(string \<Rightarrow> string) \<Rightarrow> string \<Rightarrow> string + string" where
  "mustEnv os key =
     (let v = os key in
      if v = [] then Inl (''required env var '' @ key @ '' is not set'') else Inr v)"

record running =
  rn_auth :: AuthConfig
  rn_rotator :: Rotator
  rn_certificate :: "string \<times> string"

definition server_main ::
  "(nat \<Rightarrow> bool) \<Rightarrow> (lib_error \<Rightarrow> string) \<Rightarrow> (string \<Rightarrow> string) \<Rightarrow> enclave_keys result \<Rightarrow> dialer \<Rightarrow> int \<Rightarrow>
   (string \<Rightarrow> string \<Rightarrow> unit result) \<Rightarrow> string + running" where
  "server_main pr lt os generated tee now loadX509KeyPair =
     (case mustEnv os ''RATLS_AUDIENCE'' of
        Inl msg \<Rightarrow> Inl msg
      | Inr audience \<Rightarrow>
     (case mustEnv os ''TLS_CERT'' of
        Inl msg \<Rightarrow> Inl msg
      | Inr certFile \<Rightarrow>
     (case mustEnv os ''TLS_KEY'' of
        Inl msg \<Rightarrow> Inl msg
      | Inr keyFile \<Rightarrow>
          (let jwksURL = os ''KEYCLOAK_JWKS_URL''; issuer = os ''KEYCLOAK_ISSUER'' in
           if jwksURL \<noteq> [] \<and> issuer = []
           then Inl ''KEYCLOAK_ISSUER must be set when KEYCLOAK_JWKS_URL is set''
           else
             (case NewBuilder pr generated tee now audience of
                Inl err \<Rightarrow> Inl (''buffer-tee: init failed: '' @ err_text lt err)
              | Inr builder \<Rightarrow>
                  (let rot = NewRotator builder DefaultConfig in
                   case loadX509KeyPair certFile keyFile of
                     Inl err \<Rightarrow> Inl (''buffer-tee: load TLS cert: '' @ err_text lt err)
                   | Inr _ \<Rightarrow>
                       Inr \<lparr>rn_auth = \<lparr>ac_JWKSUrl = jwksURL, ac_Issuer = issuer\<rparr>, rn_rotator = rot,
                            rn_certificate = (certFile, keyFile)\<rparr>))))))"

definition initial_state :: "running \<Rightarrow> server_state" where
  "initial_state run = \<lparr>sv_builder = ro_builder (rn_rotator run), sv_jwks = empty_cache, sv_sent = []\<rparr>"

section \<open>The running system\<close>

record system =
  sy_state :: server_state
  sy_replies :: "(http_request \<times> resp_writer) list"

inductive sys_step :: "(nat \<Rightarrow> bool) \<Rightarrow> (enclave_keys \<Rightarrow> bool) \<Rightarrow> AuthConfig \<Rightarrow> system \<Rightarrow> system \<Rightarrow> bool"
  for pr made auth where
  request:
    "Handler E auth r (new_writer, sy_state y) = (w, s') \<Longrightarrow>
     sys_step pr made auth y (y\<lparr>sy_state := s', sy_replies := (r, w) # sy_replies y\<rparr>)"
| refresh:
    "RefreshOIDC pr tee now (sv_builder (sy_state y)) = (res, b) \<Longrightarrow>
     sys_step pr made auth y (y\<lparr>sy_state := (sy_state y)\<lparr>sv_builder := b\<rparr>\<rparr>)"
| rotate:
    "FullRotate pr gen tee now (sv_builder (sy_state y)) = (res, b) \<Longrightarrow> (\<And>k. gen = Inr k \<Longrightarrow> made k) \<Longrightarrow>
     sys_step pr made auth y (y\<lparr>sy_state := (sy_state y)\<lparr>sv_builder := b\<rparr>\<rparr>)"

inductive sys_reachable ::
  "(nat \<Rightarrow> bool) \<Rightarrow> (enclave_keys \<Rightarrow> bool) \<Rightarrow> AuthConfig \<Rightarrow> server_state \<Rightarrow> system \<Rightarrow> bool"
  for pr made auth s where
  sys_start: "sys_reachable pr made auth s \<lparr>sy_state = s, sy_replies = []\<rparr>"
| sys_next:
    "sys_reachable pr made auth s y \<Longrightarrow> sys_step pr made auth y y' \<Longrightarrow> sys_reachable pr made auth s y'"

section \<open>What an attestation reply is\<close>

lemma HandleAttest_reply:
  assumes "HandleAttest r (w, s) = (w', s')" and "rw_status w = None" and "rw_body w = []"
    and "rw_status w' = Some 200"
  shows "\<exists>nonce ab. length nonce = 32 \<and> rq_get r ''X-RATLS-Nonce'' \<noteq> [] \<and>
    b64_decode RawURLEncoding (rq_get r ''X-RATLS-Nonce'') = Inr nonce \<and>
    Build (sv_builder s) nonce = Inr ab \<and> rw_body w' = AttestBundle_json ab @ [CHR 0x0A]"
  using assms by (auto simp: HandleAttest_def Let_def http_simps split: if_splits sum.splits)

lemma cors_writer [http_simps]:
  "rw_status (cors_headers w) = rw_status w" "rw_body (cors_headers w) = rw_body w"
  by (simp_all add: cors_headers_def http_simps)

lemma Handler_cases:
  assumes "Handler E auth r (new_writer, s) = (w', s')"
  obtains (denied) "rw_status w' = Some 401"
  | (entered) s1 where "sv_builder s1 = sv_builder s"
      "corsMiddleware (server_mux E) r (new_writer, s1) = (w', s')"
proof (cases "ac_JWKSUrl auth = []")
  case True
  then show thesis
    using assms by (intro entered [of s]) (simp_all add: Handler_def)
next
  case False
  show thesis
  proof (cases "auth_passes E (ac_JWKSUrl auth) (ac_Issuer auth) r (new_writer, s)")
    case True
    let ?s1 = "snd (auth_enter E (ac_JWKSUrl auth) (ac_Issuer auth) r (new_writer, s))"
    have "sv_builder ?s1 = sv_builder s"
      using validate_sends [of s E "bearer_token r" "ac_JWKSUrl auth" "ac_Issuer auth"]
      by (auto simp: auth_enter_def sends_def)
    moreover have "corsMiddleware (server_mux E) r (new_writer, ?s1) = (w', s')"
      using assms auth.pass [OF True, of "corsMiddleware (server_mux E)"]
      by (simp add: Handler_on [OF False] auth_enter_def)
    ultimately show thesis by (rule entered)
  next
    case blocked: False
    then show thesis
      using Handler_deny [OF False blocked] assms auth_deny_effect denied by metis
  qed
qed

lemma attest_answer:
  assumes "corsMiddleware (server_mux E) r (new_writer, s) = (w', s')"
    and "mux_find server_routes r = Run Attest bs" and "rw_status w' = Some 200"
  shows "\<exists>nonce ab. Build (sv_builder s) nonce = Inr ab \<and> rw_body w' = AttestBundle_json ab @ [CHR 0x0A]"
proof -
  have "rq_method r \<noteq> ''OPTIONS''"
    using mux_find_Run [OF assms(2)] by (auto simp: server_routes_def)
  then have "HandleAttest r (cors_headers new_writer, s) = (w', s')"
    using assms(1,2) by (simp add: corsMiddleware_def server_mux_def serve_mux_def Let_def)
  then show ?thesis
    using HandleAttest_reply [of r "cors_headers new_writer" s w' s'] assms(3)
    by (auto simp: http_simps new_writer_def)
qed

lemma attest_reply:
  assumes "Handler E auth r (new_writer, s) = (w', s')" and "mux_find server_routes r = Run Attest bs"
    and "rw_status w' = Some 200"
  shows "\<exists>nonce ab. Build (sv_builder s) nonce = Inr ab \<and> rw_body w' = AttestBundle_json ab @ [CHR 0x0A]"
  using assms(1)
proof (cases rule: Handler_cases)
  case denied
  with assms(3) show ?thesis by simp
next
  case (entered s1)
  then show ?thesis
    using attest_answer [OF entered(2) assms(2,3)] by simp
qed

section \<open>The invariant of the system\<close>

definition good_reply :: "http_request \<times> resp_writer \<Rightarrow> bool" where
  "good_reply rw \<longleftrightarrow>
     ((\<exists>bs. mux_find server_routes (fst rw) = Run Attest bs) \<and> rw_status (snd rw) = Some 200 \<longrightarrow>
      (\<exists>ab. rw_body (snd rw) = AttestBundle_json ab @ [CHR 0x0A] \<and> browser_binding_check ab))"

definition sys_inv :: "system \<Rightarrow> bool" where
  "sys_inv y \<longleftrightarrow>
     builder_ok (sv_builder (sy_state y)) \<and> keys_documented (bu_keys (sv_builder (sy_state y))) \<and>
     list_all good_reply (sy_replies y)"

lemma FullRotate_keys:
  "FullRotate pr gen tee now b = (res, b') \<Longrightarrow> bu_keys b' = bu_keys b \<or> gen = Inr (bu_keys b')"
  by (auto simp: FullRotate_def rotate_fetch_def rotate_commit_def split: sum.splits)

lemma sys_step_inv:
  assumes "sys_step pr keys_documented auth y y'" and "sys_inv y"
  shows "sys_inv y'"
  using assms
proof (induction rule: sys_step.induct)
  case (request E r y w s')
  have b: "sv_builder s' = sv_builder (sy_state y)"
    using Handler_sends [OF request(1)] by blast
  have "good_reply (r, w)"
  proof -
    have "\<exists>ab. rw_body w = AttestBundle_json ab @ [CHR 0x0A] \<and> browser_binding_check ab"
      if "mux_find server_routes r = Run Attest bs" "rw_status w = Some 200" for bs
      using attest_reply [OF request(1) that] build_passes_browser request(2) by (auto simp: sys_inv_def)
    then show ?thesis
      by (auto simp: good_reply_def)
  qed
  then show ?case
    using request(2) b by (simp add: sys_inv_def)
next
  case (refresh tee now y res b)
  then have r: "b = snd (refresh_op pr (tee, now) (sv_builder (sy_state y)))"
    by (simp add: refresh_op_def)
  show ?case
    using refresh(2) store.refresh_good store.refresh_ident unfolding r by (simp add: sys_inv_def)
next
  case (rotate gen tee now y res b)
  then have r: "b = snd (rotate_op pr (gen, tee, now) (sv_builder (sy_state y)))"
    by (simp add: rotate_op_def)
  then have "builder_ok b"
    using rotate(3) store.renew_good by (simp add: sys_inv_def)
  moreover have "keys_documented (bu_keys b)"
    using FullRotate_keys [OF rotate(1)] rotate(2,3) by (auto simp: sys_inv_def)
  ultimately show ?case
    using rotate(3) by (simp add: sys_inv_def)
qed

lemma sys_reachable_inv:
  assumes "sys_reachable pr keys_documented auth s y"
    and "builder_ok (sv_builder s)" and "keys_documented (bu_keys (sv_builder s))"
  shows "sys_inv y"
  using assms(1)
proof (induction rule: sys_reachable.induct)
  case sys_start
  with assms(2,3) show ?case by (simp add: sys_inv_def)
next
  case (sys_next y y')
  then show ?case by (blast intro: sys_step_inv)
qed

lemma server_main_Inr:
  "server_main pr lt os generated tee now load = Inr run \<longleftrightarrow>
     (\<exists>b. os ''RATLS_AUDIENCE'' \<noteq> [] \<and> os ''TLS_CERT'' \<noteq> [] \<and> os ''TLS_KEY'' \<noteq> [] \<and>
        (os ''KEYCLOAK_JWKS_URL'' \<noteq> [] \<longrightarrow> os ''KEYCLOAK_ISSUER'' \<noteq> []) \<and>
        NewBuilder pr generated tee now (os ''RATLS_AUDIENCE'') = Inr b \<and>
        result_ok (load (os ''TLS_CERT'') (os ''TLS_KEY'')) \<and>
        run = \<lparr>rn_auth = \<lparr>ac_JWKSUrl = os ''KEYCLOAK_JWKS_URL'', ac_Issuer = os ''KEYCLOAK_ISSUER''\<rparr>,
               rn_rotator = NewRotator b DefaultConfig,
               rn_certificate = (os ''TLS_CERT'', os ''TLS_KEY'')\<rparr>)"
  by (auto simp: server_main_def mustEnv_def Let_def result_ok_def split: sum.splits if_splits)

section \<open>The properties\<close>

text \<open>
  C26: what a started server has.  \<open>main\<close> gets as far as serving exactly when the audience and
  both TLS files are configured and load, an issuer comes with every key set URL, and a key pair was
  generated for which the launcher issued a token that binds it; and no start gives the
  handler another key set URL or issuer than those of the environment.  (The README of the server says that
  it also starts where the launcher's socket is missing; it does not.)
\<close>

theorem start_requirements:
  "((\<exists>run. server_main pr lt os generated tee now load = Inr run) \<longleftrightarrow>
     os ''RATLS_AUDIENCE'' \<noteq> [] \<and> os ''TLS_CERT'' \<noteq> [] \<and> os ''TLS_KEY'' \<noteq> [] \<and>
     \<not> (os ''KEYCLOAK_JWKS_URL'' \<noteq> [] \<and> os ''KEYCLOAK_ISSUER'' = []) \<and>
     result_ok (load (os ''TLS_CERT'') (os ''TLS_KEY'')) \<and>
     (\<exists>k token. generated = Inr k \<and> FetchOIDC pr k (os ''RATLS_AUDIENCE'') tee = Inr token \<and>
        token_binds token k)) \<and>
   \<not> (\<exists>run. server_main pr lt os generated tee now load = Inr run \<and>
        rn_auth run \<noteq> \<lparr>ac_JWKSUrl = os ''KEYCLOAK_JWKS_URL'', ac_Issuer = os ''KEYCLOAK_ISSUER''\<rparr>)"
  unfolding server_main_Inr NewBuilder_Inr by auto

text \<open>
  Every attestation the running system hands out passes the browser's check.  From a
  successful start, through any sequence of requests, token refreshes and key rotations with any
  answers from outside, every 200 answer on the attestation route carries a bundle whose token names
  exactly the binding key and the HPKE key in the bundle, if the key generation keeps its documented
  contract.
\<close>

theorem system_attestations:
  assumes "server_main pr lt os (Inr k) tee now load = Inr run" and "keys_documented k"
    and "sys_reachable pr keys_documented (rn_auth run) (initial_state run) y"
    and "(r, w) \<in> set (sy_replies y)" and "mux_find server_routes r = Run Attest bs"
    and "rw_status w = Some 200"
  shows "\<exists>ab. rw_body w = AttestBundle_json ab @ [CHR 0x0A] \<and> browser_binding_check ab"
proof -
  obtain b where b: "NewBuilder pr (Inr k) tee now (os ''RATLS_AUDIENCE'') = Inr b"
      "sv_builder (initial_state run) = b"
    using assms(1) unfolding server_main_Inr by (auto simp: initial_state_def NewRotator_def)
  then have "builder_ok b" "bu_keys b = k"
    by (auto simp: NewBuilder_Inr builder_ok_def)
  then have "sys_inv y"
    using sys_reachable_inv [OF assms(3)] assms(2) b(2) by simp
  then have "good_reply (r, w)"
    using assms(4) by (auto simp: sys_inv_def list_all_iff)
  then show ?thesis
    using assms(5,6) by (auto simp: good_reply_def)
qed

definition toy_config :: "string \<Rightarrow> string" where
  "toy_config key =
     (if key = ''RATLS_AUDIENCE'' then ''aud''
      else if key = ''TLS_CERT'' then ''c'' else if key = ''TLS_KEY'' then ''k'' else [])"

definition toy_running :: running where
  "toy_running =
     \<lparr>rn_auth = \<lparr>ac_JWKSUrl = [], ac_Issuer = []\<rparr>, rn_rotator = NewRotator documented_builder DefaultConfig,
      rn_certificate = (''c'', ''k'')\<rparr>"

lemma toy_server_main:
  "server_main (\<lambda>_. True) (\<lambda>_. []) toy_config (Inr documented_keys) (honest_tee documented_token) 0
     (\<lambda>_ _. Inr ()) = Inr toy_running"
proof -
  have "NewBuilder (\<lambda>_. True) (Inr documented_keys) (honest_tee documented_token) 0 ''aud'' = Inr documented_builder"
    using honest_NewBuilder [OF documented, of documented_token "[]" "[]" "\<lambda>_. True" 0 "''aud''"]
      documented_token_length
    by (simp add: documented_token_def documented_builder_def)
  then show ?thesis
    by (simp add: server_main_Inr toy_config_def toy_running_def)
qed

definition toy_attest_request :: http_request where
  "toy_attest_request = plain_request ''GET'' ''/v1/attest''
     (header_set ''X-RATLS-Nonce'' (b64_encode RawURLEncoding (replicate 32 9)) [])"

lemma toy_attest_route: "mux_find server_routes toy_attest_request = Run Attest []"
  by (simp add: toy_attest_request_def route_eval)

lemma toy_attest_reply:
  "\<exists>w. Handler E \<lparr>ac_JWKSUrl = [], ac_Issuer = []\<rparr> toy_attest_request (new_writer, initial_state toy_running) =
     (w, initial_state toy_running) \<and> rw_status w = Some 200"
proof -
  have n: "rq_get toy_attest_request ''X-RATLS-Nonce'' = b64_encode RawURLEncoding (replicate 32 9)"
    by (simp add: toy_attest_request_def rq_get_def header_get_set)
  obtain ab where "Build (sv_builder (initial_state toy_running)) (replicate 32 9) = Inr ab"
    by (auto simp: Build_def initial_state_def toy_running_def NewRotator_def documented_builder_def
        documented_keys_def)
  from HandleAttest_served [OF n _ this, of "cors_headers new_writer"] show ?thesis
    using toy_attest_route
    by (auto simp: Handler_def corsMiddleware_def server_mux_def serve_mux_def http_simps new_writer_def
        Let_def toy_attest_request_def)
qed

lemma system_attestations_witness:
  "\<exists>(w :: resp_writer) ab. rw_body w = AttestBundle_json ab @ [CHR 0x0A] \<and> browser_binding_check ab \<and>
     rw_status w = Some 200"
proof -
  let ?E = "toy_env (\<lambda>_. Inl (Lib EOF)) 0"
  let ?y = "\<lparr>sy_state = initial_state toy_running, sy_replies = []\<rparr>"
  obtain w where w: "Handler ?E (rn_auth toy_running) toy_attest_request (new_writer, sy_state ?y) =
      (w, initial_state toy_running)" "rw_status w = Some 200"
    using toy_attest_reply [of ?E] by (auto simp: toy_running_def)
  have "sys_reachable (\<lambda>_. True) keys_documented (rn_auth toy_running) (initial_state toy_running)
      (?y\<lparr>sy_state := initial_state toy_running, sy_replies := (toy_attest_request, w) # sy_replies ?y\<rparr>)"
    using sys_reachable.sys_start by (rule sys_reachable.sys_next) (rule sys_step.request [OF w(1)])
  from system_attestations [OF toy_server_main documented this _ toy_attest_route w(2)] show ?thesis
    using w(2) by auto
qed

end
