(* ===== verification/Simulation.thy ===== *)
theory Simulation
  imports Main
begin

text \<open>
  The interface between a system that works in small, lock-protected steps and the system of
  atomic operations it stands for.  The small system promises that each of its steps either does
  nothing as seen through an abstraction function or is one atomic operation; the client gets that
  every state it reaches is, seen through that function, a state the atomic system reaches, and so
  keeps every invariant of the atomic system.
\<close>

section \<open>Reachable states\<close>

inductive reaches :: "('s \<Rightarrow> 's \<Rightarrow> bool) \<Rightarrow> 's \<Rightarrow> 's \<Rightarrow> bool" for step s where
  reaches_refl [intro]: "reaches step s s"
| reaches_step [intro]: "reaches step s t \<Longrightarrow> step t u \<Longrightarrow> reaches step s u"

inductive_cases reaches_stepE: "reaches step s t"

lemma reaches_inv:
  assumes "reaches step s t" and "P s" and "\<And>t u. step t u \<Longrightarrow> P t \<Longrightarrow> P u"
  shows "P t"
  using assms by (induction rule: reaches.induct) blast+

lemma reaches_trans:
  assumes "reaches step s t" and "reaches step t u"
  shows "reaches step s u"
  using assms(2,1) by (induction rule: reaches.induct) blast+

section \<open>Invariants\<close>

locale invariant_system =
  fixes step :: "'s \<Rightarrow> 's \<Rightarrow> bool" and inv :: "'s \<Rightarrow> bool"
  assumes inv_step: "step s t \<Longrightarrow> inv s \<Longrightarrow> inv t"
begin

lemma inv_reaches: "reaches step s t \<Longrightarrow> inv s \<Longrightarrow> inv t"
  using reaches_inv [of step s t inv] inv_step by blast

end

section \<open>Refinement\<close>

locale refinement = concrete: invariant_system cstep inv
  for cstep :: "'c \<Rightarrow> 'c \<Rightarrow> bool" and inv :: "'c \<Rightarrow> bool" +
  fixes astep :: "'a \<Rightarrow> 'a \<Rightarrow> bool" and abs :: "'c \<Rightarrow> 'a"
  assumes simulates: "cstep c d \<Longrightarrow> inv c \<Longrightarrow> abs d = abs c \<or> astep (abs c) (abs d)"
begin

lemma reaches_abs: "reaches cstep c d \<Longrightarrow> inv c \<Longrightarrow> reaches astep (abs c) (abs d)"
proof (induction rule: reaches.induct)
  case reaches_refl
  show ?case by blast
next
  case (reaches_step d e)
  then have "inv d" and "reaches astep (abs c) (abs d)"
    by (blast intro: concrete.inv_reaches)+
  then show ?case
    using simulates [OF reaches_step.hyps(2)] by auto
qed

lemma transfer:
  assumes "reaches cstep c d" and "inv c" and "P (abs c)" and "\<And>a b. astep a b \<Longrightarrow> P a \<Longrightarrow> P b"
  shows "P (abs d)"
  using reaches_abs [OF assms(1,2)] assms(3,4) by (rule reaches_inv)

end

end
