(* ===== verification/Concurrent.thy ===== *)
theory Concurrent
  imports Server_Main Simulation
begin

text \<open>
  The running server with its locks.  \<open>net/http\<close> runs every request in its own goroutine, and
  \<open>main\<close> starts one for the rotator; they share the builder and the key cache.  \<open>con_step\<close> is their
  interleaving, one step per section that holds a lock: the read section and the write section of
  \<open>getPublicKey\<close>, the one place where a handler reads the builder, the read and the write section of
  \<open>RefreshOIDC\<close>, and the write section of \<open>FullRotate\<close>.

  \<open>svc_step\<close> is the service this implements: authenticating a request, answering it, refreshing and
  rotating are atomic.  The interpretation \<open>con\<close> of the locale \<open>refinement\<close> proves that.  It is not
  one atomic step per request: a key rotation and a refill of the cache may both fall between the
  two halves of a request.

  A handler reads the builder before it sends anything and reads it once, and nothing else of the
  shared state, so answering is one step; only the order of entries in \<open>sv_sent\<close> could differ.
\<close>

section \<open>The sections of the token check\<close>

text \<open>The check up to the lookup, and from the key on.\<close>

definition token_kid :: "env \<Rightarrow> string \<Rightarrow> string result" where
  "token_kid E tokenStr =
     (let parts = split_on (CHR ''.'') tokenStr in
      if length parts \<noteq> 3 then Inl (Errorf ''malformed JWT'')
      else
        (case b64_decode RawURLEncoding (parts ! 0) of
           Inl err \<Rightarrow> Inl (Wrapf ''decode JWT header'' err)
         | Inr headerBytes \<Rightarrow>
             (case parse_jwt_header headerBytes of
                Inl err \<Rightarrow> Inl (Wrapf ''parse JWT header'' err)
              | Inr header \<Rightarrow>
                  (if jh_Alg header \<noteq> ''RS256''
                   then Inl (Errorf (''unsupported algorithm '' @ go_quote (e_is_print E) (jh_Alg header)))
                   else if jh_Kid header = [] then Inl (Errorf ''missing kid in JWT header'')
                   else Inr (jh_Kid header)))))"

definition token_check :: "env \<Rightarrow> string \<Rightarrow> string \<Rightarrow> rsa_key \<Rightarrow> unit result" where
  "token_check E tokenStr issuer pubKey =
     (let parts = split_on (CHR ''.'') tokenStr;
          digest = sha256 (bytes_of (parts ! 0 @ ''.'' @ parts ! 1)) in
      case b64_decode RawURLEncoding (parts ! 2) of
        Inl err \<Rightarrow> Inl (Wrapf ''decode JWT signature'' err)
      | Inr sig \<Rightarrow>
          (if \<not> e_rsa_verify E pubKey digest sig then Inl (Errorf ''invalid JWT signature'')
           else check_claims E (parts ! 1) issuer))"

lemma validate_sections:
  "validateKeycloakJWT E token url issuer s =
     (case token_kid E token of
        Inl err \<Rightarrow> (Inl err, s)
      | Inr kid \<Rightarrow>
          (case getPublicKey E url kid s of
             (Inl err, s') \<Rightarrow> (Inl (Wrapf ''get signing key'' err), s')
           | (Inr key, s') \<Rightarrow> (token_check E token issuer key, s')))"
  by (simp add: validateKeycloakJWT_def token_kid_def token_check_def Let_def split: sum.split prod.split)

lemma token_valid_sections:
  assumes "token_valid E issuer kid key token"
  shows "token_kid E token = Inr kid \<and> token_check E token issuer key = Inr ()"
proof -
  obtain h p g hb hd sig where t: "token = h @ ''.'' @ p @ ''.'' @ g" "CHR ''.'' \<notin> set (h @ p @ g)"
      "b64_decode RawURLEncoding h = Inr hb" "parse_jwt_header hb = Inr hd"
      "jh_Alg hd = ''RS256''" "jh_Kid hd = kid" "kid \<noteq> []" "b64_decode RawURLEncoding g = Inr sig"
      "e_rsa_verify E key (sha256 (bytes_of (h @ ''.'' @ p))) sig" "check_claims E p issuer = Inr ()"
    using assms by (auto simp: token_valid_def check_claims_Inr)
  then show ?thesis
    using split_three_iff [OF t(2)] by (simp add: token_kid_def token_check_def)
qed

datatype auth_outcome = Passed | Refused resp_writer | Needs string

definition refusal :: "string \<Rightarrow> auth_outcome" where
  "refusal msg = Refused (json_error (error_body msg) 401 new_writer)"

definition auth_key :: "env \<Rightarrow> AuthConfig \<Rightarrow> http_request \<Rightarrow> rsa_key \<Rightarrow> auth_outcome" where
  "auth_key E auth r key =
     (case token_check E (bearer_token r) (ac_Issuer auth) key of
        Inl _ \<Rightarrow> refusal ''unauthorized''
      | Inr _ \<Rightarrow> Passed)"

text \<open>The first section of a request, up to the end of the read section of the cache.\<close>

definition auth_fast :: "env \<Rightarrow> AuthConfig \<Rightarrow> http_request \<Rightarrow> server_state \<Rightarrow> auth_outcome" where
  "auth_fast E auth r s =
     (if ac_JWKSUrl auth = [] \<or> auth_exempt r then Passed
      else if \<not> has_prefix (rq_get r ''Authorization'') ''Bearer ''
      then refusal ''missing Authorization header''
      else
        (case token_kid E (bearer_token r) of
           Inl _ \<Rightarrow> refusal ''unauthorized''
         | Inr kid \<Rightarrow>
             (case jwks_fast E kid s of
                Some key \<Rightarrow> auth_key E auth r key
              | None \<Rightarrow> Needs kid)))"

text \<open>The second, with the write lock, when the first missed.\<close>

definition auth_slow ::
  "env \<Rightarrow> AuthConfig \<Rightarrow> http_request \<Rightarrow> string \<Rightarrow> server_state \<Rightarrow> auth_outcome \<times> server_state" where
  "auth_slow E auth r kid s =
     (case jwks_slow E (ac_JWKSUrl auth) kid s of
        (Inl _, s') \<Rightarrow> (refusal ''unauthorized'', s')
      | (Inr key, s') \<Rightarrow> (auth_key E auth r key, s'))"

section \<open>The interleaving\<close>

datatype req_state =
    Waiting http_request
  | Missed http_request string
  | Admitted http_request
  | Denied http_request resp_writer
  | Served http_request resp_writer

record con_world =
  cw_state :: server_state
  cw_reqs :: "nat \<Rightarrow> req_state option"
  cw_rot :: rot_pc

abbreviation set_req :: "nat \<Rightarrow> req_state \<Rightarrow> con_world \<Rightarrow> con_world" where
  "set_req i q w \<equiv> w\<lparr>cw_reqs := (cw_reqs w)(i \<mapsto> q)\<rparr>"

abbreviation cw_builder :: "con_world \<Rightarrow> builder" where
  "cw_builder w \<equiv> sv_builder (cw_state w)"

text \<open>What becomes of a request whose authentication came to an end.\<close>

fun after_auth :: "http_request \<Rightarrow> auth_outcome \<Rightarrow> req_state" where
  "after_auth r Passed = Admitted r"
| "after_auth r (Refused w) = Denied r w"
| "after_auth r (Needs kid) = Missed r kid"

text \<open>
  \<open>envs\<close> are the environments a step may run in, \<open>made\<close> the key pairs the key generation may
  return.
\<close>

inductive con_step ::
  "(env \<Rightarrow> bool) \<Rightarrow> (enclave_keys \<Rightarrow> bool) \<Rightarrow> (nat \<Rightarrow> bool) \<Rightarrow> AuthConfig \<Rightarrow>
   con_world \<Rightarrow> con_world \<Rightarrow> bool"
  for envs made pr auth where
  arrive:
    "cw_reqs w i = None \<Longrightarrow> con_step envs made pr auth w (set_req i (Waiting r) w)"
| read_section:
    "envs E \<Longrightarrow> cw_reqs w i = Some (Waiting r) \<Longrightarrow>
     con_step envs made pr auth w (set_req i (after_auth r (auth_fast E auth r (cw_state w))) w)"
| write_section:
    "envs E \<Longrightarrow> cw_reqs w i = Some (Missed r kid) \<Longrightarrow>
     auth_slow E auth r kid (cw_state w) = (out, s') \<Longrightarrow>
     con_step envs made pr auth w ((set_req i (after_auth r out) w)\<lparr>cw_state := s'\<rparr>)"
| handle:
    "envs E \<Longrightarrow> cw_reqs w i = Some (Admitted r) \<Longrightarrow>
     corsMiddleware (server_mux E) r (new_writer, cw_state w) = (rw, s') \<Longrightarrow>
     con_step envs made pr auth w ((set_req i (Served r rw) w)\<lparr>cw_state := s'\<rparr>)"
| oidc_tick:
    "cw_rot w = RIdle \<Longrightarrow>
     con_step envs made pr auth w (w\<lparr>cw_rot := RFetching (refresh_snapshot (cw_builder w))\<rparr>)"
| refresh_done:
    "cw_rot w = RFetching k \<Longrightarrow> refresh_fetch pr k (bu_audience (cw_builder w)) tee = Inr token \<Longrightarrow>
     con_step envs made pr auth w
       (w\<lparr>cw_state := (cw_state w)\<lparr>sv_builder := refresh_commit token now (cw_builder w)\<rparr>,
          cw_rot := RIdle\<rparr>)"
| refresh_failed:
    "cw_rot w = RFetching k \<Longrightarrow> refresh_fetch pr k (bu_audience (cw_builder w)) tee = Inl err \<Longrightarrow>
     con_step envs made pr auth w (w\<lparr>cw_rot := RIdle\<rparr>)"
| full_tick:
    "cw_rot w = RIdle \<Longrightarrow> con_step envs made pr auth w (w\<lparr>cw_rot := RRotating\<rparr>)"
| rotate_done:
    "cw_rot w = RRotating \<Longrightarrow> made k \<Longrightarrow>
     rotate_fetch pr (Inr k) (bu_audience (cw_builder w)) tee = Inr (k', token) \<Longrightarrow>
     con_step envs made pr auth w
       (w\<lparr>cw_state := (cw_state w)\<lparr>sv_builder := rotate_commit k' token now (cw_builder w)\<rparr>,
          cw_rot := RIdle\<rparr>)"
| rotate_failed:
    "cw_rot w = RRotating \<Longrightarrow> rotate_fetch pr gen (bu_audience (cw_builder w)) tee = Inl err \<Longrightarrow>
     con_step envs made pr auth w (w\<lparr>cw_rot := RIdle\<rparr>)"

inductive_cases con_stepE: "con_step envs made pr auth w w'"

definition con_init :: "server_state \<Rightarrow> con_world" where
  "con_init s = \<lparr>cw_state = s, cw_reqs = Map.empty, cw_rot = RIdle\<rparr>"

section \<open>The service\<close>

text \<open>Authentication and the rest of the handler as two functions.\<close>

definition authenticate ::
  "env \<Rightarrow> AuthConfig \<Rightarrow> http_request \<Rightarrow> server_state \<Rightarrow> auth_outcome \<times> server_state" where
  "authenticate E auth r s =
     (if ac_JWKSUrl auth = [] \<or> auth_exempt r then (Passed, s)
      else if \<not> has_prefix (rq_get r ''Authorization'') ''Bearer ''
      then (refusal ''missing Authorization header'', s)
      else
        (case validateKeycloakJWT E (bearer_token r) (ac_JWKSUrl auth) (ac_Issuer auth) s of
           (Inl _, s') \<Rightarrow> (refusal ''unauthorized'', s')
         | (Inr _, s') \<Rightarrow> (Passed, s')))"

definition respond :: "env \<Rightarrow> http_request \<Rightarrow> server_state \<Rightarrow> resp_writer \<times> server_state" where
  "respond E r s = corsMiddleware (server_mux E) r (new_writer, s)"

lemma Handler_phases:
  "Handler E auth r (new_writer, s) =
     (case authenticate E auth r s of
        (Refused rw, s') \<Rightarrow> (rw, s')
      | (_, s') \<Rightarrow> respond E r s')"
  by (auto simp: Handler_def keycloakAuthMiddleware_def authenticate_def respond_def refusal_def
      auth_exempt_def bearer_token_def Let_def split: sum.split prod.split)

record service =
  sc_state :: server_state
  sc_reqs :: "nat \<Rightarrow> req_state option"

inductive svc_step ::
  "(env \<Rightarrow> bool) \<Rightarrow> (enclave_keys \<Rightarrow> bool) \<Rightarrow> (nat \<Rightarrow> bool) \<Rightarrow> AuthConfig \<Rightarrow> service \<Rightarrow> service \<Rightarrow> bool"
  for envs made pr auth where
  arrival:
    "sc_reqs v i = None \<Longrightarrow>
     svc_step envs made pr auth v (v\<lparr>sc_reqs := (sc_reqs v)(i \<mapsto> Waiting r)\<rparr>)"
| authentication:
    "envs E \<Longrightarrow> sc_reqs v i = Some (Waiting r) \<Longrightarrow>
     authenticate E auth r (sc_state v) = (out, s') \<Longrightarrow>
     svc_step envs made pr auth v
       \<lparr>sc_state = s', sc_reqs = (sc_reqs v)(i \<mapsto> after_auth r out)\<rparr>"
| answer:
    "envs E \<Longrightarrow> sc_reqs v i = Some (Admitted r) \<Longrightarrow> respond E r (sc_state v) = (rw, s') \<Longrightarrow>
     svc_step envs made pr auth v \<lparr>sc_state = s', sc_reqs = (sc_reqs v)(i \<mapsto> Served r rw)\<rparr>"
| refreshed:
    "RefreshOIDC pr tee now (sv_builder (sc_state v)) = (res, b) \<Longrightarrow>
     svc_step envs made pr auth v (v\<lparr>sc_state := (sc_state v)\<lparr>sv_builder := b\<rparr>\<rparr>)"
| rotated:
    "made k \<Longrightarrow> FullRotate pr (Inr k) tee now (sv_builder (sc_state v)) = (res, b) \<Longrightarrow>
     svc_step envs made pr auth v (v\<lparr>sc_state := (sc_state v)\<lparr>sv_builder := b\<rparr>\<rparr>)"

section \<open>The abstraction\<close>

text \<open>A request that missed the cache is still waiting; what the rotator is doing is not seen.\<close>

fun abs_req :: "req_state \<Rightarrow> req_state" where
  "abs_req (Missed r kid) = Waiting r"
| "abs_req q = q"

definition abs_service :: "con_world \<Rightarrow> service" where
  "abs_service w = \<lparr>sc_state = cw_state w, sc_reqs = map_option abs_req \<circ> cw_reqs w\<rparr>"

text \<open>
  A lookup that missed and then ran its second section is one lookup at the time of the second:
  with the clock of the write section its read section misses too.
\<close>

definition at_slow :: "env \<Rightarrow> env" where
  "at_slow E = E\<lparr>e_clock := (e_clock E)(FastPath := e_clock E SlowPath)\<rparr>"

lemma at_slow_simps [simp]:
  "e_net (at_slow E) = e_net E" "e_is_print (at_slow E) = e_is_print E"
  "e_rsa_verify (at_slow E) = e_rsa_verify E"
  "e_clock (at_slow E) FastPath = e_clock E SlowPath" "e_clock (at_slow E) SlowPath = e_clock E SlowPath"
  "e_clock (at_slow E) AfterFetch = e_clock E AfterFetch"
  "e_clock (at_slow E) ExpiryCheck = e_clock E ExpiryCheck"
  by (simp_all add: at_slow_def)

lemma jwks_slow_at_slow: "jwks_slow (at_slow E) url kid s = jwks_slow E url kid s"
  by (auto simp: jwks_slow_def fetchJWKS_def http_do_def Let_def split: option.split sum.split)

lemma slow_is_lookup: "getPublicKey (at_slow E) url kid s = jwks_slow E url kid s"
  unfolding getPublicKey_def jwks_slow_at_slow
  by (simp add: jwks_fast_def jwks_slow_def split: option.split)

lemma check_claims_at_slow: "check_claims (at_slow E) p issuer = check_claims E p issuer"
  by (simp add: check_claims_def split: sum.split)

lemma token_check_at_slow: "token_check (at_slow E) t issuer k = token_check E t issuer k"
  by (simp add: token_check_def Let_def check_claims_at_slow split: sum.split)

lemma token_kid_env: "token_kid E token = Inr kid \<Longrightarrow> token_kid E' token = Inr kid"
  by (auto simp: token_kid_def Let_def split: sum.splits if_splits)

text \<open>What a request that waits for the write lock has behind it.\<close>

definition lookup_due :: "AuthConfig \<Rightarrow> http_request \<Rightarrow> string \<Rightarrow> bool" where
  "lookup_due auth r kid \<longleftrightarrow>
     ac_JWKSUrl auth \<noteq> [] \<and> \<not> auth_exempt r \<and> has_prefix (rq_get r ''Authorization'') ''Bearer '' \<and>
     (\<exists>E. token_kid E (bearer_token r) = Inr kid)"

lemma fast_cases:
  obtains (missed) kid where "auth_fast E auth r s = Needs kid" "lookup_due auth r kid"
  | (settled) "authenticate E auth r s = (auth_fast E auth r s, s)" "\<forall>kid. auth_fast E auth r s \<noteq> Needs kid"
proof (cases "ac_JWKSUrl auth = [] \<or> auth_exempt r \<or> \<not> has_prefix (rq_get r ''Authorization'') ''Bearer ''")
  case True
  then show thesis
    by (intro settled) (auto simp: auth_fast_def authenticate_def refusal_def)
next
  case False
  show thesis
  proof (cases "token_kid E (bearer_token r)")
    case (Inl err)
    with False show thesis
      by (intro settled) (auto simp: auth_fast_def authenticate_def validate_sections refusal_def)
  next
    case (Inr kid)
    show thesis
    proof (cases "jwks_fast E kid s")
      case None
      with Inr False show thesis
        by (intro missed [of kid]) (auto simp: auth_fast_def lookup_due_def)
    next
      case (Some key)
      with Inr False show thesis
        by (intro settled)
          (auto simp: auth_fast_def authenticate_def validate_sections getPublicKey_def auth_key_def
            refusal_def split: sum.split)
    qed
  qed
qed

lemma slow_authenticates:
  assumes "lookup_due auth r kid"
  shows "authenticate (at_slow E) auth r s = auth_slow E auth r kid s"
proof -
  obtain E0 where "token_kid E0 (bearer_token r) = Inr kid"
    using assms by (auto simp: lookup_due_def)
  then have kid: "token_kid (at_slow E) (bearer_token r) = Inr kid"
    by (rule token_kid_env)
  with assms show ?thesis
    by (auto simp: lookup_due_def authenticate_def validate_sections slow_is_lookup auth_slow_def
        auth_key_def token_check_at_slow split: sum.split prod.split)
qed

text \<open>The atomic service runs in the same environments, up to that change of the clock.\<close>

definition slow_closure :: "(env \<Rightarrow> bool) \<Rightarrow> env \<Rightarrow> bool" where
  "slow_closure envs E \<longleftrightarrow> envs E \<or> (\<exists>E0. envs E0 \<and> E = at_slow E0)"

lemma slow_closureI: "envs E \<Longrightarrow> slow_closure envs E" "envs E \<Longrightarrow> slow_closure envs (at_slow E)"
  by (auto simp: slow_closure_def)

section \<open>The refinement\<close>

text \<open>
  What the interleaving keeps: the keys that the one rotator is fetching a token for are still
  those of the builder, and a request that missed the cache is due a lookup.
\<close>

definition con_inv :: "AuthConfig \<Rightarrow> con_world \<Rightarrow> bool" where
  "con_inv auth w \<longleftrightarrow>
     (\<forall>k. cw_rot w = RFetching k \<longrightarrow> k = bu_keys (cw_builder w)) \<and>
     (\<forall>i r kid. cw_reqs w i = Some (Missed r kid) \<longrightarrow> lookup_due auth r kid)"

lemma auth_slow_builder: "auth_slow E auth r kid s = (out, s') \<Longrightarrow> sv_builder s' = sv_builder s"
proof -
  obtain kr t where k: "jwks_slow E (ac_JWKSUrl auth) kid s = (kr, t)"
    by fastforce
  then have "sv_builder t = sv_builder s"
    by (cases rule: jwks_slow_cases) (auto simp: sends_def)
  then show "auth_slow E auth r kid s = (out, s') \<Longrightarrow> sv_builder s' = sv_builder s"
    using k by (auto simp: auth_slow_def split: sum.splits)
qed

lemma respond_builder: "respond E r s = (rw, s') \<Longrightarrow> sv_builder s' = sv_builder s"
  using cors_effect [of "server_mux E" r "(new_writer, s)"] server_mux_effect
  by (auto simp: respond_def endpoint_effect_def)

lemma after_auth_Missed: "after_auth r out = Missed r' kid \<longleftrightarrow> r' = r \<and> out = Needs kid"
  by (cases out) auto

lemma auth_slow_settles: "auth_slow E auth r kid s \<noteq> (Needs kid', s')"
  by (auto simp: auth_slow_def auth_key_def refusal_def split: sum.split prod.split)

lemma con_step_inv: "con_step envs made pr auth w w' \<Longrightarrow> con_inv auth w \<Longrightarrow> con_inv auth w'"
proof (induction rule: con_step.induct)
  case (read_section E w i r)
  then show ?case
    by (cases rule: fast_cases [of E auth r "cw_state w"]) (auto simp: con_inv_def after_auth_Missed)
next
  case (write_section E w i r kid out s')
  then show ?case
    using auth_slow_builder auth_slow_settles by (fastforce simp: con_inv_def after_auth_Missed)
next
  case (handle E w i r rw s')
  then show ?case
    using respond_builder by (auto simp: con_inv_def respond_def)
qed (auto simp: con_inv_def refresh_snapshot_def)

lemma abs_after_auth: "\<forall>kid. out \<noteq> Needs kid \<Longrightarrow> abs_req (after_auth r out) = after_auth r out"
  by (cases out) auto

lemma con_step_simulates:
  assumes "con_step envs made pr auth w w'" and "con_inv auth w"
  shows "abs_service w' = abs_service w \<or>
    svc_step (slow_closure envs) made pr auth (abs_service w) (abs_service w')"
  using assms
proof (induction rule: con_step.induct)
  case (arrive w i r)
  then have "svc_step (slow_closure envs) made pr auth (abs_service w) (abs_service (set_req i (Waiting r) w))"
    using svc_step.arrival [of "abs_service w" i "slow_closure envs" made pr auth r]
    by (simp add: abs_service_def fun_upd_comp)
  then show ?case ..
next
  case (read_section E w i r)
  show ?case
  proof (cases rule: fast_cases [of E auth r "cw_state w"])
    case (missed kid)
    then show ?thesis
      using read_section(2) by (auto simp: abs_service_def)
  next
    case settled
    then show ?thesis
      using svc_step.authentication [where envs = "slow_closure envs" and E = E and v = "abs_service w"]
        slow_closureI(1) [of envs E] read_section(1) read_section(2)
      by (simp add: abs_service_def fun_upd_comp abs_after_auth)
  qed
next
  case (write_section E w i r kid out s')
  then have "lookup_due auth r kid"
    by (auto simp: con_inv_def)
  then have "authenticate (at_slow E) auth r (cw_state w) = (out, s')"
    using slow_authenticates write_section(3) by simp
  moreover have "\<forall>kid'. out \<noteq> Needs kid'"
    using auth_slow_settles write_section(3) by metis
  ultimately show ?case
    using svc_step.authentication [where envs = "slow_closure envs" and E = "at_slow E" and v = "abs_service w"]
      write_section(2) slow_closureI(2) [of envs E] write_section(1)
    by (simp add: abs_service_def fun_upd_comp abs_after_auth)
next
  case (handle E w i r rw s')
  then show ?case
    using svc_step.answer [where envs = "slow_closure envs" and E = E and v = "abs_service w"]
      slow_closureI(1) [of envs E] handle(1)
    by (simp add: abs_service_def fun_upd_comp respond_def)
next
  case (refresh_done w k tee token now)
  then have "RefreshOIDC pr tee now (cw_builder w) = (Inr (), refresh_commit token now (cw_builder w))"
    by (auto simp: con_inv_def RefreshOIDC_def refresh_snapshot_def)
  then show ?case
    using svc_step.refreshed [of pr tee now "abs_service w"] by (simp add: abs_service_def)
next
  case (rotate_done w k tee k' token now)
  then have "FullRotate pr (Inr k) tee now (cw_builder w) = (Inr (), rotate_commit k' token now (cw_builder w))"
    by (simp add: FullRotate_def)
  then show ?case
    using svc_step.rotated [of made k pr tee now "abs_service w"] rotate_done(2)
    by (simp add: abs_service_def)
qed (simp_all add: abs_service_def)

interpretation con: refinement "con_step envs made pr auth" "con_inv auth"
    "svc_step (slow_closure envs) made pr auth" abs_service
proof unfold_locales
  show "con_inv auth w'" if "con_step envs made pr auth w w'" "con_inv auth w" for w w'
    using that by (rule con_step_inv)
  show "abs_service w' = abs_service w \<or>
      svc_step (slow_closure envs) made pr auth (abs_service w) (abs_service w')"
    if "con_step envs made pr auth w w'" "con_inv auth w" for w w'
    using that by (rule con_step_simulates)
qed

lemma con_init_inv: "con_inv auth (con_init s)"
  by (simp add: con_inv_def con_init_def)

lemma abs_con_init: "abs_service (con_init s) = \<lparr>sc_state = s, sc_reqs = Map.empty\<rparr>"
  by (auto simp: abs_service_def con_init_def)

end
