(* ===== verification/Concurrent_Spec.thy ===== *)
theory Concurrent_Spec
  imports Concurrent
begin

text \<open>
  What holds of the running server whatever way its goroutines interleave.  The invariant is proved
  of the atomic service and carried over by the refinement.
\<close>

section \<open>The invariant of the service\<close>

text \<open>Why a request may have been let in.\<close>

definition let_in :: "(env \<Rightarrow> bool) \<Rightarrow> AuthConfig \<Rightarrow> http_request \<Rightarrow> bool" where
  "let_in envs auth r \<longleftrightarrow>
     ac_JWKSUrl auth = [] \<or> auth_exempt r \<or>
     (\<exists>E kid key. envs E \<and> published envs (ac_JWKSUrl auth) kid key \<and>
        token_valid E (ac_Issuer auth) kid key (bearer_token r))"

text \<open>What an answer is: that of the multiplexer, over a builder whose token binds its keys.\<close>

definition sound_answer :: "(enclave_keys \<Rightarrow> bool) \<Rightarrow> http_request \<Rightarrow> resp_writer \<Rightarrow> bool" where
  "sound_answer made r rw \<longleftrightarrow>
     (\<exists>E s s'. builder_ok (sv_builder s) \<and> made (bu_keys (sv_builder s)) \<and> respond E r s = (rw, s'))"

fun req_ok ::
  "(env \<Rightarrow> bool) \<Rightarrow> (enclave_keys \<Rightarrow> bool) \<Rightarrow> AuthConfig \<Rightarrow> req_state \<Rightarrow> bool" where
  "req_ok envs made auth (Admitted r) = let_in envs auth r"
| "req_ok envs made auth (Served r rw) = (let_in envs auth r \<and> sound_answer made r rw)"
| "req_ok envs made auth (Denied r rw) = (rw_status rw = Some 401)"
| "req_ok envs made auth q = True"

definition svc_inv ::
  "(env \<Rightarrow> bool) \<Rightarrow> (enclave_keys \<Rightarrow> bool) \<Rightarrow> AuthConfig \<Rightarrow> service \<Rightarrow> bool" where
  "svc_inv envs made auth v \<longleftrightarrow>
     builder_ok (sv_builder (sc_state v)) \<and> made (bu_keys (sv_builder (sc_state v))) \<and>
     cache_published envs (ac_JWKSUrl auth) (sc_state v) \<and>
     keys_wf (jc_keys (sv_jwks (sc_state v))) \<and>
     (\<forall>i q. sc_reqs v i = Some q \<longrightarrow> req_ok envs made auth q)"

lemma slow_closure_Ex:
  assumes "\<And>E. P (at_slow E) = P E"
  shows "(\<exists>E. slow_closure envs E \<and> P E) \<longleftrightarrow> (\<exists>E. envs E \<and> P E)"
  using assms unfolding slow_closure_def by blast

lemma published_at_slow [simp]: "published (slow_closure envs) url kid k \<longleftrightarrow> published envs url kid k"
  unfolding published_def by (simp add: slow_closure_Ex)

lemma cache_published_at_slow [simp]:
  "cache_published (slow_closure envs) url s \<longleftrightarrow> cache_published envs url s"
  by (simp add: cache_published_def)

lemma token_valid_at_slow [simp]: "token_valid (at_slow E) issuer kid key t \<longleftrightarrow> token_valid E issuer kid key t"
  by (simp add: token_valid_def)

lemma let_in_at_slow [simp]: "let_in (slow_closure envs) auth r \<longleftrightarrow> let_in envs auth r"
  by (simp add: let_in_def slow_closure_Ex)

lemma req_ok_at_slow [simp]: "req_ok (slow_closure envs) made auth q \<longleftrightarrow> req_ok envs made auth q"
  by (cases q) simp_all

text \<open>What a validation leaves behind.\<close>

lemma validate_state:
  assumes "validateKeycloakJWT E token url issuer s = (res, s')"
    and "envs E" and "cache_published envs url s" and "keys_wf (jc_keys (sv_jwks s))"
  shows "sv_builder s' = sv_builder s \<and> cache_published envs url s' \<and> keys_wf (jc_keys (sv_jwks s'))"
proof -
  have b: "sv_builder s' = sv_builder s"
    using validate_sends [of s E token url issuer] assms(1) by (auto simp: sends_def)
  show ?thesis
  proof (cases "token_kid E token")
    case (Inl err)
    with assms show ?thesis by (simp add: validate_sections)
  next
    case (Inr kid)
    obtain kr t where k: "getPublicKey E url kid s = (kr, t)"
      by fastforce
    then have "s' = t"
      using assms(1) Inr by (auto simp: validate_sections split: sum.splits)
    then show ?thesis
      using b getPublicKey_published [OF k assms(2,3)] getPublicKey_wf [OF k assms(4)] by simp
  qed
qed

lemma authenticate_state:
  assumes "authenticate E auth r s = (out, s')"
    and "envs E" and "cache_published envs (ac_JWKSUrl auth) s" and "keys_wf (jc_keys (sv_jwks s))"
  shows "sv_builder s' = sv_builder s \<and> cache_published envs (ac_JWKSUrl auth) s' \<and>
    keys_wf (jc_keys (sv_jwks s'))"
  using assms validate_state [of E _ _ _ s _ s' envs]
  by (auto simp: authenticate_def split: if_splits sum.splits prod.splits)

lemma authenticate_ok:
  assumes "authenticate E auth r s = (out, s')"
    and "envs E" and "cache_published envs (ac_JWKSUrl auth) s"
  shows "req_ok envs made auth (after_auth r out)"
proof (cases out)
  case Passed
  have "let_in envs auth r"
  proof (cases "ac_JWKSUrl auth = [] \<or> auth_exempt r")
    case True
    then show ?thesis by (auto simp: let_in_def)
  next
    case False
    with assms(1) Passed obtain u where
        "fst (validateKeycloakJWT E (bearer_token r) (ac_JWKSUrl auth) (ac_Issuer auth) s) = Inr u"
      by (auto simp: authenticate_def refusal_def split: if_splits sum.splits prod.splits)
    then obtain kid key s'' where "getPublicKey E (ac_JWKSUrl auth) kid s = (Inr key, s'')"
        "token_valid E (ac_Issuer auth) kid key (bearer_token r)"
      unfolding validate_Inr by (metis prod.collapse)
    then show ?thesis
      using getPublicKey_published assms(2,3) unfolding let_in_def by blast
  qed
  with Passed show ?thesis by simp
next
  case (Refused rw)
  with assms(1) show ?thesis
    by (auto simp: authenticate_def refusal_def http_simps new_writer_def
        split: if_splits sum.splits prod.splits)
next
  case (Needs kid)
  then show ?thesis by simp
qed

lemma respond_state:
  "respond E r s = (rw, s') \<Longrightarrow> sv_builder s' = sv_builder s \<and> sv_jwks s' = sv_jwks s"
  using cors_effect [of "server_mux E" r "(new_writer, s)"] server_mux_effect
  by (auto simp: respond_def endpoint_effect_def)

lemma svc_step_inv:
  assumes "svc_step (slow_closure envs) made pr auth v v'" and "svc_inv envs made auth v"
  shows "svc_inv envs made auth v'"
  using assms
proof (induction rule: svc_step.induct)
  case (arrival v i r)
  then show ?case by (auto simp: svc_inv_def)
next
  case (authentication E v i r out s')
  then have "req_ok envs made auth (after_auth r out)"
    using authenticate_ok [of E auth r "sc_state v" out s' "slow_closure envs" made]
    by (simp add: svc_inv_def)
  then show ?case
    using authentication authenticate_state [of E auth r "sc_state v" out s' "slow_closure envs"]
    by (auto simp: svc_inv_def)
next
  case (answer E v i r rw s')
  then have "req_ok envs made auth (Admitted r)"
    unfolding svc_inv_def by blast
  then have "let_in envs auth r"
    by simp
  moreover have "sound_answer made r rw"
    using answer unfolding sound_answer_def svc_inv_def by blast
  ultimately show ?case
    using answer respond_state [OF answer(3)] by (auto simp: svc_inv_def cache_published_def)
next
  case (refreshed tee now v res b)
  then have r: "b = snd (refresh_op pr (tee, now) (sv_builder (sc_state v)))"
    by (simp add: refresh_op_def)
  show ?case
    using refreshed(2) store.refresh_good store.refresh_ident unfolding r
    by (simp add: svc_inv_def cache_published_def)
next
  case (rotated k tee now v res b)
  then have r: "b = snd (rotate_op pr (Inr k, tee, now) (sv_builder (sc_state v)))"
    by (simp add: rotate_op_def)
  have "made (bu_keys b)"
    using FullRotate_keys [OF rotated(2)] rotated(1,3) by (auto simp: svc_inv_def)
  then show ?case
    using rotated(3) store.renew_good unfolding r by (simp add: svc_inv_def cache_published_def)
qed

interpretation svc: invariant_system "svc_step (slow_closure envs) made pr auth" "svc_inv envs made auth"
  by unfold_locales (rule svc_step_inv)

text \<open>The invariant holds of every state of the interleaving.\<close>

lemma con_reaches_inv:
  assumes "reaches (con_step envs made pr auth) (con_init s) w"
    and "builder_ok (sv_builder s)" and "made (bu_keys (sv_builder s))" and "sv_jwks s = empty_cache"
  shows "svc_inv envs made auth (abs_service w)"
proof (rule con.transfer [OF assms(1) con_init_inv])
  show "svc_inv envs made auth (abs_service (con_init s))"
    using assms(2-4) by (simp add: svc_inv_def abs_con_init cache_published_def empty_cache_def)
qed (rule svc_step_inv)

lemma con_reaches_req:
  assumes "reaches (con_step envs made pr auth) (con_init s) w"
    and "builder_ok (sv_builder s)" and "made (bu_keys (sv_builder s))" and "sv_jwks s = empty_cache"
    and "cw_reqs w i = Some q"
  shows "req_ok envs made auth (abs_req q)"
  using con_reaches_inv [OF assms(1-4)] assms(5) by (auto simp: svc_inv_def abs_service_def)

text \<open>What a successful start provides.\<close>

lemma started_state:
  assumes "server_main pr lt os (Inr k) tee now load = Inr run" and "keys_documented k"
  shows "builder_ok (sv_builder (initial_state run))"
    and "keys_documented (bu_keys (sv_builder (initial_state run)))"
    and "sv_jwks (initial_state run) = empty_cache"
proof -
  obtain b where b: "NewBuilder pr (Inr k) tee now (os ''RATLS_AUDIENCE'') = Inr b"
      "sv_builder (initial_state run) = b"
    using assms(1) unfolding server_main_Inr by (auto simp: initial_state_def NewRotator_def)
  then show "builder_ok (sv_builder (initial_state run))"
      and "keys_documented (bu_keys (sv_builder (initial_state run)))"
    using assms(2) by (auto simp: NewBuilder_Inr builder_ok_def)
  show "sv_jwks (initial_state run) = empty_cache"
    by (simp add: initial_state_def)
qed

text \<open>The cache needs nothing of the builder.\<close>

lemma con_step_keys_wf:
  "con_step envs made pr auth w w' \<Longrightarrow> keys_wf (jc_keys (sv_jwks (cw_state w))) \<Longrightarrow>
   keys_wf (jc_keys (sv_jwks (cw_state w')))"
proof (induction rule: con_step.induct)
  case (write_section E w i r kid out s')
  then show ?case
    by (auto simp: auth_slow_def dest: jwks_slow_wf split: sum.splits prod.splits)
next
  case (handle E w i r rw s')
  then show ?case
    using respond_state [of E r "cw_state w" rw s'] by (simp add: respond_def)
qed auto

interpretation cache: invariant_system "con_step envs made pr auth"
    "\<lambda>w. keys_wf (jc_keys (sv_jwks (cw_state w)))"
  by unfold_locales (rule con_step_keys_wf)

section \<open>Runs for witnesses\<close>

lemma reaches1: "step s t \<Longrightarrow> reaches step s t"
  by blast

lemma con_run_read:
  assumes "envs E" and "auth_fast E auth r s = out"
  shows "reaches (con_step envs made pr auth) (con_init s) (set_req 0 (after_auth r out) (con_init s))"
proof -
  let ?w = "set_req 0 (Waiting r) (con_init s)"
  have "con_step envs made pr auth (con_init s) ?w"
    by (rule con_step.arrive) (simp add: con_init_def)
  moreover have "con_step envs made pr auth ?w (set_req 0 (after_auth r out) (con_init s))"
    using con_step.read_section [of envs E ?w 0 r made pr auth] assms by (simp add: con_init_def)
  ultimately show ?thesis
    by (blast intro: reaches_step)
qed

lemma con_run_passed:
  assumes "envs E" and "auth_fast E auth r s = Passed" and "respond E r s = (rw, s')"
  shows "reaches (con_step envs made pr auth) (con_init s)
    ((set_req 0 (Served r rw) (con_init s))\<lparr>cw_state := s'\<rparr>)"
proof -
  have "con_step envs made pr auth (set_req 0 (Admitted r) (con_init s))
      ((set_req 0 (Served r rw) (con_init s))\<lparr>cw_state := s'\<rparr>)"
    using con_step.handle [of envs E "set_req 0 (Admitted r) (con_init s)" 0 r rw s' made pr auth] assms(1,3)
    by (simp add: con_init_def respond_def)
  then show ?thesis
    using con_run_read [of envs E auth r s Passed made pr] assms(1,2) by (auto intro: reaches_step)
qed

lemma con_run_missed:
  assumes "envs E" and "auth_fast E auth r s = Needs kid" and "auth_slow E auth r kid s = (Passed, s')"
  shows "reaches (con_step envs made pr auth) (con_init s)
    ((set_req 0 (Admitted r) (con_init s))\<lparr>cw_state := s'\<rparr>)"
proof -
  have "con_step envs made pr auth (set_req 0 (Missed r kid) (con_init s))
      ((set_req 0 (Admitted r) (con_init s))\<lparr>cw_state := s'\<rparr>)"
    using con_step.write_section [of envs E "set_req 0 (Missed r kid) (con_init s)" 0 r kid auth Passed s' made pr]
      assms(1,3)
    by (simp add: con_init_def)
  then show ?thesis
    using con_run_read [of envs E auth r s "Needs kid" made pr] assms(1,2) by (auto intro: reaches_step)
qed

text \<open>A start with authentication, and a request whose token the provider's key verifies.\<close>

definition toy_secure :: "string \<Rightarrow> string" where
  "toy_secure =
     toy_config(''KEYCLOAK_JWKS_URL'' := ac_JWKSUrl toy_auth, ''KEYCLOAK_ISSUER'' := ac_Issuer toy_auth)"

definition toy_secure_running :: running where
  "toy_secure_running = toy_running\<lparr>rn_auth := toy_auth\<rparr>"

lemma toy_secure_main:
  "server_main (\<lambda>_. True) (\<lambda>_. []) toy_secure (Inr documented_keys) (honest_tee documented_token) 0
     (\<lambda>_ _. Inr ()) = Inr toy_secure_running"
  using toy_server_main unfolding server_main_Inr
  by (auto simp: toy_secure_def toy_secure_running_def toy_running_def toy_auth_def toy_config_def)

definition toy_queue_request :: http_request where
  "toy_queue_request = plain_request ''GET'' ''/v1/queue'' (bearer toy_token)"

lemma toy_admitted:
  "\<exists>s'. reaches (con_step (\<lambda>E. E = toy_env toy_idp 0) keys_documented pr toy_auth)
     (con_init (initial_state toy_secure_running))
     ((set_req 0 (Admitted toy_queue_request) (con_init (initial_state toy_secure_running)))\<lparr>cw_state := s'\<rparr>) \<and>
     jc_keys (sv_jwks s') ''k1'' = Some toy_key"
proof -
  let ?E = "toy_env toy_idp 0"
  let ?s = "initial_state toy_secure_running"
  let ?t = "?s\<lparr>sv_jwks := \<lparr>jc_keys = [''k1'' \<mapsto> toy_key], jc_fetchedAt = 0\<rparr>,
               sv_sent := sv_sent ?s @ [get_request (ac_JWKSUrl toy_auth)]\<rparr>"
  have cache: "sv_jwks ?s = empty_cache"
    by (simp add: initial_state_def)
  have t: "token_kid ?E toy_token = Inr ''k1''" "token_check ?E toy_token (ac_Issuer toy_auth) toy_key = Inr ()"
    using token_valid_sections [OF toy_token_valid [of 0 toy_idp toy_key]]
    by (auto simp: unix_seconds_def toy_auth_def)
  have f: "auth_fast ?E toy_auth toy_queue_request ?s = Needs ''k1''"
    by (simp add: auth_fast_def toy_queue_request_def toy_auth_def auth_exempt_def t has_prefix_def
        jwks_fast_def cache_lookup_def cache empty_cache_def)
  have "at_slow ?E = ?E"
    by (simp add: at_slow_def toy_env_def fun_eq_iff)
  moreover have "?s\<lparr>sv_jwks := empty_cache\<rparr> = ?s"
    using cache by simp
  ultimately have k: "jwks_slow ?E (ac_JWKSUrl toy_auth) ''k1'' ?s = (Inr toy_key, ?t)"
    using toy_fetch [of "ac_JWKSUrl toy_auth" ?s] slow_is_lookup [of ?E] by metis
  have "auth_slow ?E toy_auth toy_queue_request ''k1'' ?s = (Passed, ?t)"
    by (simp add: auth_slow_def auth_key_def toy_queue_request_def t k)
  with f show ?thesis
    by (intro exI [of _ ?t] conjI) (rule con_run_missed [where E = ?E], auto)
qed

section \<open>The properties\<close>

text \<open>
  C3: the locks do their work.  Whatever the interleaving of the locked sections of all requests
  and the rotator, the state it reaches is one that the atomic service reaches, in which every
  authentication, every answer, every refresh and every rotation happens at one moment; a request
  between its two sections is still waiting there.
\<close>

theorem concurrent_refines_atomic:
  assumes "reaches (con_step envs made pr auth) (con_init s) w"
  shows "reaches (svc_step (slow_closure envs) made pr auth) \<lparr>sc_state = s, sc_reqs = Map.empty\<rparr> (abs_service w)"
  using con.reaches_abs [OF assms con_init_inv] by (simp add: abs_con_init)

lemma concurrent_refines_atomic_witness:
  "\<exists>v. reaches (svc_step (slow_closure (\<lambda>E. E = toy_env toy_idp 0)) keys_documented (\<lambda>_. True) toy_auth)
     \<lparr>sc_state = initial_state toy_secure_running, sc_reqs = Map.empty\<rparr> v \<and>
     sc_reqs v 0 = Some (Admitted toy_queue_request)"
proof -
  obtain s' where "reaches (con_step (\<lambda>E. E = toy_env toy_idp 0) keys_documented (\<lambda>_. True) toy_auth)
     (con_init (initial_state toy_secure_running))
     ((set_req 0 (Admitted toy_queue_request) (con_init (initial_state toy_secure_running)))\<lparr>cw_state := s'\<rparr>)"
    using toy_admitted by blast
  from concurrent_refines_atomic [OF this] show ?thesis
    by (intro exI conjI) (assumption, simp add: abs_service_def con_init_def)
qed

text \<open>
  C14: no request is let in without a valid token, under any interleaving.  From a successful start
  with authentication configured, a request that is neither a preflight nor the health check is
  handed to the multiplexer only if its token was valid at the time of its check under a key that the
  provider published for its kid, whatever other requests did to the cache in between.
\<close>

theorem concurrent_gate:
  assumes "server_main pr lt os (Inr k) tee now load = Inr run" and "keys_documented k"
    and "reaches (con_step envs keys_documented pr (rn_auth run)) (con_init (initial_state run)) w"
    and "cw_reqs w i = Some (Admitted r) \<or> cw_reqs w i = Some (Served r rw)"
    and "os ''KEYCLOAK_JWKS_URL'' \<noteq> []" and "rq_method r \<noteq> ''OPTIONS''" and "rq_path r \<noteq> ''/healthz''"
  shows "\<exists>E kid key. envs E \<and> published envs (os ''KEYCLOAK_JWKS_URL'') kid key \<and>
    token_valid E (os ''KEYCLOAK_ISSUER'') kid key (bearer_token r)"
proof -
  have a: "rn_auth run = \<lparr>ac_JWKSUrl = os ''KEYCLOAK_JWKS_URL'', ac_Issuer = os ''KEYCLOAK_ISSUER''\<rparr>"
    using assms(1) unfolding server_main_Inr by auto
  obtain q where "cw_reqs w i = Some q" "q = Admitted r \<or> q = Served r rw"
    using assms(4) by auto
  then have "req_ok envs keys_documented (rn_auth run) (abs_req q)"
    using con_reaches_req [OF assms(3)] started_state [OF assms(1,2)] by blast
  then have "let_in envs (rn_auth run) r"
    using \<open>q = Admitted r \<or> q = Served r rw\<close> by auto
  then show ?thesis
    using assms(5-7) by (simp add: let_in_def auth_exempt_def a)
qed

lemma concurrent_gate_witness:
  "\<exists>kid key. published (\<lambda>E. E = toy_env toy_idp 0) ''https://idp/certs'' kid key \<and>
     token_valid (toy_env toy_idp 0) ''https://idp'' kid key toy_token"
proof -
  have a: "rn_auth toy_secure_running = toy_auth"
    by (simp add: toy_secure_running_def)
  obtain s' where "reaches (con_step (\<lambda>E. E = toy_env toy_idp 0) keys_documented (\<lambda>_. True)
      (rn_auth toy_secure_running)) (con_init (initial_state toy_secure_running))
     ((set_req 0 (Admitted toy_queue_request) (con_init (initial_state toy_secure_running)))\<lparr>cw_state := s'\<rparr>)"
    unfolding a using toy_admitted by blast
  from concurrent_gate [OF toy_secure_main documented this, of 0 toy_queue_request] show ?thesis
    by (auto simp: con_init_def toy_secure_def toy_auth_def toy_queue_request_def)
qed

text \<open>
  C2: every attestation the running server hands out passes the browser's check, under any
  interleaving.  From a successful start, whatever the order of the locked sections of requests,
  refreshes and rotations and whatever the answers from outside, every 200 answer on the
  attestation route carries a bundle whose token names exactly the two keys in it, if the key
  generation keeps its documented contract.
\<close>

theorem concurrent_attestations:
  assumes "server_main pr lt os (Inr k) tee now load = Inr run" and "keys_documented k"
    and "reaches (con_step envs keys_documented pr (rn_auth run)) (con_init (initial_state run)) w"
    and "cw_reqs w i = Some (Served r rw)" and "mux_find server_routes r = Run Attest bs"
    and "rw_status rw = Some 200"
  shows "\<exists>ab. rw_body rw = AttestBundle_json ab @ [CHR 0x0A] \<and> browser_binding_check ab"
proof -
  have "sound_answer keys_documented r rw"
    using con_reaches_req [OF assms(3) started_state [OF assms(1,2)] assms(4)] by simp
  then obtain E s s' where s: "builder_ok (sv_builder s)" "keys_documented (bu_keys (sv_builder s))"
      "corsMiddleware (server_mux E) r (new_writer, s) = (rw, s')"
    unfolding sound_answer_def respond_def by blast
  then show ?thesis
    using attest_answer [OF s(3) assms(5,6)] build_passes_browser by blast
qed

lemma concurrent_attestations_witness:
  "\<exists>(rw :: resp_writer) ab. rw_body rw = AttestBundle_json ab @ [CHR 0x0A] \<and> browser_binding_check ab \<and>
     rw_status rw = Some 200"
proof -
  let ?E = "toy_env (\<lambda>_. Inl (Lib EOF)) 0"
  let ?s = "initial_state toy_running"
  obtain rw where rw: "respond ?E toy_attest_request ?s = (rw, ?s)" "rw_status rw = Some 200"
    using toy_attest_reply [of ?E] by (auto simp: Handler_def respond_def)
  have "auth_fast ?E (rn_auth toy_running) toy_attest_request ?s = Passed"
    by (simp add: auth_fast_def toy_running_def)
  from con_run_passed [of "\<lambda>E. E = ?E" ?E, OF refl this rw(1)]
  have "reaches (con_step (\<lambda>E. E = ?E) keys_documented (\<lambda>_. True) (rn_auth toy_running)) (con_init ?s)
    ((set_req 0 (Served toy_attest_request rw) (con_init ?s))\<lparr>cw_state := ?s\<rparr>)" .
  from concurrent_attestations [OF toy_server_main documented this _ toy_attest_route rw(2), of 0]
  show ?thesis
    using rw(2) by auto
qed

text \<open>
  C30: the keys in the cache are well formed.  Whatever the interleaving and whatever the provider
  answers, every key the cache ever holds has a public exponent other than zero and is stored
  under a kid that is not empty.
\<close>

theorem cache_well_formed:
  assumes "reaches (con_step envs made pr auth) (con_init s) w" and "sv_jwks s = empty_cache"
    and "jc_keys (sv_jwks (cw_state w)) kid = Some key"
  shows "kid \<noteq> [] \<and> rsa_E key \<noteq> 0"
proof -
  have "keys_wf (jc_keys (sv_jwks (cw_state w)))"
    using cache.inv_reaches [OF assms(1)] assms(2) by (simp add: con_init_def empty_cache_def)
  then show ?thesis
    using assms(3) by (auto simp: keys_wf_def)
qed

lemma cache_well_formed_witness:
  "\<exists>s' :: server_state. jc_keys (sv_jwks s') ''k1'' = Some toy_key \<and> rsa_E toy_key \<noteq> 0"
proof -
  let ?E = "toy_env toy_idp 0"
  let ?s = "initial_state toy_secure_running"
  obtain s' where s: "reaches (con_step (\<lambda>E. E = ?E) keys_documented (\<lambda>_. True) toy_auth) (con_init ?s)
      ((set_req 0 (Admitted toy_queue_request) (con_init ?s))\<lparr>cw_state := s'\<rparr>)"
      "jc_keys (sv_jwks s') ''k1'' = Some toy_key"
    using toy_admitted by blast
  then have "rsa_E toy_key \<noteq> 0"
    using cache_well_formed [OF s(1), of "''k1''" toy_key] by (simp add: initial_state_def)
  with s(2) show ?thesis by blast
qed

end
