(* ===== verification/Session_Spec.thy ===== *)
theory Session_Spec
  imports Server_Main
begin

text \<open>
  Sessions: a browser fetches the attestation bundle, takes the HPKE key from its JSON, seals a job
  to it and submits it, while the rotator goes on.  The theory puts the attestation endpoint, the
  rotator, the JSON of both messages and job submission together.
\<close>

section \<open>The loop of the rotator\<close>

lemma rot_loop_outcome:
  "fst (rot_loop pr lt evs b log) = (if CtxDone \<in> set evs then Returned else Running)"
  by (induction pr lt evs b log rule: rot_loop.induct) (auto split: prod.splits sum.splits)

lemma rot_loop_cut: "rot_loop pr lt (es @ CtxDone # evs) b log = rot_loop pr lt (es @ [CtxDone]) b log"
  by (induction pr lt es b log rule: rot_loop.induct) (auto split: prod.splits sum.splits)

text \<open>Refreshes keep the keys; after a successful rotation they are the generated ones.\<close>

definition refreshes_only :: "rot_event list \<Rightarrow> bool" where
  "refreshes_only evs \<longleftrightarrow> list_all (\<lambda>e. case e of FullTick _ _ _ \<Rightarrow> False | _ \<Rightarrow> True) evs"

lemma refreshes_calls: "refreshes_only evs \<Longrightarrow> CallRenew g \<notin> set (calls_of evs)"
  by (induction evs rule: calls_of.induct) (auto simp: refreshes_only_def)

lemma refreshes_keep:
  "refreshes_only evs \<Longrightarrow>
     bu_keys (run_calls (refresh_op pr) (rotate_op pr) (calls_of evs) b) = bu_keys b"
  using refreshes_calls by (intro store.run_ident) blast

lemma rotated_keys:
  assumes "FullRotate pr (Inr k) tee now b = (Inr u, b')"
  shows "bu_keys b' = k"
  using assms by (auto simp: FullRotate_def rotate_fetch_def rotate_commit_def split: sum.splits)

section \<open>The JSON of the bundle\<close>

text \<open>A value written with a line break behind it, as \<open>json.Encoder\<close> does, reads back as well.\<close>

lemma encodes_line_parse:
  assumes "encodes n e v" and "n \<le> 2 * length e + 2" and "json_depth v \<le> max_nesting_depth"
  shows "json_parse (e @ [CHR 0x0A]) = Some v"
proof -
  have "jvalue (2 * length (e @ [CHR 0x0A]) + 2) (e @ [CHR 0x0A]) = Some (v, [CHR 0x0A])"
    using assms(1,2) by (intro encodes_parse) (auto simp: is_stop_def is_ws_def)
  moreover have "skip_ws (e @ [CHR 0x0A]) = e @ [CHR 0x0A]"
    using assms(1) by (rule encodes_skip)
  ultimately show ?thesis
    using assms(3) by (simp only: json_parse_def) (simp add: skip_ws_def is_ws_def)
qed

lemma bundle_line_parse:
  "json_parse (AttestBundle_json ab @ [CHR 0x0A]) =
     Some (JObj [(''oidc_token'', JStr (utf8_fix (ab_OIDCToken ab))),
                 (''binding_pubkey_b64'', JStr (utf8_fix (ab_BindingPubkeyB64 ab))),
                 (''hpke_pubkey_b64'', JStr (utf8_fix (ab_HPKEPubkeyB64 ab))),
                 (''nonce_sig_b64'', JStr (utf8_fix (ab_NonceSigB64 ab))),
                 (''issued_at'', JNum (show_int (ab_IssuedAt ab)))])"
proof -
  let ?kvs = "[(''oidc_token'', json_string (ab_OIDCToken ab), JStr (utf8_fix (ab_OIDCToken ab))),
     (''binding_pubkey_b64'', json_string (ab_BindingPubkeyB64 ab), JStr (utf8_fix (ab_BindingPubkeyB64 ab))),
     (''hpke_pubkey_b64'', json_string (ab_HPKEPubkeyB64 ab), JStr (utf8_fix (ab_HPKEPubkeyB64 ab))),
     (''nonce_sig_b64'', json_string (ab_NonceSigB64 ab), JStr (utf8_fix (ab_NonceSigB64 ab))),
     (''issued_at'', show_int (ab_IssuedAt ab), JNum (show_int (ab_IssuedAt ab)))]"
  have "encodes (Suc (1 + length ?kvs)) (json_object (map (\<lambda>(k, e, v). (k, e)) ?kvs))
      (JObj (map (\<lambda>(k, e, v). (utf8_fix k, v)) ?kvs))"
    by (intro encodes_object) (auto simp: encodes_simps)
  then have "encodes 7 (AttestBundle_json ab) (JObj (map (\<lambda>(k, e, v). (utf8_fix k, v)) ?kvs))"
    by (simp add: AttestBundle_json_def eval_nat_numeral)
  from encodes_line_parse [OF this] show ?thesis
    by (simp add: max_nesting_depth_def AttestBundle_json_def json_object_def json_pair_def json_string_def
        utf8_fix_ascii is_ascii_def)
qed

text \<open>The HPKE key in the body of an attestation reply.\<close>

definition reply_hpke_key :: "string \<Rightarrow> bytes option" where
  "reply_hpke_key body =
     (case json_parse body of
        Some (JObj kvs) \<Rightarrow>
          (case map_of kvs ''hpke_pubkey_b64'' of
             Some (JStr k) \<Rightarrow> (case b64_decode StdEncoding k of Inr pub \<Rightarrow> Some pub | Inl _ \<Rightarrow> None)
           | _ \<Rightarrow> None)
      | _ \<Rightarrow> None)"

lemma attest_reply_key:
  assumes "HandleAttest r (new_writer, s) = (w', s')" and "rw_status w' = Some 200"
  shows "reply_hpke_key (rw_body w') = Some (ek_HPKEPubBytes (bu_keys (sv_builder s)))"
proof -
  obtain nonce ab where ab: "Build (sv_builder s) nonce = Inr ab"
      "rw_body w' = AttestBundle_json ab @ [CHR 0x0A]"
    using HandleAttest_reply [OF assms(1)] assms(2) by (auto simp: new_writer_def)
  have "ab_HPKEPubkeyB64 ab = b64_encode StdEncoding (ek_HPKEPubBytes (bu_keys (sv_builder s)))"
    using ab(1) by (auto simp: Build_def split: sum.splits)
  then have "utf8_fix (ab_HPKEPubkeyB64 ab) = ab_HPKEPubkeyB64 ab"
    and "b64_decode StdEncoding (ab_HPKEPubkeyB64 ab) = Inr (ek_HPKEPubBytes (bu_keys (sv_builder s)))"
    using valid_utf8_b64 by (simp_all add: valid_utf8_def std.dec_enc)
  then show ?thesis
    unfolding reply_hpke_key_def ab(2) bundle_line_parse by simp
qed

section \<open>The properties\<close>

text \<open>
  C28: the rotator stops exactly when its context is cancelled.  With tick periods that are positive
  it returns if and only if the cancellation is among the events it receives, whatever the calls in
  between answer, and what comes after it has no effect; otherwise it panics at once.
\<close>

theorem rotator_terminates:
  "fst (Start pr lt (NewRotator b cfg) evs) =
     (if cf_OIDCEvery cfg \<le> 0 \<or> cf_FullEvery cfg \<le> 0 then Panicked
      else if CtxDone \<in> set evs then Returned else Running) \<and>
   Start pr lt (NewRotator b cfg) (es @ CtxDone # evs) = Start pr lt (NewRotator b cfg) (es @ [CtxDone])"
  using rot_loop_cut [of pr lt es evs b "[]"] by (simp add: Start_def NewRotator_def rot_loop_outcome)

text \<open>
  C15: a session survives token refreshes.  A browser that took the HPKE key from the JSON of an
  attestation reply and sealed a job to it can submit it after any run of the rotator without a key
  rotation: the enclave opens it, sends the buffer manager exactly what the job asks for, and
  refuses it with no 400.
\<close>

theorem session_survives_refresh:
  assumes "HandleAttest r0 (new_writer, s0) = (w0, s0')" and "rw_status w0 = Some 200"
    and "ek_HPKEPub (bu_keys (sv_builder s0)) = ek_HPKEPubBytes (bu_keys (sv_builder s0))"
    and "reply_hpke_key (rw_body w0) = Some epub"
    and "hpke_correct (e_hpke E) (ek_HPKEPriv (bu_keys (sv_builder s0))) epub"
    and "refreshes_only evs" and "sv_builder s = fst (snd (Start pr lt (NewRotator (sv_builder s0) cfg) evs))"
    and "SealToBrowser (e_hpke E) epub (ContextInfo epub bpub) aad pt = Inr seal"
    and "rq_get r ''X-RATLS-Browser-HPKE'' = b64_encode RawURLEncoding bpub" and "length bpub = 32"
    and "rq_body r = \<lparr>st_data = submission_body seal aad, st_end = EOF\<rparr>"
    and "length (submission_body seal aad) < 2 ^ 20"
  shows "snd (HandleSubmit E r (new_writer, s)) =
      snd (processJob E pt (extractKeycloakSub (bearer_token r)) (bearer_token r) s) \<and>
    rw_status (fst (HandleSubmit E r (new_writer, s))) \<noteq> Some 400"
proof -
  have epub: "epub = ek_HPKEPub (bu_keys (sv_builder s0))"
    using attest_reply_key [OF assms(1,2)] assms(3,4) by simp
  have keys: "bu_keys (sv_builder s) = bu_keys (sv_builder s0)"
    using assms(6,7) refreshes_keep by (simp add: Start_builder NewRotator_def)
  have "submission_opens E s r bpub (ContextInfo epub bpub) pt"
    using assms(5) assms(8-12) by (intro submission_opened) (simp_all add: keys epub)
  then show ?thesis
    by (rule HandleSubmit_answers)
qed

definition toy_refreshes :: "rot_event list" where
  "toy_refreshes = [OidcTick (honest_tee documented_token) 5, OidcTick (\<lambda>_ _ _. Inl (Lib EOF)) 6]"

definition refreshed :: "builder \<Rightarrow> server_state" where
  "refreshed b = toy_state\<lparr>sv_builder := fst (snd (Start (\<lambda>_. True) (\<lambda>_. []) (NewRotator b DefaultConfig)
     toy_refreshes))\<rparr>"

lemma toy_refreshes_only: "refreshes_only toy_refreshes"
  by (simp add: refreshes_only_def toy_refreshes_def)

lemma documented_rotation:
  "rotate_fetch (\<lambda>_. True) (Inr documented_keys) aud (honest_tee documented_token) =
     Inr (documented_keys, documented_token)"
proof -
  have "FetchOIDC (\<lambda>_. True) documented_keys aud (honest_tee documented_token) = Inr documented_token"
    and "verifyEatNonce (\<lambda>_. True) documented_token documented_keys = Inr ()"
    using honest_NewBuilder [OF documented, of documented_token "[]" "[]" "\<lambda>_. True" 0 aud]
      documented_token_length
    by (auto simp: NewBuilder_Inr documented_token_def)
  then show ?thesis
    by (simp add: rotate_fetch_def del: verify_Inr)
qed

lemma toy_context_seal:
  "SealToBrowser toy_hpke (replicate 32 1) (ContextInfo (replicate 32 1) (replicate 32 2)) [] toy_job =
     Inr (toy_submission toy_info)"
  unfolding toy_info_def [symmetric] by (rule toy_submission_seal)

lemma toy_attested:
  obtains w0 where "HandleAttest toy_attest_request (new_writer, toy_state) = (w0, toy_state)"
    "rw_status w0 = Some 200" "reply_hpke_key (rw_body w0) = Some (replicate 32 1)"
proof -
  have n: "rq_get toy_attest_request ''X-RATLS-Nonce'' = b64_encode RawURLEncoding (replicate 32 9)"
    by (simp add: toy_attest_request_def rq_get_def header_get_set)
  obtain ab where ab: "Build (sv_builder toy_state) (replicate 32 9) = Inr ab"
    by (auto simp: Build_def toy_state_def toy_builder_def)
  let ?w = "w_write (AttestBundle_json ab @ [CHR 0x0A])
    (w_set ''Cache-Control'' ''no-store'' (w_set ''Content-Type'' ''application/json'' new_writer))"
  have h: "HandleAttest toy_attest_request (new_writer, toy_state) = (?w, toy_state)"
    using n ab by (intro HandleAttest_served) simp_all
  moreover have "rw_status ?w = Some 200"
    by (simp add: http_simps new_writer_def)
  ultimately show thesis
    using that attest_reply_key by (fastforce simp: toy_state_def toy_builder_def)
qed

lemma session_survives_witness:
  "rw_status (fst (HandleSubmit (toy_env toy_manager 0) (toy_request toy_info)
     (new_writer, refreshed (toy_builder [])))) \<noteq> Some 400"
proof -
  obtain w0 where w0: "HandleAttest toy_attest_request (new_writer, toy_state) = (w0, toy_state)"
      "rw_status w0 = Some 200" "reply_hpke_key (rw_body w0) = Some (replicate 32 1)"
    by (rule toy_attested)
  show ?thesis
    using session_survives_refresh [where E = "toy_env toy_manager 0" and evs = toy_refreshes and
        bpub = "replicate 32 2" and s = "refreshed (toy_builder [])", OF w0(1,2) _ w0(3) _ toy_refreshes_only
        _ _ toy_header _ toy_request_body toy_body_length [OF toy_info_length]] toy_context_seal
    by (fastforce simp: toy_state_def toy_builder_def toy_hpke_correct refreshed_def)
qed

text \<open>
  C16: a key rotation ends every session.  Once a rotation has succeeded, a job sealed to the HPKE key
  of an attestation reply from before it is refused with 400 and nothing is forwarded, also after
  further refreshes, if a ciphertext opens under no info string but its own; unless the two keys
  are a SHA-256 collision.
\<close>

theorem rotation_ends_session:
  assumes "HandleAttest r0 (new_writer, s0) = (w0, s0')" and "rw_status w0 = Some 200"
    and "reply_hpke_key (rw_body w0) = Some epub"
    and "FullRotate pr (Inr k) tee now (sv_builder s0) = (Inr u, b)" and "refreshes_only evs"
    and "sv_builder s = fst (snd (Start pr lt (NewRotator b cfg) evs))"
    and "hpke_binds_info (e_hpke E) (ek_HPKEPriv k) epub"
    and "SealToBrowser (e_hpke E) epub (ContextInfo epub bpub) aad pt = Inr seal"
    and "rq_get r ''X-RATLS-Browser-HPKE'' = b64_encode RawURLEncoding bpub" and "length bpub = 32"
    and "rq_body r = \<lparr>st_data = submission_body seal aad, st_end = EOF\<rparr>"
    and "length (submission_body seal aad) < 2 ^ 20"
  shows "HandleSubmit E r (new_writer, s) = (http_error ''decryption failed'' 400 new_writer, s) \<or>
    sha256 (ek_HPKEPub k) = sha256 epub"
proof (rule disjCI)
  assume ne: "sha256 (ek_HPKEPub k) \<noteq> sha256 epub"
  have keys: "bu_keys (sv_builder s) = k"
    using rotated_keys [OF assms(4)] assms(5,6) refreshes_keep by (simp add: Start_builder NewRotator_def)
  from ne have "ContextInfo epub bpub \<noteq> ContextInfo (ek_HPKEPub k) bpub"
    by (simp add: ContextInfo_inject)
  then show "HandleSubmit E r (new_writer, s) = (http_error ''decryption failed'' 400 new_writer, s)"
    using assms(7,8) browser_key_header [OF assms(9,10)] decode_submission [OF assms(12)] assms(11)
    by (intro HandleSubmit_wrong_info) (simp_all add: keys)
qed

lemma rotation_ends_witness:
  "\<exists>b. bu_keys b = documented_keys \<and>
     (HandleSubmit (toy_env toy_manager 0) (toy_request toy_info) (new_writer, refreshed b) =
        (http_error ''decryption failed'' 400 new_writer, refreshed b) \<or>
      sha256 (ek_HPKEPub documented_keys) = sha256 (replicate 32 1))"
proof -
  obtain w0 where w0: "HandleAttest toy_attest_request (new_writer, toy_state) = (w0, toy_state)"
      "rw_status w0 = Some 200" "reply_hpke_key (rw_body w0) = Some (replicate 32 1)"
    by (rule toy_attested)
  let ?b = "rotate_commit documented_keys documented_token 7 (sv_builder toy_state)"
  have rot: "FullRotate (\<lambda>_. True) (Inr documented_keys) (honest_tee documented_token) 7 (sv_builder toy_state) =
      (Inr (), ?b)"
    by (simp add: FullRotate_def documented_rotation)
  have "hpke_binds_info (e_hpke (toy_env toy_manager 0)) (ek_HPKEPriv documented_keys) (replicate 32 1)"
    by (simp add: toy_hpke_binds_info)
  then show ?thesis
    using rotation_ends_session [where E = "toy_env toy_manager 0" and evs = toy_refreshes and
        bpub = "replicate 32 2" and s = "refreshed ?b", OF w0 rot toy_refreshes_only _ _ _ toy_header _
        toy_request_body toy_body_length [OF toy_info_length]] toy_context_seal
    by (intro exI [of _ ?b]) (auto simp: refreshed_def rotate_commit_def)
qed

end
