(* ===== verification/Route_Spec.thy ===== *)
theory Route_Spec
  imports Server_Spec
begin

text \<open>
  The route table and the status of every reply.  \<open>Router\<close> tries the routes in the order in which
  they are registered; \<open>http.ServeMux\<close> takes the most specific pattern and panics when two
  patterns conflict.  For the routes of this server there is no difference, because no two of them
  with the same method match the same path.
\<close>

section \<open>Tables without overlap\<close>

definition unambiguous :: "route list \<Rightarrow> bool" where
  "unambiguous rts \<longleftrightarrow>
     (\<forall>a \<in> set rts. \<forall>b \<in> set rts. \<forall>ss bs bs'.
        rt_method a = rt_method b \<longrightarrow> match_segs (rt_pattern a) ss = Some bs \<longrightarrow>
        match_segs (rt_pattern b) ss = Some bs' \<longrightarrow> a = b)"

lemma find_route_None:
  "find_route rts m ss = None \<longleftrightarrow>
     (\<forall>rt \<in> set rts. rt_method rt = m \<longrightarrow> match_segs (rt_pattern rt) ss = None)"
  by (induction rts m ss rule: find_route.induct) (auto split: option.splits)

lemma find_route_iff:
  assumes "unambiguous rts"
  shows "find_route rts m ss = Some (ep, bs) \<longleftrightarrow>
    (\<exists>rt \<in> set rts. rt_method rt = m \<and> rt_endpoint rt = ep \<and> match_segs (rt_pattern rt) ss = Some bs)"
proof
  assume "find_route rts m ss = Some (ep, bs)"
  then show "\<exists>rt \<in> set rts. rt_method rt = m \<and> rt_endpoint rt = ep \<and> match_segs (rt_pattern rt) ss = Some bs"
    by (auto dest!: find_route_Some)
next
  assume "\<exists>rt \<in> set rts. rt_method rt = m \<and> rt_endpoint rt = ep \<and> match_segs (rt_pattern rt) ss = Some bs"
  then obtain rt where rt: "rt \<in> set rts" "rt_method rt = m" "rt_endpoint rt = ep"
      "match_segs (rt_pattern rt) ss = Some bs"
    by blast
  then obtain ep' bs' where f: "find_route rts m ss = Some (ep', bs')"
    using find_route_None [of rts m ss] by fastforce
  then obtain rt' where "rt' \<in> set rts" "rt_method rt' = m" "rt_endpoint rt' = ep'"
      "match_segs (rt_pattern rt') ss = Some bs'"
    by (auto dest!: find_route_Some)
  moreover from this have "rt' = rt"
    using assms rt unfolding unambiguous_def by blast
  ultimately show "find_route rts m ss = Some (ep, bs)"
    using f rt by simp
qed

lemma find_route_set:
  assumes "unambiguous rts" and "set rts' = set rts"
  shows "find_route rts' m ss = find_route rts m ss"
proof -
  have "unambiguous rts'"
    using assms by (simp add: unambiguous_def)
  then have "find_route rts' m ss = Some x \<longleftrightarrow> find_route rts m ss = Some x" for x
    using assms by (cases x) (simp add: find_route_iff)
  then show ?thesis
    by (metis not_None_eq)
qed

lemma mux_find_set:
  assumes "unambiguous rts" and "set rts' = set rts"
  shows "mux_find rts' r = mux_find rts r"
  by (simp only: mux_find_def mux_match_def allowed_methods_def find_route_set [OF assms])

text \<open>Two patterns may match the same path unless their lengths or two literals differ.\<close>

fun overlap :: "pat_seg list \<Rightarrow> pat_seg list \<Rightarrow> bool" where
  "overlap [] [] = True"
| "overlap (Lit l # ps) (Lit k # qs) = (l = k \<and> overlap ps qs)"
| "overlap (p # ps) (q # qs) = overlap ps qs"
| "overlap _ _ = False"

fun_cases match_segs_ConsE: "match_segs (p # ps) ss = Some bs"

lemma match_overlap:
  "match_segs ps ss = Some bs \<Longrightarrow> match_segs qs ss = Some bs' \<Longrightarrow> overlap ps qs"
  by (induction ps qs arbitrary: ss bs bs' rule: overlap.induct)
    (auto simp: match_segs_Some elim!: match_segs_ConsE split: if_splits
      dest!: sym [of "Some _" "match_segs _ _"] sym [of "Some _" "map_option _ _"])

lemma server_routes_overlap:
  "\<forall>a \<in> set server_routes. \<forall>b \<in> set server_routes.
     rt_method a = rt_method b \<longrightarrow> overlap (rt_pattern a) (rt_pattern b) \<longrightarrow> a = b"
  by (simp add: server_routes_def)

lemma server_routes_unambiguous: "unambiguous server_routes"
  using server_routes_overlap match_overlap unfolding unambiguous_def by blast

section \<open>The status of a reply\<close>

text \<open>The codes that an endpoint answers with of its own, and the endpoints that pass an answer of the manager on.\<close>

fun own_codes :: "endpoint \<Rightarrow> nat set" where
  "own_codes Attest = {200, 400, 500}"
| "own_codes Submit = {200, 400, 500}"
| "own_codes UploadModel = {400, 500}"
| "own_codes UploadWeights = {400, 500}"
| "own_codes UploadPreprocessing = {400, 500}"
| "own_codes Status = {}"
| "own_codes Queue = {403}"
| "own_codes Results = {}"
| "own_codes Healthz = {200}"

definition passes_on :: "endpoint \<Rightarrow> bool" where
  "passes_on ep \<longleftrightarrow> ep \<notin> {Attest, Submit, Healthz}"

definition answers :: "nat set \<Rightarrow> resp_writer \<Rightarrow> bool" where
  "answers ns w \<longleftrightarrow> (\<exists>n \<in> ns. rw_status w = Some n) \<and> \<not> rw_aborted w"

text \<open>How the outcome of the last call of a request ends up in the reply.\<close>

definition relayed :: "env \<Rightarrow> resp_writer \<times> server_state \<Rightarrow> bool" where
  "relayed E ws \<longleftrightarrow>
     (\<exists>sent rq. sv_sent (snd ws) = sent @ [rq] \<and> local_request rq \<and>
        (case e_net E rq of
           Inl err \<Rightarrow> answers {502} (fst ws)
         | Inr resp \<Rightarrow>
             (if 100 \<le> pr_status resp \<and> pr_status resp \<le> 999 then answers {pr_status resp} (fst ws)
              else rw_status (fst ws) = None \<and> rw_aborted (fst ws))))"

definition fresh :: "resp_writer \<Rightarrow> bool" where
  "fresh w \<longleftrightarrow> rw_status w = None \<and> \<not> rw_aborted w"

lemma aborted_simps [simp]:
  "rw_aborted (w_set k v w) = rw_aborted w" "rw_aborted (write_header n w) = rw_aborted w"
  "rw_aborted (w_write t w) = rw_aborted w" "rw_aborted (http_error msg n w) = rw_aborted w"
  "rw_aborted (json_error msg n w) = rw_aborted w" "rw_aborted (cors_headers w) = rw_aborted w"
  by (simp_all add: w_set_def write_header_def w_write_def http_error_def json_error_def cors_headers_def Let_def
      split: option.split)

lemma fresh_simps [simp]:
  "fresh new_writer" "fresh (w_set k v w) = fresh w" "fresh (cors_headers w) = fresh w"
  by (simp_all add: fresh_def new_writer_def cors_headers_def http_simps)

lemma answers_writers [simp]:
  assumes "fresh w"
  shows "answers ns (http_error msg n w) \<longleftrightarrow> n \<in> ns" and "answers ns (json_error msg n w) \<longleftrightarrow> n \<in> ns"
    and "answers ns (write_header n w) \<longleftrightarrow> n \<in> ns" and "answers ns (w_write t w) \<longleftrightarrow> 200 \<in> ns"
  using assms by (simp_all add: answers_def fresh_def http_simps)

lemma relay_relayed:
  assumes "local_request rq" and "fresh w"
  shows "relayed E
    (case http_do E rq s of
       (Inl err, s') \<Rightarrow> (http_error ''buffer manager unavailable'' 502 w, s')
     | (Inr resp, s') \<Rightarrow> (relay resp w, s'))"
  using assms
  by (auto simp: relayed_def http_do_def relay_def answers_def fresh_def Let_def http_simps
      split: sum.split)

lemma proxyGet_replies:
  assumes "fresh (fst ws)" and "url = bufferManagerURL @ ''/buffer/jobs'' @ t"
  shows "relayed E (proxyGet E url ws)"
proof -
  have "local_request (get_request url)"
    by (rule local_request_url [of _ t]) (simp add: get_request_def assms(2))
  then show ?thesis
    unfolding proxyGet_def using assms(1) by (rule relay_relayed)
qed

lemma handle_upload_replies:
  assumes "fresh (fst ws)"
  shows "answers {400, 500} (fst (handle_upload E jobID kind r ws)) \<or> relayed E (handle_upload E jobID kind r ws)"
proof -
  let ?url = "bufferManagerURL @ ''/buffer/jobs/'' @ jobID @ ''/'' @ kind"
  have "local_request (upload_put ?url d)" for d
    by (rule local_request_url [of _ "slash # jobID @ slash # kind"]) (simp add: upload_put_def slash_def)
  then have "answers {400, 500} (fst (proxyPlaintextUpload E ?url d ws)) \<or> relayed E (proxyPlaintextUpload E ?url d ws)" for d
    using assms relay_relayed [of "upload_put ?url d" "fst ws" E "snd ws"]
    by (simp add: proxyPlaintextUpload_def Let_def case_prod_beta del: append_Cons)
  then show ?thesis
    using assms by (auto simp: handle_upload_def simp del: append_Cons split: prod.split sum.split)
qed

lemma HandleSubmit_replies:
  "fresh (fst ws) \<Longrightarrow> answers {200, 400, 500} (fst (HandleSubmit E r ws))"
  by (auto simp: HandleSubmit_def Let_def split: prod.split sum.split)

lemma HandleAttest_replies:
  "fresh (fst ws) \<Longrightarrow> answers {200, 400, 500} (fst (HandleAttest r ws))"
  by (auto simp: HandleAttest_def Let_def split: prod.split sum.split)

lemma run_endpoint_replies:
  assumes "fresh (fst ws)"
  shows "answers (own_codes ep) (fst (run_endpoint E ep bs r ws)) \<or>
    passes_on ep \<and> relayed E (run_endpoint E ep bs r ws)"
proof (cases ep)
  case Status
  then show ?thesis
    using proxyGet_replies [OF assms, of _ "slash # path_value ''job_id'' bs" E]
    by (simp add: HandleStatus_def slash_def passes_on_def)
next
  case Results
  then show ?thesis
    using proxyGet_replies [OF assms, of _ "slash # path_value ''job_id'' bs @ ''/results''" E]
    by (simp add: HandleResults_def slash_def passes_on_def)
next
  case Queue
  then show ?thesis
    using proxyGet_replies [OF assms, of _ "[]" E] assms
    by (auto simp: role.split_cases role_deny_def HandleQueue_def passes_on_def answers_def fresh_def http_simps)
qed (use assms handle_upload_replies [OF assms] HandleSubmit_replies HandleAttest_replies in
      \<open>auto simp: HandleUploadModel_def HandleUploadWeights_def HandleUploadPreprocessing_def passes_on_def\<close>)

text \<open>What the multiplexer replies with.\<close>

definition mux_replies :: "env \<Rightarrow> http_request \<Rightarrow> resp_writer \<times> server_state \<Rightarrow> bool" where
  "mux_replies E r ws \<longleftrightarrow>
     (case mux_find server_routes r of
        BadRequest \<Rightarrow> answers {400} (fst ws)
      | Redirect p \<Rightarrow> answers {e_redirect_code E} (fst ws)
      | MethodNotAllowed ms \<Rightarrow> answers {405} (fst ws)
      | NotFound \<Rightarrow> answers {404} (fst ws)
      | Run ep bs \<Rightarrow> answers (own_codes ep) (fst ws) \<or> passes_on ep \<and> relayed E ws)"

lemma redirect_replies: "fresh w \<Longrightarrow> answers {e_redirect_code E} (redirect_to E r p w)"
  by (auto simp: redirect_to_def Let_def answers_def fresh_def http_simps)

lemma server_mux_replies:
  assumes "fresh (fst ws)"
  shows "mux_replies E r (server_mux E r ws)"
  using assms run_endpoint_replies [OF assms] redirect_replies [OF assms]
  by (simp add: mux_replies_def server_mux_def serve_mux_def split: mux_result.split)

section \<open>The properties\<close>

text \<open>
  C31: the order of registration does not matter.  For no request do two routes of the server with
  the same method match, so no registration panics, and any table with the same routes gives
  every request the same handler, the same path values and the same error.
\<close>

theorem routes_order_irrelevant:
  "unambiguous server_routes \<and> (set rts = set server_routes \<longrightarrow> mux_find rts r = mux_find server_routes r)"
  using server_routes_unambiguous mux_find_set by blast

definition submit_request :: http_request where
  "submit_request = \<lparr>rq_method = ''POST'', rq_path = ''/v1/submit'', rq_escaped = ''/v1/submit'', rq_header = [],
     rq_body = \<lparr>st_data = [], st_end = EOF\<rparr>\<rparr>"

lemma routes_order_witness:
  "mux_find (rev server_routes) submit_request = mux_find server_routes submit_request"
  using routes_order_irrelevant [of "rev server_routes" submit_request] by simp

text \<open>
  C29: the status of every reply.  Once the handler has returned, a request that the gate of a server with
  authentication does not let through has got 401, a preflight 204, and every other request the code that the
  multiplexer answers with itself (400, the redirect code, 405 or 404) or one that its endpoint has in the
  table \<open>own_codes\<close>.  The only other outcome is that of an endpoint that passes on the answer of the manager:
  502 if its last call has failed, the status of the answer to it, or, if \<open>WriteHeader\<close> does not accept
  that status, a handler that panics without a reply.
\<close>

theorem reply_status:
  assumes "Handler E auth r (new_writer, s) = (w, s')"
  shows "if ac_JWKSUrl auth \<noteq> [] \<and> \<not> auth_passes E (ac_JWKSUrl auth) (ac_Issuer auth) r (new_writer, s)
    then answers {401} w
    else if rq_method r = ''OPTIONS'' then answers {204} w
    else mux_replies E r (w, s')"
proof -
  have base: "if rq_method r = ''OPTIONS'' then answers {204} w else mux_replies E r (w, s')"
    if "corsMiddleware (server_mux E) r (new_writer, s1) = (w, s')" for s1
    using that server_mux_replies [of "(cors_headers new_writer, s1)" E r]
    by (auto simp: corsMiddleware_def Let_def split: if_splits)
  show ?thesis
  proof (cases "ac_JWKSUrl auth = []")
    case True
    then show ?thesis
      using assms base by (simp add: Handler_def)
  next
    case on: False
    show ?thesis
    proof (cases "auth_passes E (ac_JWKSUrl auth) (ac_Issuer auth) r (new_writer, s)")
      case True
      then show ?thesis
        using assms base by (auto simp: Handler_def on auth.split_cases auth_enter_def)
    next
      case False
      then have "w = fst (auth_deny E (ac_JWKSUrl auth) (ac_Issuer auth) r (new_writer, s))"
        using assms Handler_deny [OF on False] by simp
      then have "answers {401} w"
        by (simp add: auth_deny_def)
      then show ?thesis
        using on False by simp
    qed
  qed
qed

text \<open>A manager that answers 99 makes the status handler panic.\<close>

definition toy_low_status :: net where
  "toy_low_status rq = Inr \<lparr>pr_status = 99, pr_body = \<lparr>st_data = [], st_end = EOF\<rparr>\<rparr>"

lemma reply_status_witness:
  "\<exists>w s'. Handler (toy_env toy_low_status 0) \<lparr>ac_JWKSUrl = [], ac_Issuer = []\<rparr>
       \<lparr>rq_method = ''GET'', rq_path = ''/v1/status/j1'', rq_escaped = ''/v1/status/j1'', rq_header = [],
        rq_body = \<lparr>st_data = [], st_end = EOF\<rparr>\<rparr> (new_writer, toy_state) = (w, s') \<and>
     rw_status w = None \<and> rw_aborted w"
proof -
  let ?r = "\<lparr>rq_method = ''GET'', rq_path = ''/v1/status/j1'', rq_escaped = ''/v1/status/j1'', rq_header = [],
        rq_body = \<lparr>st_data = [], st_end = EOF\<rparr>\<rparr>"
  let ?E = "toy_env toy_low_status 0"
  obtain w s' where h: "Handler ?E \<lparr>ac_JWKSUrl = [], ac_Issuer = []\<rparr> ?r (new_writer, toy_state) = (w, s')"
    by fastforce
  have "mux_find server_routes ?r = Run Status [(''job_id'', ''j1'')]"
    by (simp add: route_eval)
  then have "relayed ?E (w, s')"
    using reply_status [OF h] by (simp add: mux_replies_def passes_on_def answers_def)
  then have "rw_status w = None \<and> rw_aborted w"
    by (auto simp: relayed_def toy_env_def toy_low_status_def)
  then show ?thesis
    using h by blast
qed

end
