(* ===== verification/Lifecycle.thy ===== *)
theory Lifecycle
  imports Server_Main Simulation
begin

text \<open>
  The life of the server process (\<open>cmd/buffer-tee/main.go\<close> from \<open>httpSrv\<close> on): the main goroutine
  in \<open>ListenAndServeTLS\<close>, the goroutine that waits for the signal and calls \<open>Shutdown\<close>, the rotator,
  the open connections and the clock.

  Of \<open>net/http\<close> this uses what its documentation says: \<open>Shutdown\<close> first closes the listener, then
  waits until no connection is active, and returns the error of the close, or the error of its context if
  that ends before; as soon as it is called, \<open>ListenAndServeTLS\<close> returns \<open>ErrServerClosed\<close>.  When \<open>main\<close>
  returns the process ends, whatever the other goroutines are doing.

  A connection may stay open for ever (a handler waits for a peer that never answers, see theory \<open>Http\<close>):
  no step has to be taken unless a fairness condition says so.
\<close>

section \<open>The configuration of the server\<close>

record server_config =
  sf_Addr :: string
  sf_Certificate :: "string \<times> string"
  sf_MinVersion :: string
  sf_ReadTimeout :: int
  sf_WriteTimeout :: int
  sf_IdleTimeout :: int

definition http_server :: "running \<Rightarrow> server_config" where
  "http_server run =
     \<lparr>sf_Addr = '':8443'', sf_Certificate = rn_certificate run, sf_MinVersion = ''TLS 1.3'',
      sf_ReadTimeout = 600 * second, sf_WriteTimeout = 600 * second, sf_IdleTimeout = 60 * second\<rparr>"

definition shutdown_timeout :: int where
  "shutdown_timeout = 10 * second"

section \<open>The process\<close>

datatype shutdown_pc = ShWaiting | ShDraining | ShReturned "unit result"

datatype main_pc = Serving | Exited "string option"

text \<open>
  \<open>ps_open\<close> counts the connections the server has accepted and not closed yet; what happens on them
  is the subject of theory \<open>Concurrent\<close>.  \<open>ps_now\<close> is the clock, \<open>ps_deadline\<close> the end of the context of
  \<open>Shutdown\<close> once that has been called.
\<close>

record process =
  ps_main :: main_pc
  ps_shutdown :: shutdown_pc
  ps_rotating :: bool
  ps_signalled :: bool
  ps_listening :: bool
  ps_open :: nat
  ps_now :: int
  ps_deadline :: int
  ps_log :: "string list"

definition logs :: "string \<Rightarrow> process \<Rightarrow> process" where
  "logs msg p = p\<lparr>ps_log := ps_log p @ [msg]\<rparr>"

definition launched :: process where
  "launched = \<lparr>ps_main = Serving, ps_shutdown = ShWaiting, ps_rotating = True, ps_signalled = False,
     ps_listening = True, ps_open = 0, ps_now = 0, ps_deadline = 0,
     ps_log = [''buffer-tee: listening on :8443 (TLS 1.3)'']\<rparr>"

definition DeadlineExceeded :: go_error where
  "DeadlineExceeded = Lib (LibError ''context deadline exceeded'')"

text \<open>
  Who takes a step: the main goroutine after \<open>ListenAndServeTLS\<close> has returned \<open>ErrServerClosed\<close>, the
  goroutine of \<open>Shutdown\<close>, the rotator, or the world (peers, handlers, the signal, the clock, a failing
  listener).  Every step needs a live process.  \<open>Exited None\<close> is a return of \<open>main\<close>, \<open>Exited (Some msg)\<close>
  a call of \<open>log.Fatalf\<close>.
\<close>

datatype agent = MainGoroutine | ShutdownGoroutine | RotatorGoroutine | World

inductive proc_act :: "(lib_error \<Rightarrow> string) \<Rightarrow> agent \<Rightarrow> process \<Rightarrow> process \<Rightarrow> bool" for lt where
  elapse:
    "ps_main p = Serving \<Longrightarrow> 0 < d \<Longrightarrow> proc_act lt World p (p\<lparr>ps_now := ps_now p + d\<rparr>)"
| accepted:
    "ps_main p = Serving \<Longrightarrow> ps_listening p \<Longrightarrow>
     proc_act lt World p (p\<lparr>ps_open := Suc (ps_open p)\<rparr>)"
| answered:
    "ps_main p = Serving \<Longrightarrow> ps_open p = Suc n \<Longrightarrow> proc_act lt World p (p\<lparr>ps_open := n\<rparr>)"
| signalled:
    "ps_main p = Serving \<Longrightarrow> \<not> ps_signalled p \<Longrightarrow> proc_act lt World p (p\<lparr>ps_signalled := True\<rparr>)"
| rotator_returns:
    "ps_main p = Serving \<Longrightarrow> ps_signalled p \<Longrightarrow> ps_rotating p \<Longrightarrow>
     proc_act lt RotatorGoroutine p (p\<lparr>ps_rotating := False\<rparr>)"
| shutdown_called:
    "ps_main p = Serving \<Longrightarrow> ps_signalled p \<Longrightarrow> ps_shutdown p = ShWaiting \<Longrightarrow>
     proc_act lt ShutdownGoroutine p
       (logs ''buffer-tee: shutting down...''
         (p\<lparr>ps_shutdown := ShDraining, ps_listening := False, ps_deadline := ps_now p + shutdown_timeout\<rparr>))"
| drained:
    "ps_main p = Serving \<Longrightarrow> ps_shutdown p = ShDraining \<Longrightarrow> ps_open p = 0 \<Longrightarrow>
     proc_act lt ShutdownGoroutine p (p\<lparr>ps_shutdown := ShReturned (Inr ())\<rparr>)"
| close_failed:
    "ps_main p = Serving \<Longrightarrow> ps_shutdown p = ShDraining \<Longrightarrow> ps_open p = 0 \<Longrightarrow>
     proc_act lt ShutdownGoroutine p
       (logs (''buffer-tee: shutdown error: '' @ err_text lt err) (p\<lparr>ps_shutdown := ShReturned (Inl err)\<rparr>))"
| timed_out:
    "ps_main p = Serving \<Longrightarrow> ps_shutdown p = ShDraining \<Longrightarrow> ps_deadline p \<le> ps_now p \<Longrightarrow>
     proc_act lt ShutdownGoroutine p
       (logs (''buffer-tee: shutdown error: '' @ err_text lt DeadlineExceeded)
         (p\<lparr>ps_shutdown := ShReturned (Inl DeadlineExceeded)\<rparr>))"
| serve_closed:
    "ps_main p = Serving \<Longrightarrow> \<not> ps_listening p \<Longrightarrow>
     proc_act lt MainGoroutine p (logs ''buffer-tee: stopped'' (p\<lparr>ps_main := Exited None\<rparr>))"
| serve_failed:
    "ps_main p = Serving \<Longrightarrow> ps_listening p \<Longrightarrow>
     proc_act lt World p (p\<lparr>ps_main := Exited (Some (''buffer-tee: server error: '' @ err_text lt err))\<rparr>)"

inductive_cases proc_actE: "proc_act lt a p q"

definition proc_step :: "(lib_error \<Rightarrow> string) \<Rightarrow> process \<Rightarrow> process \<Rightarrow> bool" where
  "proc_step lt p q \<longleftrightarrow> (\<exists>a. proc_act lt a p q)"

lemma proc_stepI: "proc_act lt a p q \<Longrightarrow> proc_step lt p q"
  by (auto simp: proc_step_def)

section \<open>What always holds\<close>

text \<open>
  The listener is open exactly until \<open>Shutdown\<close> was called, which takes the signal.  \<open>main\<close> returns only
  after that call and fails only before it.  \<open>Shutdown\<close> returns without an open connection or not before its
  deadline.
\<close>

definition proc_inv :: "process \<Rightarrow> bool" where
  "proc_inv p \<longleftrightarrow>
     (ps_listening p \<longleftrightarrow> ps_shutdown p = ShWaiting) \<and>
     (ps_shutdown p \<noteq> ShWaiting \<longrightarrow> ps_signalled p) \<and>
     (ps_main p = Exited None \<longrightarrow> ps_shutdown p \<noteq> ShWaiting) \<and>
     (\<forall>msg. ps_main p = Exited (Some msg) \<longrightarrow> ps_shutdown p = ShWaiting) \<and>
     (\<forall>res. ps_shutdown p = ShReturned res \<longrightarrow>
        ps_open p = 0 \<or> res = Inl DeadlineExceeded \<and> ps_deadline p \<le> ps_now p)"

lemma proc_act_inv: "proc_act lt a p q \<Longrightarrow> proc_inv p \<Longrightarrow> proc_inv q"
  by (induction rule: proc_act.induct) (auto simp: proc_inv_def logs_def)

lemma proc_step_inv: "proc_step lt p q \<Longrightarrow> proc_inv p \<Longrightarrow> proc_inv q"
  by (auto simp: proc_step_def proc_act_inv)

interpretation process: invariant_system "proc_step lt" proc_inv
  by unfold_locales (rule proc_step_inv)

lemma launched_inv: "proc_inv launched"
  by (simp add: proc_inv_def launched_def)

text \<open>The signal stays, and a call of \<open>Shutdown\<close> is not taken back.\<close>

lemma proc_step_persist:
  "proc_step lt p q \<Longrightarrow> (ps_signalled p \<longrightarrow> ps_signalled q) \<and> (ps_shutdown p \<noteq> ShWaiting \<longrightarrow> ps_shutdown q \<noteq> ShWaiting)"
  by (auto simp: proc_step_def logs_def elim!: proc_actE)

lemma shutdown_act: "proc_act lt ShutdownGoroutine p q \<Longrightarrow> ps_shutdown q \<noteq> ShWaiting"
  by (auto simp: logs_def elim!: proc_actE)

section \<open>Runs and fairness\<close>

text \<open>
  A run takes one step after the other and may pause.  It is fair to an agent if the agent does not wait
  for ever while it could always take a step: the Go scheduler runs a goroutine that is ready.
\<close>

definition proc_run :: "(lib_error \<Rightarrow> string) \<Rightarrow> (nat \<Rightarrow> process) \<Rightarrow> bool" where
  "proc_run lt f \<longleftrightarrow> f 0 = launched \<and> (\<forall>n. f (Suc n) = f n \<or> proc_step lt (f n) (f (Suc n)))"

definition fair_to :: "(lib_error \<Rightarrow> string) \<Rightarrow> agent \<Rightarrow> (nat \<Rightarrow> process) \<Rightarrow> bool" where
  "fair_to lt a f \<longleftrightarrow> (\<forall>n. \<exists>m \<ge> n. (\<exists>q. proc_act lt a (f m) q) \<longrightarrow> proc_act lt a (f m) (f (Suc m)))"

lemma run_inv: "proc_run lt f \<Longrightarrow> proc_inv (f n)"
proof (induction n)
  case (Suc n)
  then show ?case
    using proc_step_inv unfolding proc_run_def by metis
qed (simp add: proc_run_def launched_inv)

lemma run_persist:
  assumes "proc_run lt f" and "n \<le> m"
  shows "(ps_signalled (f n) \<longrightarrow> ps_signalled (f m)) \<and>
    (ps_shutdown (f n) \<noteq> ShWaiting \<longrightarrow> ps_shutdown (f m) \<noteq> ShWaiting)"
  using assms(2)
proof (induction m rule: dec_induct)
  case (step m)
  then show ?case
    using assms(1) proc_step_persist [of lt "f m" "f (Suc m)"] unfolding proc_run_def by metis
qed simp

lemma fair_taken:
  assumes "fair_to lt a f" and "\<And>m. n \<le> m \<Longrightarrow> \<exists>q. proc_act lt a (f m) q"
  obtains m where "n \<le> m" "proc_act lt a (f m) (f (Suc m))"
  using assms unfolding fair_to_def by blast

lemma shutdown_is_called:
  assumes "proc_run lt f" and "fair_to lt ShutdownGoroutine f" and "ps_signalled (f n)"
    and "\<And>m. ps_main (f m) = Serving"
  obtains k where "ps_shutdown (f k) \<noteq> ShWaiting"
proof (rule ccontr)
  assume "\<not> thesis"
  then have w: "ps_shutdown (f k) = ShWaiting" for k
    using that by blast
  have "\<exists>q. proc_act lt ShutdownGoroutine (f m) q" if "n \<le> m" for m
    using proc_act.shutdown_called [OF assms(4) _ w] run_persist [OF assms(1) that] assms(3) by blast
  then obtain m where "proc_act lt ShutdownGoroutine (f m) (f (Suc m))"
    using fair_taken [OF assms(2)] by blast
  then show False
    using w shutdown_act by blast
qed

lemma main_returns:
  assumes "proc_run lt f" and "fair_to lt MainGoroutine f" and "ps_shutdown (f k) \<noteq> ShWaiting"
    and "\<And>m. ps_main (f m) = Serving"
  obtains m where "ps_main (f m) = Exited None"
proof -
  have "\<not> ps_listening (f m)" if "k \<le> m" for m
    using run_persist [OF assms(1) that] assms(3) run_inv [OF assms(1), of m] by (simp add: proc_inv_def)
  then obtain m where "proc_act lt MainGoroutine (f m) (f (Suc m))"
    using fair_taken [OF assms(2)] proc_act.serve_closed [OF assms(4)] by metis
  then have "ps_main (f (Suc m)) = Exited None"
    by (auto simp: logs_def elim!: proc_actE)
  then show thesis by (rule that)
qed

section \<open>The properties\<close>

text \<open>
  C27: the signal stops the server, whatever the handlers do.  In every run in which the Go scheduler is fair
  to the goroutine of \<open>Shutdown\<close> and to the main goroutine, once the signal has arrived \<open>main\<close> returns
  normally, after the call of \<open>Shutdown\<close>; the only way out of this is that the listener fails before that
  call.  Handlers may hang, so that their connections are never closed, and the rotator and the
  clock need not take another step.
\<close>

theorem signal_stops:
  assumes "proc_run lt f" and "fair_to lt ShutdownGoroutine f" and "fair_to lt MainGoroutine f"
    and "ps_signalled (f n)"
  shows "\<exists>m. (ps_main (f m) = Exited None \<and> ps_shutdown (f m) \<noteq> ShWaiting) \<or>
    (\<exists>msg. ps_main (f m) = Exited (Some msg) \<and> ps_shutdown (f m) = ShWaiting)"
proof (rule ccontr)
  assume no: "\<not> ?thesis"
  have serving: "ps_main (f m) = Serving" for m
  proof (cases "ps_main (f m)")
    case (Exited e)
    then have False
      using no run_inv [OF assms(1), of m] by (cases e) (auto simp: proc_inv_def)
    then show ?thesis ..
  qed
  obtain k where k: "ps_shutdown (f k) \<noteq> ShWaiting"
    using shutdown_is_called [OF assms(1,2,4) serving] by blast
  obtain m where "ps_main (f m) = Exited None"
    using main_returns [OF assms(1,3) k serving] by blast
  then show False
    using serving [of m] by simp
qed

text \<open>
  The server stops on request only.  When \<open>main\<close> has returned normally, the signal had
  arrived and \<open>Shutdown\<close> had been called, so that no connection was accepted afterwards.
\<close>

theorem stops_on_signal:
  assumes "reaches (proc_step lt) launched p" and "ps_main p = Exited None"
  shows "ps_signalled p \<and> ps_shutdown p \<noteq> ShWaiting \<and> \<not> ps_listening p"
  using process.inv_reaches [OF assms(1) launched_inv] assms(2) by (auto simp: proc_inv_def)

text \<open>
  What \<open>Shutdown\<close> returns with: nothing is open any more, or its ten seconds are over and it says so.
\<close>

theorem shutdown_result:
  assumes "reaches (proc_step lt) launched p" and "ps_shutdown p = ShReturned res"
  shows "ps_open p = 0 \<or> res = Inl DeadlineExceeded \<and> ps_deadline p \<le> ps_now p"
  using process.inv_reaches [OF assms(1) launched_inv] assms(2) by (auto simp: proc_inv_def)

text \<open>One run: connections are accepted, the signal arrives, \<open>main\<close> returns.\<close>

definition cut_off :: "nat \<Rightarrow> process" where
  "cut_off n = \<lparr>ps_main = Exited None, ps_shutdown = ShDraining, ps_rotating = True, ps_signalled = True,
     ps_listening = False, ps_open = n, ps_now = 0, ps_deadline = shutdown_timeout,
     ps_log = [''buffer-tee: listening on :8443 (TLS 1.3)'', ''buffer-tee: shutting down...'',
       ''buffer-tee: stopped'']\<rparr>"

lemma busy_reachable: "reaches (proc_step lt) launched (launched\<lparr>ps_open := n\<rparr>)"
proof (induction n)
  case 0
  have "launched\<lparr>ps_open := 0\<rparr> = launched"
    by (simp add: launched_def)
  then show ?case by auto
next
  case (Suc n)
  have "proc_step lt (launched\<lparr>ps_open := n\<rparr>) (launched\<lparr>ps_open := Suc n\<rparr>)"
    by (rule proc_stepI [of _ World]) (use proc_act.accepted [of "launched\<lparr>ps_open := n\<rparr>" lt] in \<open>simp add: launched_def\<close>)
  with Suc show ?case by (rule reaches_step)
qed

text \<open>The last three steps of the run.\<close>

definition warned :: "nat \<Rightarrow> process" where
  "warned n = launched\<lparr>ps_open := n, ps_signalled := True\<rparr>"

definition draining :: "nat \<Rightarrow> process" where
  "draining n = logs ''buffer-tee: shutting down...''
     ((warned n)\<lparr>ps_shutdown := ShDraining, ps_listening := False, ps_deadline := shutdown_timeout\<rparr>)"

lemmas stages = warned_def draining_def cut_off_def launched_def logs_def

lemma last_steps:
  "proc_act lt World (launched\<lparr>ps_open := n\<rparr>) (warned n)"
  "proc_act lt ShutdownGoroutine (warned n) (draining n)"
  "proc_act lt MainGoroutine (draining n) (cut_off n)"
  using proc_act.signalled [of "launched\<lparr>ps_open := n\<rparr>" lt] proc_act.shutdown_called [of "warned n" lt]
    proc_act.serve_closed [of "draining n" lt]
  by (simp_all add: stages)

lemma cut_off_reachable: "reaches (proc_step lt) launched (cut_off n)"
  by (rule reaches_step [OF reaches_step [OF reaches_step [OF busy_reachable]]])
    (rule last_steps [THEN proc_stepI])+

lemma stops_on_signal_witness: "ps_signalled (cut_off 1) \<and> \<not> ps_listening (cut_off 1)"
  using stops_on_signal [OF cut_off_reachable [of "\<lambda>_. []" 1]] by (simp add: cut_off_def)

text \<open>A run with a connection that is never closed.\<close>

definition hanging :: "nat \<Rightarrow> process" where
  "hanging n =
     (if n = 0 then launched else if n = 1 then launched\<lparr>ps_open := 1\<rparr> else if n = 2 then warned 1
      else if n = 3 then draining 1 else cut_off 1)"

lemma hanging_run: "proc_run lt hanging"
proof -
  have "proc_step lt launched (launched\<lparr>ps_open := 1\<rparr>)"
    by (rule proc_stepI [of _ World]) (use proc_act.accepted [of launched lt] in \<open>simp add: launched_def\<close>)
  then show ?thesis
    using last_steps [of lt 1, THEN proc_stepI] by (auto simp: proc_run_def hanging_def)
qed

lemma hanging_fair: "fair_to lt a hanging"
proof -
  have "\<not> proc_act lt a (hanging m) q" if "4 \<le> m" for m q
    using that by (auto simp: hanging_def cut_off_def elim!: proc_actE)
  then show ?thesis
    unfolding fair_to_def by (metis nat_le_linear)
qed

lemma signal_stops_witness: "\<exists>m. ps_main (hanging m) = Exited None \<and> ps_open (hanging m) = 1"
proof -
  have "ps_signalled (hanging 2)"
    by (simp add: hanging_def stages)
  from signal_stops [OF hanging_run [of "\<lambda>_. []"] hanging_fair hanging_fair this]
  obtain m where "ps_main (hanging m) \<noteq> Serving"
    by fastforce
  then show ?thesis
    by (intro exI [of _ m]) (auto simp: hanging_def stages split: if_splits)
qed

lemma shutdown_result_witness: "ps_open (draining 0\<lparr>ps_shutdown := ShReturned (Inr ())\<rparr>) = 0"
proof -
  let ?p = "draining 0\<lparr>ps_shutdown := ShReturned (Inr ())\<rparr>"
  have "proc_act (\<lambda>_. []) ShutdownGoroutine (draining 0) ?p"
    by (rule proc_act.drained) (simp_all add: stages)
  then have "reaches (proc_step (\<lambda>_. [])) launched ?p"
    using reaches_step [OF reaches_step [OF busy_reachable last_steps(1) [THEN proc_stepI]]
        last_steps(2) [THEN proc_stepI]] proc_stepI
    by blast
  from shutdown_result [OF this, of "Inr ()"] show ?thesis by simp
qed

text \<open>
  C32: the shutdown does not wait for requests in flight.  With any number of open connections,
  \<open>main\<close> can return while \<open>Shutdown\<close> is still draining and its time has not run out: \<open>ListenAndServeTLS\<close> returns
  at once, and \<open>main\<close> does not wait for the goroutine that called \<open>Shutdown\<close>.
\<close>

theorem shutdown_drops_requests:
  "\<exists>p. reaches (proc_step lt) launched p \<and> ps_main p = Exited None \<and> ps_shutdown p = ShDraining \<and>
       ps_open p = n \<and> ps_now p < ps_deadline p"
  using cut_off_reachable [of lt n]
  by (intro exI [of _ "cut_off n"]) (simp add: cut_off_def shutdown_timeout_def second_def)

end
