(* ===== verification/Ratls.thy ===== *)
theory Ratls
  imports Jwks
begin

text \<open>
  \<open>b2p-ratls/pkg/ratls\<close>: the RA-TLS client.  It exports keying material from its TLS session, asks
  the peer for an attestation token over that session, verifies the token and compares its claims
  with the session and the pinned values.

  Third-party code is an argument: \<open>jwt_lib\<close> holds the parser of \<open>golang-jwt/jwt/v4\<close> and the
  method \<open>VerifyExpiresAt\<close> of its map claims.  A TLS connection is its exporter and the exchange of
  requests over it.
\<close>

section \<open>types.go and ekm.go\<close>

definition EKMLabel :: string where
  "EKMLabel = ''EXPORTER-ratls/v1''"

definition EKMLength :: nat where
  "EKMLength = 32"

definition ConnectPath :: string where
  "ConnectPath = ''/ratls/connect''"

definition GCPCSIssuer :: string where
  "GCPCSIssuer = ''https://confidentialcomputing.googleapis.com''"

definition WellKnownPath :: string where
  "WellKnownPath = ''/.well-known/openid-configuration''"

definition GCPCSJwksURL :: string where
  "GCPCSJwksURL =
     ''https://www.googleapis.com/service_accounts/v1/metadata/jwk/signer@confidentialspace-sign.iam.gserviceaccount.com''"

definition TDXHWModelPrefix :: string where
  "TDXHWModelPrefix = ''GCP_INTEL_TDX''"

definition SEVHWModelPrefix :: string where
  "SEVHWModelPrefix = ''GCP_AMD_SEV''"

definition CSSwName :: string where
  "CSSwName = ''CONFIDENTIAL_SPACE''"

text \<open>The claims of a token, and the same six fields as the test mode's bundle carries them.\<close>

record OIDCClaims =
  oc_EatNonce :: string
  oc_HWModel :: string
  oc_ImageDigest :: string
  oc_SwName :: string
  oc_Issuer :: string
  oc_Audience :: string

type_synonym TestModeClaims = OIDCClaims

definition TestModeClaims_zero :: TestModeClaims where
  "TestModeClaims_zero =
     \<lparr>oc_EatNonce = [], oc_HWModel = [], oc_ImageDigest = [], oc_SwName = [], oc_Issuer = [],
      oc_Audience = []\<rparr>"

definition TestModeClaims_fields :: "(string \<times> TestModeClaims setter) list" where
  "TestModeClaims_fields =
     [(''eat_nonce'', set_string (\<lambda>x r. r\<lparr>oc_EatNonce := x\<rparr>)),
      (''hwmodel'', set_string (\<lambda>x r. r\<lparr>oc_HWModel := x\<rparr>)),
      (''image_digest'', set_string (\<lambda>x r. r\<lparr>oc_ImageDigest := x\<rparr>)),
      (''swname'', set_string (\<lambda>x r. r\<lparr>oc_SwName := x\<rparr>)),
      (''iss'', set_string (\<lambda>x r. r\<lparr>oc_Issuer := x\<rparr>)),
      (''aud'', set_string (\<lambda>x r. r\<lparr>oc_Audience := x\<rparr>))]"

record AttestationBundle =
  at_OIDCToken :: string
  at_TestModeClaims :: "TestModeClaims option"

definition AttestationBundle_fields :: "(string \<times> AttestationBundle setter) list" where
  "AttestationBundle_fields =
     [(''oidc_token'', set_string (\<lambda>x r. r\<lparr>at_OIDCToken := x\<rparr>)),
      (''test_mode_claims'', set_pointer TestModeClaims_fields TestModeClaims_zero at_TestModeClaims
                               (\<lambda>x r. r\<lparr>at_TestModeClaims := x\<rparr>))]"

definition parse_attestation_bundle :: "bytes \<Rightarrow> AttestationBundle result" where
  "parse_attestation_bundle =
     json_unmarshal (decode_struct AttestationBundle_fields) \<lparr>at_OIDCToken = [], at_TestModeClaims = None\<rparr>"

record VerificationOptions =
  vo_Audience :: string
  vo_ExpectedImageDigest :: string
  vo_TokenLeeway :: int

text \<open>\<open>ConnectionState.ExportKeyingMaterial(label, nil, length)\<close>\<close>

type_synonym exporter = "string \<Rightarrow> nat \<Rightarrow> bytes result"

definition em_dash :: string where
  "em_dash = [CHR 0xE2, CHR 0x80, CHR 0x94]"

definition ExtractEKM :: "exporter option \<Rightarrow> bytes result" where
  "ExtractEKM state =
     (case state of
        None \<Rightarrow> Inl (Errorf (''ratls/ekm: TLS state is nil '' @ em_dash @ '' handshake not complete''))
      | Some export \<Rightarrow> wrap_err ''ratls/ekm: ExportKeyingMaterial'' (export EKMLabel EKMLength))"

definition EKMNonce :: "bytes \<Rightarrow> string" where
  "EKMNonce ekm = b64_encode RawURLEncoding (sha256 ekm)"

section \<open>verify_oidc.go: keys\<close>

record jwk =
  rk_N :: string
  rk_E :: string
  rk_Kid :: string

definition jwk_zero :: jwk where
  "jwk_zero = \<lparr>rk_N = [], rk_E = [], rk_Kid = []\<rparr>"

definition jwk_fields :: "(string \<times> jwk setter) list" where
  "jwk_fields =
     [(''n'', set_string (\<lambda>x r. r\<lparr>rk_N := x\<rparr>)), (''e'', set_string (\<lambda>x r. r\<lparr>rk_E := x\<rparr>)),
      (''kid'', set_string (\<lambda>x r. r\<lparr>rk_Kid := x\<rparr>))]"

definition jwksFile_fields :: "(string \<times> jwk list setter) list" where
  "jwksFile_fields =
     [(''keys'', set_slice (decode_struct jwk_fields) jwk_zero (\<lambda>r. r) (\<lambda>x _. x))]"

text \<open>\<open>int(e.Int64())\<close>: the low 64 bits.\<close>

definition buildRSAPublicKey :: "string \<Rightarrow> string \<Rightarrow> rsa_key result" where
  "buildRSAPublicKey nStr eStr =
     (case b64_decode RawURLEncoding nStr of
        Inl err \<Rightarrow> Inl (Wrapf ''decode N'' err)
      | Inr nBytes \<Rightarrow>
          (case b64_decode RawURLEncoding eStr of
             Inl err \<Rightarrow> Inl (Wrapf ''decode E'' err)
           | Inr eBytes \<Rightarrow> Inr \<lparr>rsa_N = be_value nBytes, rsa_E = of_nat (be_value eBytes)\<rparr>))"

fun select_key :: "(nat \<Rightarrow> bool) \<Rightarrow> string \<Rightarrow> jwk list \<Rightarrow> rsa_key result" where
  "select_key pr kid [] = Inl (Errorf (''key with kid='' @ go_quote pr kid @ '' not found in JWKS''))"
| "select_key pr kid (k # ks) =
     (if rk_Kid k \<noteq> kid then select_key pr kid ks else buildRSAPublicKey (rk_N k) (rk_E k))"

text \<open>The header of a parsed token: the method's kind, and \<open>kid\<close> (empty unless a string).\<close>

record jwt_token_head =
  th_rsa_method :: bool
  th_alg :: string
  th_kid :: string

definition getRSAPublicKeyFromJWKS :: "(nat \<Rightarrow> bool) \<Rightarrow> net \<Rightarrow> jwt_token_head \<Rightarrow> rsa_key result" where
  "getRSAPublicKeyFromJWKS pr net t =
     (case net (get_request GCPCSJwksURL) of
        Inl err \<Rightarrow> Inl (Wrapf ''fetch JWKS'' err)
      | Inr resp \<Rightarrow>
          (case read_all (pr_body resp) of
             Inl err \<Rightarrow> Inl (Wrapf ''read JWKS'' err)
           | Inr jwksBytes \<Rightarrow>
               (case json_unmarshal (decode_struct jwksFile_fields) [] jwksBytes of
                  Inl err \<Rightarrow> Inl (Wrapf ''unmarshal JWKS'' err)
                | Inr keys \<Rightarrow> select_key pr (th_kid t) keys)))"

text \<open>\<open>getWellKnown\<close>, which nothing calls: the key set URL is pinned instead.\<close>

definition wellKnown_fields :: "(string \<times> string setter) list" where
  "wellKnown_fields = [(''jwks_uri'', set_string (\<lambda>x _. x))]"

definition getWellKnown :: "net \<Rightarrow> string result" where
  "getWellKnown net =
     (case net (get_request (GCPCSIssuer @ WellKnownPath)) of
        Inl err \<Rightarrow> Inl (Wrapf ''fetch well-known'' err)
      | Inr resp \<Rightarrow>
          (case read_all (pr_body resp) of
             Inl err \<Rightarrow> Inl (Wrapf ''read well-known'' err)
           | Inr b \<Rightarrow>
               (case json_unmarshal (decode_struct wellKnown_fields) [] b of
                  Inl err \<Rightarrow> Inl (Wrapf ''unmarshal well-known'' err)
                | Inr uri \<Rightarrow>
                    (if uri = [] then Inl (Errorf ''well-known missing jwks_uri'') else Inr uri))))"

section \<open>verify_oidc.go: claims\<close>

text \<open>\<open>jwt.MapClaims\<close>: a map from claim names to decoded JSON.\<close>

type_synonym claims = "string \<Rightarrow> json option"

text \<open>\<open>s, _ := claims[name].(string)\<close>\<close>

definition claim_string :: "claims \<Rightarrow> string \<Rightarrow> string" where
  "claim_string claims n = (case claims n of Some (JStr s) \<Rightarrow> s | _ \<Rightarrow> [])"

text \<open>A member of a decoded JSON object; a later duplicate wins.\<close>

definition member :: "(string \<times> json) list \<Rightarrow> string \<Rightarrow> json option" where
  "member ms k = map_of (rev ms) k"

definition extractEatNonce :: "claims \<Rightarrow> string result" where
  "extractEatNonce claims =
     (case claims ''eat_nonce'' of
        None \<Rightarrow> Inl (Errorf ''eat_nonce claim missing'')
      | Some (JStr v) \<Rightarrow> Inr v
      | Some (JArr []) \<Rightarrow> Inl (Errorf ''eat_nonce array is empty'')
      | Some (JArr (JStr s # _)) \<Rightarrow> Inr s
      | Some (JArr _) \<Rightarrow> Inl (Errorf ''eat_nonce[0] is not a string'')
      | Some raw \<Rightarrow> Inl (Errorf (''eat_nonce has unexpected type '' @ go_type_name raw)))"

definition extractImageDigest :: "claims \<Rightarrow> string result" where
  "extractImageDigest claims =
     (case claims ''submods'' of
        Some (JObj submods) \<Rightarrow>
          (case member submods ''container'' of
             Some (JObj container) \<Rightarrow>
               (case member container ''image_digest'' of
                  Some (JStr digest) \<Rightarrow>
                    if digest = [] then Inl (Errorf ''submods.container.image_digest missing'')
                    else Inr digest
                | _ \<Rightarrow> Inl (Errorf ''submods.container.image_digest missing''))
           | _ \<Rightarrow> Inl (Errorf ''submods.container missing or wrong type''))
      | _ \<Rightarrow> Inl (Errorf ''submods claim missing or wrong type''))"

text \<open>An element that is no string counts as the empty string.\<close>

fun aud_contains :: "string \<Rightarrow> json list \<Rightarrow> bool" where
  "aud_contains expected [] = False"
| "aud_contains expected (a # as) =
     (if (case a of JStr s \<Rightarrow> s | _ \<Rightarrow> []) = expected then True else aud_contains expected as)"

definition check_aud :: "(nat \<Rightarrow> bool) \<Rightarrow> claims \<Rightarrow> string \<Rightarrow> unit result" where
  "check_aud pr claims expected =
     (case claims ''aud'' of
        Some (JStr aud) \<Rightarrow>
          if aud \<noteq> expected
          then Inl (Errorf (''ratls/verify_oidc: aud '' @ go_quote pr aud @ '' != expected ''
                      @ go_quote pr expected))
          else Inr ()
      | Some (JArr aud) \<Rightarrow>
          if \<not> aud_contains expected aud
          then Inl (Errorf (''ratls/verify_oidc: aud does not contain '' @ go_quote pr expected))
          else Inr ()
      | _ \<Rightarrow> Inl (Errorf ''ratls/verify_oidc: aud claim missing or wrong type''))"

section \<open>verify_oidc.go: the token\<close>

record parsed_token =
  pt_Valid :: bool
  pt_Claims :: "claims option"

text \<open>
  \<open>jl_parse methods keyFunc token\<close> is \<open>ParseWithClaims\<close> of a parser restricted to \<open>methods\<close> and
  without claims validation; the claims are \<open>None\<close> if they are no map.
\<close>

record jwt_lib =
  jl_parse :: "string list \<Rightarrow> (jwt_token_head \<Rightarrow> rsa_key result) \<Rightarrow> string \<Rightarrow> parsed_token result"
  jl_VerifyExpiresAt :: "claims \<Rightarrow> int \<Rightarrow> bool \<Rightarrow> bool"

definition key_func :: "(nat \<Rightarrow> bool) \<Rightarrow> net \<Rightarrow> jwt_token_head \<Rightarrow> rsa_key result" where
  "key_func pr net t =
     (if \<not> th_rsa_method t then Inl (Errorf (''unexpected signing method: '' @ th_alg t))
      else getRSAPublicKeyFromJWKS pr net t)"

definition VerifyOIDCToken ::
  "(nat \<Rightarrow> bool) \<Rightarrow> jwt_lib \<Rightarrow> net \<Rightarrow> int \<Rightarrow> string \<Rightarrow> string \<Rightarrow> int \<Rightarrow> OIDCClaims result" where
  "VerifyOIDCToken pr jl net now tokenString expectedAudience leeway =
     (case jl_parse jl [''RS256''] (key_func pr net) tokenString of
        Inl err \<Rightarrow> Inl (Wrapf ''ratls/verify_oidc: parse token'' err)
      | Inr token \<Rightarrow>
     (if \<not> pt_Valid token then Inl (Errorf ''ratls/verify_oidc: token not valid'')
      else
     (case pt_Claims token of
        None \<Rightarrow> Inl (Errorf ''ratls/verify_oidc: unexpected claims type'')
      | Some claims \<Rightarrow>
     (if \<not> jl_VerifyExpiresAt jl claims (unix_seconds (now - leeway)) True
      then Inl (Errorf ''ratls/verify_oidc: token expired'')
      else
     (let iss = claim_string claims ''iss'' in
      if iss \<noteq> GCPCSIssuer
      then Inl (Errorf (''ratls/verify_oidc: iss '' @ go_quote pr iss @ '' != expected ''
                  @ go_quote pr GCPCSIssuer))
      else
     (case check_aud pr claims expectedAudience of
        Inl err \<Rightarrow> Inl err
      | Inr _ \<Rightarrow>
     (case extractEatNonce claims of
        Inl err \<Rightarrow> Inl (Wrapf ''ratls/verify_oidc'' err)
      | Inr eatNonce \<Rightarrow>
     (let hwmodel = claim_string claims ''hwmodel'' in
      if hwmodel = [] then Inl (Errorf ''ratls/verify_oidc: hwmodel claim missing'')
      else
     (let swname = claim_string claims ''swname'' in
      case extractImageDigest claims of
        Inl err \<Rightarrow> Inl (Wrapf ''ratls/verify_oidc'' err)
      | Inr imageDigest \<Rightarrow>
          Inr \<lparr>oc_EatNonce = eatNonce, oc_HWModel = hwmodel, oc_ImageDigest = imageDigest,
               oc_SwName = swname, oc_Issuer = iss, oc_Audience = expectedAudience\<rparr>)))))))))"

section \<open>client.go\<close>

record tls_conn =
  tc_export :: exporter
  tc_exchange :: net

text \<open>The client of the session sends every request over the connection that was verified.\<close>

record VerifiedSession =
  vs_ContainerImageDigest :: string
  vs_HWModel :: string
  vs_Client :: net

definition newPinnedClient :: "tls_conn \<Rightarrow> net" where
  "newPinnedClient conn = tc_exchange conn"

definition Base64DecodeURLNoPad :: "string \<Rightarrow> bytes result" where
  "Base64DecodeURLNoPad s = b64_decode RawURLEncoding s"

text \<open>
  The connection a call has dialled; \<open>tlsConn.Close()\<close> of the code is \<open>Close\<close>.  What works with the
  connection takes its state and returns the new one.
\<close>

datatype conn_state = NotDialled | Open | Closed

fun Close :: "conn_state \<Rightarrow> conn_state" where
  "Close Open = Closed"
| "Close c = c"

record ratls_env =
  re_dial :: "string \<Rightarrow> tls_conn result"
  re_jwt :: jwt_lib
  re_net :: net
  re_now :: int
  re_test_mode :: bool
  re_is_print :: "nat \<Rightarrow> bool"
  re_check_url :: "string \<Rightarrow> unit result"

definition bundle_claims ::
  "ratls_env \<Rightarrow> AttestationBundle \<Rightarrow> string \<Rightarrow> int \<Rightarrow> conn_state \<Rightarrow> OIDCClaims result \<times> conn_state" where
  "bundle_claims R bundle audience leeway tlsConn =
     (case (re_test_mode R, at_TestModeClaims bundle) of
        (True, Some tm) \<Rightarrow> (Inr tm, tlsConn)
      | _ \<Rightarrow>
          (case VerifyOIDCToken (re_is_print R) (re_jwt R) (re_net R) (re_now R) (at_OIDCToken bundle)
                  audience leeway of
             Inl err \<Rightarrow> (Inl (Wrapf ''ratls/client: OIDC verification failed'' err), Close tlsConn)
           | Inr c \<Rightarrow> (Inr c, tlsConn)))"

definition check_session ::
  "ratls_env \<Rightarrow> OIDCClaims \<Rightarrow> string \<Rightarrow> VerificationOptions \<Rightarrow> conn_state \<Rightarrow> unit result \<times> conn_state" where
  "check_session R c expectedNonce opts tlsConn =
     (let q = go_quote (re_is_print R) in
      if oc_EatNonce c \<noteq> expectedNonce
      then (Inl (Errorf (''ratls/client: OIDC eat_nonce mismatch '' @ em_dash @ '' relay attack detected'')),
            Close tlsConn)
      else if \<not> has_prefix (oc_HWModel c) TDXHWModelPrefix \<and> \<not> has_prefix (oc_HWModel c) SEVHWModelPrefix
      then (Inl (Errorf (''ratls/client: hwmodel '' @ q (oc_HWModel c) @ '' is not TDX or SEV'')),
            Close tlsConn)
      else if oc_SwName c \<noteq> CSSwName
      then (Inl (Errorf (''ratls/client: swname '' @ q (oc_SwName c) @ '' != '' @ q CSSwName)),
            Close tlsConn)
      else if oc_Audience c \<noteq> [] \<and> oc_Audience c \<noteq> vo_Audience opts
      then (Inl (Errorf (''ratls/client: audience mismatch: got '' @ q (oc_Audience c) @ '' want ''
                  @ q (vo_Audience opts))),
            Close tlsConn)
      else if oc_ImageDigest c \<noteq> vo_ExpectedImageDigest opts
      then (Inl (Errorf (''ratls/client: image digest mismatch: got '' @ q (oc_ImageDigest c) @ '' want ''
                  @ q (vo_ExpectedImageDigest opts))),
            Close tlsConn)
      else (Inr (), tlsConn))"

definition fetch_bundle ::
  "ratls_env \<Rightarrow> net \<Rightarrow> string \<Rightarrow> conn_state \<Rightarrow> AttestationBundle result \<times> conn_state" where
  "fetch_bundle R client gpuCSAddr tlsConn =
     (let connectURL = ''https://'' @ gpuCSAddr @ ConnectPath in
      case re_check_url R connectURL of
        Inl err \<Rightarrow> (Inl (Wrapf ''ratls/client: build connect request'' err), Close tlsConn)
      | Inr _ \<Rightarrow>
        (case client (get_request connectURL) of
           Inl err \<Rightarrow> (Inl (Wrapf (''ratls/client: GET '' @ ConnectPath) err), Close tlsConn)
         | Inr resp \<Rightarrow>
             (if pr_status resp \<noteq> 200
              then (Inl (Errorf (''ratls/client: connect endpoint returned '' @ show_nat (pr_status resp))),
                    Close tlsConn)
              else
                (case read_all (pr_body resp) of
                   Inl err \<Rightarrow> (Inl (Wrapf ''ratls/client: read bundle'' err), Close tlsConn)
                 | Inr bodyBytes \<Rightarrow>
                     (case parse_attestation_bundle bodyBytes of
                        Inl err \<Rightarrow> (Inl (Wrapf ''ratls/client: parse bundle'' err), Close tlsConn)
                      | Inr bundle \<Rightarrow> (Inr bundle, tlsConn))))))"

definition default_leeway :: int where
  "default_leeway = 30 * second"

definition session_leeway :: "VerificationOptions \<Rightarrow> int" where
  "session_leeway opts = (if vo_TokenLeeway opts = 0 then default_leeway else vo_TokenLeeway opts)"

definition Connect ::
  "ratls_env \<Rightarrow> string \<Rightarrow> VerificationOptions option \<Rightarrow> VerifiedSession result \<times> conn_state" where
  "Connect R gpuCSAddr opts' =
     (case opts' of
        None \<Rightarrow> (Inl (Errorf ''ratls/client: opts required''), NotDialled)
      | Some opts \<Rightarrow>
          (let leeway = session_leeway opts in
           case re_dial R gpuCSAddr of
             Inl err \<Rightarrow> (Inl (Wrapf (''ratls/client: TLS dial '' @ gpuCSAddr) err), NotDialled)
           | Inr conn \<Rightarrow>
          (let tlsConn = Open in
           case ExtractEKM (Some (tc_export conn)) of
             Inl err \<Rightarrow> (Inl (Wrapf ''ratls/client: extract EKM'' err), Close tlsConn)
           | Inr ekm \<Rightarrow>
               (let expectedNonce = EKMNonce ekm; httpClient = newPinnedClient conn in
                case fetch_bundle R httpClient gpuCSAddr tlsConn of
                  (Inl err, tlsConn) \<Rightarrow> (Inl err, tlsConn)
                | (Inr bundle, tlsConn) \<Rightarrow>
               (case bundle_claims R bundle (vo_Audience opts) leeway tlsConn of
                  (Inl err, tlsConn) \<Rightarrow> (Inl err, tlsConn)
                | (Inr oidcClaims, tlsConn) \<Rightarrow>
               (case check_session R oidcClaims expectedNonce opts tlsConn of
                  (Inl err, tlsConn) \<Rightarrow> (Inl err, tlsConn)
                | (Inr _, tlsConn) \<Rightarrow>
                    (Inr \<lparr>vs_ContainerImageDigest = oc_ImageDigest oidcClaims,
                          vs_HWModel = oc_HWModel oidcClaims, vs_Client = httpClient\<rparr>, tlsConn)))))))"

end
