(* ===== verification/Dispatch_Main.thy ===== *)
theory Dispatch_Main
  imports Ratls
begin

text \<open>
  \<open>b2p-ratls/cmd/buffer-tee/main.go\<close>: read the configuration, connect under RA-TLS, and post the job
  payload over the verified session.  \<open>log.Fatal\<close> ends the process: the outcome is \<open>Fatal\<close> with the
  logged text.
\<close>

datatype main_outcome = Fatal string | Finished

definition getEnv :: "(string \<Rightarrow> string) \<Rightarrow> string \<Rightarrow> string \<Rightarrow> string" where
  "getEnv os key def = (let v = os key in if v \<noteq> [] then v else def)"

definition load_model_request :: "string \<Rightarrow> bytes \<Rightarrow> out_request" where
  "load_model_request gpuCSAddr bodyBytes =
     \<lparr>or_method = ''POST'', or_url = ''https://'' @ gpuCSAddr @ ''/api/load-model'',
      or_header = header_set ''Content-Type'' ''application/json'' [], or_body = bodyBytes\<rparr>"

text \<open>
  The payload is decoded only to log its \<open>job_id\<close>; what cannot be decoded is sent as it is.  The
  second component is what went over the session.
\<close>

definition uploadModelWeights ::
  "ratls_env \<Rightarrow> string \<Rightarrow> VerifiedSession \<Rightarrow> bytes result \<Rightarrow> unit result \<times> out_request list" where
  "uploadModelWeights R gpuCSAddr session file =
     (case file of
        Inl err \<Rightarrow> (Inl (Wrapf ''read payload'' err), [])
      | Inr bodyBytes \<Rightarrow>
          (let req = load_model_request gpuCSAddr bodyBytes in
           case re_check_url R (or_url req) of
             Inl err \<Rightarrow> (Inl (Wrapf ''build POST /api/load-model'' err), [])
           | Inr _ \<Rightarrow>
          (case vs_Client session req of
             Inl err \<Rightarrow> (Inl (Wrapf ''POST /api/load-model'' err), [req])
           | Inr resp \<Rightarrow>
               (if pr_status resp \<noteq> 200 \<and> pr_status resp \<noteq> 202
                then (Inl (Errorf (''gpu-cs returned unexpected status '' @ show_nat (pr_status resp))), [req])
                else (Inr (), [req])))))"

definition dispatch_options :: "(string \<Rightarrow> string) \<Rightarrow> VerificationOptions" where
  "dispatch_options os =
     \<lparr>vo_Audience = getEnv os ''RATLS_AUDIENCE'' ''ratls-buffer-tee'',
      vo_ExpectedImageDigest = getEnv os ''GPU_CS_IMAGE_DIGEST'' [],
      vo_TokenLeeway = 0\<rparr>"

definition dispatch_main ::
  "ratls_env \<Rightarrow> (lib_error \<Rightarrow> string) \<Rightarrow> (string \<Rightarrow> string) \<Rightarrow> (string \<Rightarrow> bytes result) \<Rightarrow>
   main_outcome \<times> out_request list" where
  "dispatch_main R lt os readFile =
     (let gpuCSAddr = getEnv os ''GPU_CS_ADDR'' ''gpu-cs.internal:443'';
          opts = dispatch_options os;
          jobPayloadPath = getEnv os ''JOB_PAYLOAD_PATH'' []
      in if vo_ExpectedImageDigest opts = []
         then (Fatal ''buffer-tee: GPU_CS_IMAGE_DIGEST must be set'', [])
         else if jobPayloadPath = [] then (Fatal ''buffer-tee: JOB_PAYLOAD_PATH must be set'', [])
         else
           (case fst (Connect R gpuCSAddr (Some opts)) of
              Inl err \<Rightarrow> (Fatal (''buffer-tee: RATLS failed: '' @ err_text lt err), [])
            | Inr session \<Rightarrow>
                (case uploadModelWeights R gpuCSAddr session (readFile jobPayloadPath) of
                   (Inl err, sent) \<Rightarrow> (Fatal (''buffer-tee: upload model: '' @ err_text lt err), sent)
                 | (Inr _, sent) \<Rightarrow> (Finished, sent))))"

end
