(* ===== verification/Ratls_Spec.thy ===== *)
theory Ratls_Spec
  imports Dispatch_Main Toy_Provider
begin

text \<open>
  What the RA-TLS client guarantees: when a session comes back, what was checked, and that the
  connection is closed in every other case; how the two builders of RSA keys relate; and that the
  payload leaves only over a verified session.
\<close>

section \<open>Verified tokens\<close>

text \<open>
  The documented behaviour of the JWT library: a parsed token has one of the allowed methods and a
  signature that verifies under the key the key function returned for its header, and
  \<open>VerifyExpiresAt(cmp, true)\<close> holds if the \<open>exp\<close> claim is present and not before \<open>cmp\<close>.  \<open>is_signed\<close> stands
  for the relation "this token is signed with this method under this key and has these claims".
\<close>

definition jwt_documented ::
  "jwt_lib \<Rightarrow> (string \<Rightarrow> rsa_key \<Rightarrow> string \<Rightarrow> claims \<Rightarrow> bool) \<Rightarrow> (claims \<Rightarrow> int option) \<Rightarrow> bool" where
  "jwt_documented jl is_signed exp_claim \<longleftrightarrow>
     (\<forall>methods kf token t claims. jl_parse jl methods kf token = Inr t \<longrightarrow> pt_Valid t \<longrightarrow>
        pt_Claims t = Some claims \<longrightarrow>
        (\<exists>head key. th_alg head \<in> set methods \<and> kf head = Inr key \<and> is_signed (th_alg head) key token claims)) \<and>
     (\<forall>claims cmp. jl_VerifyExpiresAt jl claims cmp True \<longleftrightarrow>
        (\<exists>e. exp_claim claims = Some e \<and> cmp \<le> e))"

definition aud_ok :: "claims \<Rightarrow> string \<Rightarrow> bool" where
  "aud_ok claims expected \<longleftrightarrow>
     claims ''aud'' = Some (JStr expected) \<or>
     (\<exists>as. claims ''aud'' = Some (JArr as) \<and>
        (JStr expected \<in> set as \<or> expected = [] \<and> (\<exists>a \<in> set as. \<forall>s. a \<noteq> JStr s)))"

lemma aud_contains_iff:
  "aud_contains expected as \<longleftrightarrow> JStr expected \<in> set as \<or> expected = [] \<and> (\<exists>a \<in> set as. \<forall>s. a \<noteq> JStr s)"
  by (induction as) (auto split: json.splits)

lemma check_aud_iff: "check_aud pr claims expected = Inr u \<longleftrightarrow> aud_ok claims expected"
  by (auto simp: check_aud_def aud_ok_def aud_contains_iff split: option.splits json.splits if_splits)

lemma check_aud_Inl: "check_aud pr claims expected = Inl err \<Longrightarrow> \<not> aud_ok claims expected"
  by (metis check_aud_iff Inl_Inr_False)

lemma VerifyOIDCToken_iff:
  "VerifyOIDCToken pr jl net now token aud leeway = Inr c \<longleftrightarrow>
     (\<exists>t claims. jl_parse jl [''RS256''] (key_func pr net) token = Inr t \<and> pt_Valid t \<and>
        pt_Claims t = Some claims \<and> jl_VerifyExpiresAt jl claims (unix_seconds (now - leeway)) True \<and>
        claim_string claims ''iss'' = GCPCSIssuer \<and> aud_ok claims aud \<and>
        claim_string claims ''hwmodel'' = oc_HWModel c \<and> oc_HWModel c \<noteq> [] \<and>
        extractEatNonce claims = Inr (oc_EatNonce c) \<and> extractImageDigest claims = Inr (oc_ImageDigest c) \<and>
        claim_string claims ''swname'' = oc_SwName c \<and> oc_Issuer c = GCPCSIssuer \<and> oc_Audience c = aud)"
  by (cases c)
    (auto simp: VerifyOIDCToken_def Let_def check_aud_iff split: sum.splits option.splits if_splits
      dest: check_aud_Inl)

section \<open>Sessions\<close>

lemma check_session_iff:
  "check_session R c expectedNonce opts k = (Inr u, k') \<longleftrightarrow>
     k' = k \<and> oc_EatNonce c = expectedNonce \<and>
     (has_prefix (oc_HWModel c) TDXHWModelPrefix \<or> has_prefix (oc_HWModel c) SEVHWModelPrefix) \<and>
     oc_SwName c = CSSwName \<and> (oc_Audience c = [] \<or> oc_Audience c = vo_Audience opts) \<and>
     oc_ImageDigest c = vo_ExpectedImageDigest opts"
  by (auto simp: check_session_def Let_def split: if_splits)

text \<open>
  Each part either passes the connection on or has closed it, and so does a sequence of parts that stops
  at the first error.
\<close>

definition settled :: "'a result \<times> conn_state \<Rightarrow> bool" where
  "settled x \<longleftrightarrow> snd x = (if result_ok (fst x) then Open else Closed)"

lemma settled_parts:
  "settled (fetch_bundle R client addr Open)" "settled (bundle_claims R b aud leeway Open)"
  "settled (check_session R c n opts Open)"
  by (simp_all add: settled_def fetch_bundle_def bundle_claims_def check_session_def Let_def
      split: sum.split option.split bool.split)

lemma settled_then:
  assumes "settled x" and "\<And>a. settled (f a Open)"
  shows "settled (case x of (Inl err, k) \<Rightarrow> (Inl err, k) | (Inr a, k) \<Rightarrow> f a k)"
  using assms by (cases x; cases "fst x") (auto simp: settled_def)

lemma settled_Inr: "settled x \<Longrightarrow> x = (Inr a, k) \<longleftrightarrow> fst x = Inr a \<and> k = Open"
  by (cases x) (auto simp: settled_def)

lemma settled_case_Inr:
  "settled x \<Longrightarrow>
   (case x of (Inl err, k) \<Rightarrow> (Inl err, k) | (Inr a, k) \<Rightarrow> f a k) = (Inr y, st) \<longleftrightarrow>
   (\<exists>a. x = (Inr a, Open) \<and> f a Open = (Inr y, st))"
  by (cases x; cases "fst x") (auto simp: settled_def)

lemma Connect_Inr:
  "Connect R addr (Some opts) = (Inr session, st) \<longleftrightarrow>
     (\<exists>conn ekm bundle c. re_dial R addr = Inr conn \<and> tc_export conn EKMLabel EKMLength = Inr ekm \<and>
        fetch_bundle R (tc_exchange conn) addr Open = (Inr bundle, Open) \<and>
        bundle_claims R bundle (vo_Audience opts) (session_leeway opts) Open = (Inr c, Open) \<and>
        check_session R c (EKMNonce ekm) opts Open = (Inr (), Open) \<and> st = Open \<and>
        session = \<lparr>vs_ContainerImageDigest = oc_ImageDigest c, vs_HWModel = oc_HWModel c,
                   vs_Client = tc_exchange conn\<rparr>)"
proof (cases "re_dial R addr")
  case (Inl err)
  then show ?thesis by (simp add: Connect_def)
next
  case (Inr conn)
  show ?thesis
    by (cases "tc_export conn EKMLabel EKMLength")
      (auto simp: Connect_def Inr ExtractEKM_def newPinnedClient_def Let_def wrap_err_def
        settled_case_Inr settled_parts)
qed

section \<open>A concrete peer\<close>

text \<open>
  For witnesses: a peer whose bundle carries a token, a JWT library that accepts it if the key
  function finds a key, and claims that name the session.
\<close>

definition toy_claims_map :: claims where
  "toy_claims_map =
     [''iss'' \<mapsto> JStr GCPCSIssuer, ''aud'' \<mapsto> JStr ''ratls-buffer-tee'', ''hwmodel'' \<mapsto> JStr ''GCP_INTEL_TDX'',
      ''swname'' \<mapsto> JStr CSSwName, ''eat_nonce'' \<mapsto> JStr (EKMNonce [1, 2]),
      ''submods'' \<mapsto> JObj [(''container'', JObj [(''image_digest'', JStr ''sha256:d'')])],
      ''exp'' \<mapsto> JNum ''90'']"

definition toy_jwt :: jwt_lib where
  "toy_jwt =
     \<lparr>jl_parse = (\<lambda>methods kf token.
        (case kf \<lparr>th_rsa_method = True, th_alg = ''RS256'', th_kid = ''k1''\<rparr> of
           Inl err \<Rightarrow> Inl err
         | Inr key \<Rightarrow>
             if ''RS256'' \<in> set methods then Inr \<lparr>pt_Valid = True, pt_Claims = Some toy_claims_map\<rparr>
             else Inl (Lib (LibError ''signing method is invalid'')))),
      jl_VerifyExpiresAt = (\<lambda>claims cmp req. cmp \<le> 90)\<rparr>"

definition toy_bundle_json :: string where
  "toy_bundle_json = json_object [(''oidc_token'', json_string ''t'')]"

definition toy_peer :: net where
  "toy_peer rq =
     Inr \<lparr>pr_status = 200, pr_body = \<lparr>st_data = bytes_of toy_bundle_json, st_end = EOF\<rparr>\<rparr>"

definition toy_ratls :: ratls_env where
  "toy_ratls =
     \<lparr>re_dial = (\<lambda>_. Inr \<lparr>tc_export = (\<lambda>label n. Inr [1, 2]), tc_exchange = toy_peer\<rparr>), re_jwt = toy_jwt,
      re_net = toy_idp, re_now = 0, re_test_mode = False, re_is_print = (\<lambda>_. False),
      re_check_url = (\<lambda>_. Inr ())\<rparr>"

definition toy_opts :: VerificationOptions where
  "toy_opts = \<lparr>vo_Audience = ''ratls-buffer-tee'', vo_ExpectedImageDigest = ''sha256:d'', vo_TokenLeeway = 0\<rparr>"

lemma toy_jwt_documented:
  "jwt_documented toy_jwt (\<lambda>alg key token claims. True) (\<lambda>_. Some 90)"
  by (auto simp: jwt_documented_def toy_jwt_def split: sum.splits if_splits
      intro!: exI [of _ "\<lparr>th_rsa_method = True, th_alg = ''RS256'', th_kid = ''k1''\<rparr>"])

lemma toy_bundle:
  "fetch_bundle toy_ratls toy_peer addr k = (Inr \<lparr>at_OIDCToken = ''t'', at_TestModeClaims = None\<rparr>, k)"
proof -
  have "utf8_fix ''oidc_token'' = ''oidc_token''"
    by (rule utf8_fix_ascii) (simp add: is_ascii_def)
  then have "json_parse toy_bundle_json = Some (JObj [(''oidc_token'', JStr ''t'')])"
    using json_parse_object [of "[(''oidc_token'', json_string ''t'', JStr ''t'')]"]
    by (simp add: toy_bundle_json_def encodes_ascii is_ascii_def)
  then show ?thesis
    by (simp add: fetch_bundle_def toy_ratls_def toy_peer_def read_all_def parse_attestation_bundle_def
        json_unmarshal_def setter_defs find_field_def AttestationBundle_fields_def Let_def)
qed

lemma kty_ignored: "find_field jwk_fields ''kty'' = None"
  by (simp add: find_field_def jwk_fields_def has_prefix_def to_upper_def char_eq_code)

lemma toy_jwk_decode:
  "decode_struct jwk_fields toy_key_value jwk_zero = Inr \<lparr>rk_N = toy_n, rk_E = toy_e, rk_Kid = ''k1''\<rparr>"
proof -
  have "find_field jwk_fields ''kid'' = Some (set_string (\<lambda>x r. r\<lparr>rk_Kid := x\<rparr>))"
    "find_field jwk_fields ''n'' = Some (set_string (\<lambda>x r. r\<lparr>rk_N := x\<rparr>))"
    "find_field jwk_fields ''e'' = Some (set_string (\<lambda>x r. r\<lparr>rk_E := x\<rparr>))"
    by (simp_all add: find_field_def jwk_fields_def)
  then show ?thesis
    by (simp add: decode_struct_def toy_key_value_def kty_ignored set_string_def jwk_zero_def)
qed

lemma decode_struct_object: "decode_struct fs (JObj ms) st = decode_members fs ms st"
  by (simp add: decode_struct_def)

lemma toy_google_keys:
  "json_unmarshal (decode_struct jwksFile_fields) [] (bytes_of toy_jwks_json) =
     Inr [\<lparr>rk_N = toy_n, rk_E = toy_e, rk_Kid = ''k1''\<rparr>]"
  by (simp add: json_unmarshal_def toy_jwks_parse decode_struct_object find_field_def
      jwksFile_fields_def set_slice_def toy_jwk_decode)

lemma toy_google_key: "key_func pr toy_idp \<lparr>th_rsa_method = True, th_alg = a, th_kid = ''k1''\<rparr> = Inr toy_key"
  by (simp add: key_func_def getRSAPublicKeyFromJWKS_def toy_idp_def read_all_def toy_google_keys
      buildRSAPublicKey_def toy_numbers be_value_def toy_key_def)

lemma toy_verify:
  "VerifyOIDCToken pr toy_jwt toy_idp 0 token ''ratls-buffer-tee'' default_leeway =
     Inr \<lparr>oc_EatNonce = EKMNonce [1, 2], oc_HWModel = ''GCP_INTEL_TDX'', oc_ImageDigest = ''sha256:d'',
          oc_SwName = CSSwName, oc_Issuer = GCPCSIssuer, oc_Audience = ''ratls-buffer-tee''\<rparr>"
  unfolding VerifyOIDCToken_iff
  by (simp add: toy_jwt_def toy_google_key toy_claims_map_def claim_string_def aud_ok_def extractEatNonce_def
      extractImageDigest_def member_def unix_seconds_def default_leeway_def second_def)

lemma toy_connect:
  "Connect toy_ratls addr (Some toy_opts) =
     (Inr \<lparr>vs_ContainerImageDigest = ''sha256:d'', vs_HWModel = ''GCP_INTEL_TDX'', vs_Client = toy_peer\<rparr>, Open)"
  unfolding Connect_Inr
  using toy_bundle [of addr] toy_verify
  by (simp add: toy_ratls_def bundle_claims_def toy_opts_def session_leeway_def check_session_iff
      has_prefix_def TDXHWModelPrefix_def)

section \<open>The properties\<close>

text \<open>
  The nonce of a session has 43 characters, decodes to the SHA-256 of the exported keying
  material, and two sessions share it exactly when the digests are equal.
\<close>

theorem ekm_nonce:
  "length (EKMNonce ekm) = 43 \<and> Base64DecodeURLNoPad (EKMNonce ekm) = Inr (sha256 ekm) \<and>
   (EKMNonce ekm = EKMNonce ekm' \<longleftrightarrow> sha256 ekm = sha256 ekm')"
  using rawurl.enc_inject [of "sha256 ekm" "sha256 ekm'"]
  by (simp add: EKMNonce_def Base64DecodeURLNoPad_def rawurl_length rawurl.dec_enc)

text \<open>
  C8: what a session stands for.  Outside test mode, when \<open>Connect\<close> returns a session, its
  client is the connection that was dialled, the keying material exported from exactly that
  connection hashes to the nonce in the token, the token is signed with RS256 under a key of
  Google's pinned key set, comes from Google's issuer for the expected audience, is not expired
  beyond the leeway, names TDX or SEV hardware and Confidential Space, and its image digest is the
  pinned one.
\<close>

theorem connect_verified:
  assumes "jwt_documented (re_jwt R) is_signed exp_claim" and "\<not> re_test_mode R"
    and "Connect R addr (Some opts) = (Inr session, st)"
  shows "\<exists>conn ekm head key token claims e.
    st = Open \<and> re_dial R addr = Inr conn \<and> vs_Client session = tc_exchange conn \<and>
    tc_export conn EKMLabel EKMLength = Inr ekm \<and>
    th_rsa_method head \<and> getRSAPublicKeyFromJWKS (re_is_print R) (re_net R) head = Inr key \<and>
    is_signed ''RS256'' key token claims \<and>
    exp_claim claims = Some e \<and> unix_seconds (re_now R - session_leeway opts) \<le> e \<and>
    claim_string claims ''iss'' = GCPCSIssuer \<and> aud_ok claims (vo_Audience opts) \<and>
    extractEatNonce claims = Inr (EKMNonce ekm) \<and>
    claim_string claims ''hwmodel'' = vs_HWModel session \<and>
    (has_prefix (vs_HWModel session) TDXHWModelPrefix \<or> has_prefix (vs_HWModel session) SEVHWModelPrefix) \<and>
    claim_string claims ''swname'' = CSSwName \<and>
    extractImageDigest claims = Inr (vo_ExpectedImageDigest opts) \<and>
    vs_ContainerImageDigest session = vo_ExpectedImageDigest opts"
proof -
  obtain conn ekm ab c where c: "re_dial R addr = Inr conn" "tc_export conn EKMLabel EKMLength = Inr ekm"
      "bundle_claims R ab (vo_Audience opts) (session_leeway opts) Open = (Inr c, Open)"
      "check_session R c (EKMNonce ekm) opts Open = (Inr (), Open)" "st = Open"
      "session = \<lparr>vs_ContainerImageDigest = oc_ImageDigest c, vs_HWModel = oc_HWModel c,
                  vs_Client = tc_exchange conn\<rparr>"
    using assms(3) unfolding Connect_Inr by blast
  then have "VerifyOIDCToken (re_is_print R) (re_jwt R) (re_net R) (re_now R) (at_OIDCToken ab)
      (vo_Audience opts) (session_leeway opts) = Inr c"
    using assms(2) by (auto simp: bundle_claims_def split: sum.splits)
  then obtain t claims where v: "jl_parse (re_jwt R) [''RS256''] (key_func (re_is_print R) (re_net R))
        (at_OIDCToken ab) = Inr t" "pt_Valid t" "pt_Claims t = Some claims"
      "jl_VerifyExpiresAt (re_jwt R) claims (unix_seconds (re_now R - session_leeway opts)) True"
      "claim_string claims ''iss'' = GCPCSIssuer" "aud_ok claims (vo_Audience opts)"
      "claim_string claims ''hwmodel'' = oc_HWModel c" "extractEatNonce claims = Inr (oc_EatNonce c)"
      "extractImageDigest claims = Inr (oc_ImageDigest c)" "claim_string claims ''swname'' = oc_SwName c"
    unfolding VerifyOIDCToken_iff by blast
  obtain head key where h: "th_alg head = ''RS256''" "key_func (re_is_print R) (re_net R) head = Inr key"
      "is_signed ''RS256'' key (at_OIDCToken ab) claims"
    using assms(1) v(1-3) unfolding jwt_documented_def by fastforce
  then have "th_rsa_method head" "getRSAPublicKeyFromJWKS (re_is_print R) (re_net R) head = Inr key"
    by (auto simp: key_func_def split: if_splits)
  moreover obtain e where "exp_claim claims = Some e" "unix_seconds (re_now R - session_leeway opts) \<le> e"
    using assms(1) v(4) unfolding jwt_documented_def by blast
  ultimately show ?thesis
    using c v h(3) unfolding check_session_iff by fastforce
qed

lemma connect_verified_witness:
  "\<exists>head key. getRSAPublicKeyFromJWKS (re_is_print toy_ratls) (re_net toy_ratls) head = Inr key \<and>
     fst (Connect toy_ratls ''gpu:443'' (Some toy_opts)) = Inr \<lparr>vs_ContainerImageDigest = ''sha256:d'',
       vs_HWModel = ''GCP_INTEL_TDX'', vs_Client = toy_peer\<rparr>"
proof -
  have "jwt_documented (re_jwt toy_ratls) (\<lambda>alg key token claims. True) (\<lambda>_. Some 90)"
    using toy_jwt_documented by (simp add: toy_ratls_def)
  moreover have "\<not> re_test_mode toy_ratls"
    by (simp add: toy_ratls_def)
  ultimately show ?thesis
    using connect_verified [OF _ _ toy_connect, of _ _ "''gpu:443''"] toy_connect [of "''gpu:443''"]
    by fastforce
qed

text \<open>
  C25: \<open>Connect\<close> leaves no connection behind.  It leaves a connection open exactly when it
  returns a session, and has dialled none exactly when no options were given or the dial failed; in
  every other case the connection it dialled is closed.
\<close>

theorem connect_closes:
  "(snd (Connect R addr opts) = Open \<longleftrightarrow> result_ok (fst (Connect R addr opts))) \<and>
   (snd (Connect R addr opts) = NotDialled \<longleftrightarrow>
     (case opts of None \<Rightarrow> True | Some _ \<Rightarrow> \<not> result_ok (re_dial R addr)))"
proof (cases opts)
  case (Some o')
  show ?thesis
  proof (cases "re_dial R addr")
    case (Inr conn)
    have "settled (Connect R addr opts)"
    proof (cases "ExtractEKM (Some (tc_export conn))")
      case (Inl err)
      then show ?thesis
        using Some Inr by (simp add: Connect_def settled_def)
    next
      case ekm: (Inr ekm)
      show ?thesis
        unfolding Connect_def Some option.case Inr sum.case Let_def ekm
        by (intro settled_then settled_parts) (simp add: settled_def)
    qed
    then show ?thesis
      using Some Inr by (simp add: settled_def)
  qed (simp add: Some Connect_def)
qed (simp add: Connect_def)

text \<open>
  The claims of the test mode count only in test mode.  Outside it a bundle that carries
  them is treated as if it did not; in test mode they replace the token altogether, and neither
  signature nor issuer nor expiry is looked at.
\<close>

theorem test_claims_only_in_test_mode:
  "(re_test_mode R \<or>
     bundle_claims R b aud leeway k = bundle_claims R (b\<lparr>at_TestModeClaims := None\<rparr>) aud leeway k) \<and>
   bundle_claims (R\<lparr>re_test_mode := True\<rparr>) (b\<lparr>at_TestModeClaims := Some tm\<rparr>) aud leeway k = (Inr tm, k)"
  by (cases "re_test_mode R") (simp_all add: bundle_claims_def)

text \<open>
  C35: the two builders of RSA keys.  On numbers that decode, the client always builds the key with
  the big-endian modulus and the exponent modulo \<open>2 ^ 64\<close>; the server builds the same key, except that it
  rejects an exponent that is zero modulo \<open>2 ^ 64\<close>, which the client accepts.
\<close>

theorem rsa_builders_agree:
  assumes "b64_decode RawURLEncoding (jk_N k) = Inr n" and "b64_decode RawURLEncoding (jk_E k) = Inr e"
  shows "buildRSAPublicKey (jk_N k) (jk_E k) = Inr \<lparr>rsa_N = be_value n, rsa_E = of_nat (be_value e)\<rparr> \<and>
    rsaPubKeyFromJWK k =
      (if 2 ^ 64 dvd be_value e then Inl (Errorf ''invalid public exponent'')
       else buildRSAPublicKey (jk_N k) (jk_E k))"
proof -
  have "(of_nat m :: 64 word) = 0 \<longleftrightarrow> 2 ^ 64 dvd m" for m
    by (simp add: word_unat_eq_iff unat_of_nat mod_eq_0_iff_dvd)
  then show ?thesis
    using assms by (simp add: rsaPubKeyFromJWK_def buildRSAPublicKey_def exponent_of_value Let_def)
qed

text \<open>A key with exponent zero.\<close>

lemma rsa_builders_witness:
  "\<exists>k. buildRSAPublicKey (jk_N k) (jk_E k) = Inr \<lparr>rsa_N = 7, rsa_E = 0\<rparr> \<and>
     rsaPubKeyFromJWK k = Inl (Errorf ''invalid public exponent'')"
  using rsa_builders_agree [of "jwksKey_zero\<lparr>jk_N := b64_encode RawURLEncoding [7],
      jk_E := b64_encode RawURLEncoding [0]\<rparr>" "[7]" "[0]"]
  by (intro exI [of _ "jwksKey_zero\<lparr>jk_N := b64_encode RawURLEncoding [7],
      jk_E := b64_encode RawURLEncoding [0]\<rparr>"]) (simp add: rawurl.dec_enc be_value_def del: b64_encode.simps)




end
